theory Spec2Isabelle
  imports Complex_Main "HOL-Library.Log_Nat"
begin

section \<open>JavaScript numbers\<close>

text \<open>
  A JavaScript Number is an IEEE 754 binary64 value. The finite ones are rationals, so a
  Number is modelled as \<open>NaN\<close>, an infinity, or \<open>Fin q\<close> with \<open>q\<close> the exact value.
  Negative zero is identified with zero: the code under study only compares, prints and
  tests numbers for truthiness, and none of these tells the two zeros apart.
\<close>

datatype jsnum = NaN | Fin rat | PosInf | NegInf

text \<open>\<open>ilog2 a\<close> is the binary exponent of a positive rational: \<open>2^e \<le> a < 2^(e+1)\<close>.\<close>

definition ilog2 :: "rat \<Rightarrow> int" where
  "ilog2 a = (let k = bitlen (fst (quotient_of a)) - bitlen (snd (quotient_of a))
              in if 2 powi k \<le> a then k else k - 1)"

definition round_half_even :: "rat \<Rightarrow> int" where
  "round_half_even x =
     (let f = \<lfloor>x\<rfloor>; r = x - of_int f
      in if r < 1 / 2 then f else if 1 / 2 < r then f + 1 else if even f then f else f + 1)"

text \<open>
  Rounding of a positive rational to the binary64 grid, ties to even: 53 significant bits
  in the binade of \<open>a\<close>, and the fixed spacing \<open>2^-1074\<close> below \<open>2^-1022\<close>.
\<close>

definition fl_pos :: "rat \<Rightarrow> rat" where
  "fl_pos a = (let e = max (ilog2 a) (- 1022); u = 2 powi (e - 52)
               in of_int (round_half_even (a / u)) * u)"

text \<open>The Number value for a rational (ECMA-262, 6.1.6.1): overflow gives an infinity.\<close>

definition number_value :: "rat \<Rightarrow> jsnum" where
  "number_value x =
     (if x = 0 then Fin 0
      else if 0 < x then (if 2 powi 1024 \<le> fl_pos x then PosInf else Fin (fl_pos x))
      else (if 2 powi 1024 \<le> fl_pos (- x) then NegInf else Fin (- fl_pos (- x))))"

definition isNaN :: "jsnum \<Rightarrow> bool" where
  "isNaN x = (x = NaN)"

text \<open>The relational operators on Numbers: every comparison with \<open>NaN\<close> is false.\<close>

fun js_lt :: "jsnum \<Rightarrow> jsnum \<Rightarrow> bool" where
  "js_lt NaN _ = False"
| "js_lt _ NaN = False"
| "js_lt (Fin a) (Fin b) = (a < b)"
| "js_lt (Fin a) PosInf = True"
| "js_lt (Fin a) NegInf = False"
| "js_lt PosInf _ = False"
| "js_lt NegInf NegInf = False"
| "js_lt NegInf _ = True"

definition js_gt :: "jsnum \<Rightarrow> jsnum \<Rightarrow> bool" where
  "js_gt x y = js_lt y x"

text \<open>
  Arithmetic on Numbers: the exact result rounded to a Number, and the IEEE rules for
  \<open>NaN\<close> and the infinities. The code never divides by a zero; there \<open>js_div\<close> takes
  the zero as positive.
\<close>

fun js_neg :: "jsnum \<Rightarrow> jsnum" where
  "js_neg NaN = NaN"
| "js_neg (Fin a) = Fin (- a)"
| "js_neg PosInf = NegInf"
| "js_neg NegInf = PosInf"

fun js_add :: "jsnum \<Rightarrow> jsnum \<Rightarrow> jsnum" where
  "js_add NaN _ = NaN"
| "js_add _ NaN = NaN"
| "js_add (Fin a) (Fin b) = number_value (a + b)"
| "js_add PosInf NegInf = NaN"
| "js_add NegInf PosInf = NaN"
| "js_add PosInf _ = PosInf"
| "js_add _ PosInf = PosInf"
| "js_add NegInf _ = NegInf"
| "js_add _ NegInf = NegInf"

definition js_sub :: "jsnum \<Rightarrow> jsnum \<Rightarrow> jsnum" where
  "js_sub x y = js_add x (js_neg y)"

fun js_mul :: "jsnum \<Rightarrow> jsnum \<Rightarrow> jsnum" where
  "js_mul NaN _ = NaN"
| "js_mul _ NaN = NaN"
| "js_mul (Fin a) (Fin b) = number_value (a * b)"
| "js_mul (Fin a) y = (if a = 0 then NaN else if 0 < a then y else js_neg y)"
| "js_mul x (Fin b) = (if b = 0 then NaN else if 0 < b then x else js_neg x)"
| "js_mul x y = (if x = y then PosInf else NegInf)"

fun js_div :: "jsnum \<Rightarrow> jsnum \<Rightarrow> jsnum" where
  "js_div NaN _ = NaN"
| "js_div _ NaN = NaN"
| "js_div (Fin a) (Fin b) =
     (if b = 0 then (if a = 0 then NaN else if 0 < a then PosInf else NegInf)
      else number_value (a / b))"
| "js_div (Fin a) _ = Fin 0"
| "js_div x (Fin b) = (if 0 \<le> b then x else js_neg x)"
| "js_div _ _ = NaN"

text \<open>
  \<open>Math.floor\<close>, \<open>Math.ceil\<close> and \<open>Math.round\<close> (the nearest integer, the larger one on a
  tie) are exact.
\<close>

definition Math_floor :: "jsnum \<Rightarrow> jsnum" where
  "Math_floor x = (case x of Fin q \<Rightarrow> Fin (of_int \<lfloor>q\<rfloor>) | _ \<Rightarrow> x)"

definition Math_ceil :: "jsnum \<Rightarrow> jsnum" where
  "Math_ceil x = (case x of Fin q \<Rightarrow> Fin (of_int \<lceil>q\<rceil>) | _ \<Rightarrow> x)"

definition Math_round :: "jsnum \<Rightarrow> jsnum" where
  "Math_round x = (case x of Fin q \<Rightarrow> Fin (of_int \<lfloor>q + 1 / 2\<rfloor>) | _ \<Rightarrow> x)"

text \<open>\<open>x || d\<close> on a Number that may be absent: \<open>undefined\<close>, \<open>NaN\<close> and 0 are falsy.\<close>

definition or_default :: "jsnum option \<Rightarrow> jsnum \<Rightarrow> jsnum" where
  "or_default x d = (case x of None \<Rightarrow> d | Some v \<Rightarrow> if v = NaN \<or> v = Fin 0 then d else v)"

section \<open>JavaScript strings\<close>

text \<open>
  A string is a list of code units; the model covers the code units below 256, one
  \<open>char\<close> each. Among these the white space and line terminator code units of
  ECMA-262 are TAB, LF, VT, FF, CR, SP and NBSP.
\<close>

definition isWhiteSpace :: "char \<Rightarrow> bool" where
  "isWhiteSpace c = (of_char c \<in> {9, 10, 11, 12, 13, 32, 160 :: int})"

definition trimStart :: "string \<Rightarrow> string" where
  "trimStart s = dropWhile isWhiteSpace s"

definition trim :: "string \<Rightarrow> string" where
  "trim s = rev (dropWhile isWhiteSpace (rev (dropWhile isWhiteSpace s)))"

fun join :: "string \<Rightarrow> string list \<Rightarrow> string" where
  "join sep [] = []"
| "join sep [x] = x"
| "join sep (x # y # ys) = x @ sep @ join sep (y # ys)"

definition isDigit :: "char \<Rightarrow> bool" where
  "isDigit c = (48 \<le> (of_char c :: int) \<and> (of_char c :: int) \<le> 57)"

definition digit_value :: "char \<Rightarrow> int" where
  "digit_value c = of_char c - 48"

definition digits_value :: "string \<Rightarrow> int" where
  "digits_value ds = foldl (\<lambda>acc c. 10 * acc + digit_value c) 0 ds"

subsection \<open>parseFloat\<close>

text \<open>
  \<open>parseFloat\<close> (ECMA-262, 19.2.4) drops leading white space, takes the longest prefix
  that is a \<open>StrDecimalLiteral\<close> and returns its value rounded to a Number; with no such
  prefix it returns \<open>NaN\<close>.
  \<^verbatim>\<open>
  StrDecimalLiteral         ::: [+-]? StrUnsignedDecimalLiteral
  StrUnsignedDecimalLiteral ::: Infinity
                              | DecimalDigits . DecimalDigits? ExponentPart?
                              | . DecimalDigits ExponentPart?
                              | DecimalDigits ExponentPart?
  ExponentPart              ::: [eE] [+-]? DecimalDigits
  \<close>
\<close>

text \<open>
  The exponent of the longest \<open>ExponentPart\<close> at the head of a string, and 0 when there
  is none (an indicator with no digit after it is not part of the literal, and
  \<open>digits_value []\<close> is 0).
\<close>

definition exponent_part :: "string \<Rightarrow> int" where
  "exponent_part s =
     (case s of
        [] \<Rightarrow> 0
      | c # r \<Rightarrow>
          if c = CHR ''e'' \<or> c = CHR ''E'' then
            (case r of
               [] \<Rightarrow> 0
             | d # r' \<Rightarrow>
                 if d = CHR ''-'' then - digits_value (takeWhile isDigit r')
                 else if d = CHR ''+'' then digits_value (takeWhile isDigit r')
                 else digits_value (takeWhile isDigit r))
          else 0)"

datatype literal_value = Infinite | Finite rat

definition unsigned_literal :: "string \<Rightarrow> literal_value option" where
  "unsigned_literal s =
     (if take 8 s = ''Infinity'' then Some Infinite
      else
        let ip = takeWhile isDigit s; r1 = dropWhile isDigit s
        in (case r1 of
              [] \<Rightarrow> if ip = [] then None else Some (Finite (of_int (digits_value ip)))
            | c # r2 \<Rightarrow>
                if c = CHR ''.'' then
                  (let fp = takeWhile isDigit r2; r3 = dropWhile isDigit r2
                   in if ip = [] \<and> fp = [] then None
                      else Some (Finite (of_int (digits_value (ip @ fp)) / 10 ^ length fp
                                         * 10 powi exponent_part r3)))
                else if ip = [] then None
                else Some (Finite (of_int (digits_value ip) * 10 powi exponent_part r1))))"

definition parseFloat :: "string \<Rightarrow> jsnum" where
  "parseFloat inputString =
     (let trimmed = trimStart inputString;
          negative = (trimmed \<noteq> [] \<and> hd trimmed = CHR ''-'');
          signed = (trimmed \<noteq> [] \<and> (hd trimmed = CHR ''-'' \<or> hd trimmed = CHR ''+''))
      in (case unsigned_literal (if signed then tl trimmed else trimmed) of
            None \<Rightarrow> NaN
          | Some Infinite \<Rightarrow> if negative then NegInf else PosInf
          | Some (Finite q) \<Rightarrow> number_value (if negative then - q else q)))"

section \<open>The prediction form: validation (script.js)\<close>

text \<open>
  The object built from the form entries: its own properties in the order of
  \<open>Object.keys\<close>, each name with its string value. A property that is absent reads as
  \<open>undefined\<close>, here \<open>None\<close>.
\<close>

type_synonym form_data = "(string \<times> string) list"

definition Object_keys :: "form_data \<Rightarrow> string list" where
  "Object_keys data = map fst data"

definition get_prop :: "form_data \<Rightarrow> string \<Rightarrow> string option" where
  "get_prop data key = map_of data key"

text \<open>Truthiness of a string or \<open>undefined\<close>: only \<open>undefined\<close> and the empty string are falsy.\<close>

definition truthy :: "string option \<Rightarrow> bool" where
  "truthy v = (case v of None \<Rightarrow> False | Some s \<Rightarrow> s \<noteq> [])"

text \<open>\<open>parseFloat\<close> converts its argument to a string first; \<open>undefined\<close> becomes \<open>"undefined"\<close>.\<close>

definition parseFloat_prop :: "string option \<Rightarrow> jsnum" where
  "parseFloat_prop v = (case v of None \<Rightarrow> parseFloat ''undefined'' | Some s \<Rightarrow> parseFloat s)"

text \<open>\<open>xs.forEach(f)\<close> with the captured array \<open>errors\<close> as the state that \<open>f\<close> updates.\<close>

fun forEach :: "('a \<Rightarrow> 's \<Rightarrow> 's) \<Rightarrow> 'a list \<Rightarrow> 's \<Rightarrow> 's" where
  "forEach f [] s = s"
| "forEach f (x # xs) s = forEach f xs (f x s)"

definition push :: "'a \<Rightarrow> 'a list \<Rightarrow> 'a list" where
  "push x xs = xs @ [x]"

definition requiredFields :: "string list" where
  "requiredFields = [''Glucose'', ''BMI'', ''Age'']"

text \<open>The test \<open>!data[field] || data[field].trim() === ''\<close>.\<close>

definition required_missing :: "form_data \<Rightarrow> string \<Rightarrow> bool" where
  "required_missing data field =
     (\<not> truthy (get_prop data field)
      \<or> (case get_prop data field of None \<Rightarrow> False | Some s \<Rightarrow> trim s = []))"

definition validateFormData_errors :: "form_data \<Rightarrow> string list" where
  "validateFormData_errors data =
     (let errors = [];
          errors = forEach (\<lambda>field errors.
                     if required_missing data field then push (field @ '' is required'') errors
                     else errors) requiredFields errors;
          errors = forEach (\<lambda>key errors.
                     if isNaN (parseFloat_prop (get_prop data key))
                     then push (key @ '' must be a number'') errors
                     else errors) (Object_keys data) errors;
          errors = (if truthy (get_prop data ''Glucose'') then
                      (let glucose = parseFloat_prop (get_prop data ''Glucose'')
                       in if js_lt glucose (Fin 0) \<or> js_gt glucose (Fin 300)
                          then push ''Glucose must be between 0 and 300 mg/dL'' errors
                          else errors)
                    else errors);
          errors = (if truthy (get_prop data ''BMI'') then
                      (let bmi = parseFloat_prop (get_prop data ''BMI'')
                       in if js_lt bmi (Fin 10) \<or> js_gt bmi (Fin 70)
                          then push ''BMI must be between 10 and 70'' errors
                          else errors)
                    else errors);
          errors = (if truthy (get_prop data ''Age'') then
                      (let age = parseFloat_prop (get_prop data ''Age'')
                       in if js_lt age (Fin 1) \<or> js_gt age (Fin 120)
                          then push ''Age must be between 1 and 120 years'' errors
                          else errors)
                    else errors)
      in errors)"

text \<open>The returned object: \<open>{valid: false, message}\<close> or \<open>{valid: true}\<close>.\<close>

record validation =
  valid :: bool
  message :: "string option"

definition validateFormData :: "form_data \<Rightarrow> validation" where
  "validateFormData data =
     (let errors = validateFormData_errors data
      in if 0 < length errors
         then \<lparr>valid = False, message = Some (join '', '' errors)\<rparr>
         else \<lparr>valid = True, message = None\<rparr>)"

text \<open>
  The guarded range test of one field,
  \<open>if (data.F) { const v = parseFloat(data.F); if (v < lo || v > hi) ... }\<close>,
  as a predicate: it holds when the error of that field is pushed.
\<close>

definition range_error :: "form_data \<Rightarrow> string \<Rightarrow> rat \<Rightarrow> rat \<Rightarrow> bool" where
  "range_error data field lo hi =
     (truthy (get_prop data field)
      \<and> (js_lt (parseFloat_prop (get_prop data field)) (Fin lo)
         \<or> js_gt (parseFloat_prop (get_prop data field)) (Fin hi)))"

text \<open>
  A Number lies outside the closed interval \<open>[lo, hi]\<close>: it is a number (not \<open>NaN\<close>)
  and is below \<open>lo\<close> or above \<open>hi\<close>.
\<close>

definition outside_range :: "rat \<Rightarrow> rat \<Rightarrow> jsnum \<Rightarrow> bool" where
  "outside_range lo hi x =
     (case x of NaN \<Rightarrow> False | Fin q \<Rightarrow> q < lo \<or> hi < q | PosInf \<Rightarrow> True | NegInf \<Rightarrow> True)"

section \<open>The environment of the page scripts\<close>

text \<open>
  What the scripts take from the browser and do not define themselves. The elements of
  the document they look up are given as the set \<open>dom\<close> of the ids (or selectors) that
  exist. The library functions whose results depend on Unicode tables, on the locale or
  on the shortest-digits algorithm are parameters: \<open>toUpperCase\<close>, the locale
  formatting functions (\<open>toLocaleTimeString\<close> with the names of the fields asked for),
  \<open>toISOString\<close> and the parsing of a date string by \<open>new Date\<close> (\<open>None\<close> is an
  invalid date), and \<open>frac_toString\<close>, the string of a Number that is not an integer
  below \<open>10^21\<close>. Times are time values: milliseconds since the epoch.
  \<open>random_stream\<close> is the sequence of the values that \<open>Math.random\<close> returns.
\<close>

record env =
  dom :: "string set"
  toUpperCase :: "string \<Rightarrow> string"
  frac_toString :: "rat \<Rightarrow> string"
  toLocaleString :: "jsnum \<Rightarrow> string"
  toLocaleDateString :: "int \<Rightarrow> string"
  toLocaleTimeString :: "string list \<Rightarrow> int \<Rightarrow> string"
  toISOString :: "int \<Rightarrow> string"
  Date_parse :: "string \<Rightarrow> int option"
  random_stream :: "nat \<Rightarrow> rat"
  native_share :: bool

datatype exn = TypeError | NetworkError | SyntaxError | Error string

text \<open>The decimal digits of a natural number.\<close>

fun digits :: "nat \<Rightarrow> string" where
  "digits n = (if n < 10 then [''0123456789'' ! n]
               else digits (n div 10) @ [''0123456789'' ! (n mod 10)])"

declare digits.simps [simp del]

text \<open>
  \<open>Number::toString\<close> (ECMA-262, 6.1.6.1.20) on \<open>NaN\<close>, the infinities and the integers
  below \<open>10^21\<close>, which print as their decimal digits; the rest is \<open>frac_toString\<close>.
\<close>

definition Number_toString :: "env \<Rightarrow> jsnum \<Rightarrow> string" where
  "Number_toString e x =
     (case x of
        NaN \<Rightarrow> ''NaN''
      | PosInf \<Rightarrow> ''Infinity''
      | NegInf \<Rightarrow> ''-Infinity''
      | Fin q \<Rightarrow>
          if q = of_int \<lfloor>q\<rfloor> \<and> \<bar>q\<bar> < 10 ^ 21
          then (if q < 0 then ''-'' else []) @ digits (nat \<bar>\<lfloor>q\<rfloor>\<bar>)
          else frac_toString e q)"

text \<open>
  \<open>x.toFixed(1)\<close> (ECMA-262, 21.1.3.3): the integer \<open>n\<close> nearest to \<open>10 x\<close>, the larger
  one on a tie, printed with one digit after the point; \<open>Number::toString\<close> from
  \<open>10^21\<close> on and for the values that are not finite.
\<close>

definition toFixed1 :: "env \<Rightarrow> jsnum \<Rightarrow> string" where
  "toFixed1 e x =
     (case x of
        Fin q \<Rightarrow>
          if 10 ^ 21 \<le> \<bar>q\<bar> then Number_toString e x
          else
            (let n = nat \<lfloor>\<bar>q\<bar> * 10 + 1 / 2\<rfloor>
             in (if q < 0 then ''-'' else []) @ digits (n div 10) @ ''.'' @ digits (n mod 10))
      | _ \<Rightarrow> Number_toString e x)"

text \<open>A value inside a template literal: \<open>undefined\<close> prints as \<open>"undefined"\<close>.\<close>

definition template_string :: "string option \<Rightarrow> string" where
  "template_string v = (case v of None \<Rightarrow> ''undefined'' | Some s \<Rightarrow> s)"

section \<open>The prediction page (script.js)\<close>

subsection \<open>The response of the prediction service\<close>

text \<open>
  The parsed JSON body is an object with the fields of the interface, each of which may
  be absent (\<open>undefined\<close>, here \<open>None\<close>). A field holds a value of its documented type:
  the model does not cover a body in which, say, \<open>confidence\<close> is a string.
\<close>

record confidence =
  diabetic :: "jsnum option"
  non_diabetic :: "jsnum option"

record prediction_result =
  status :: "string option"
  error :: "string option"
  prediction_label :: "string option"
  risk_level :: "string option"
  confidence :: "confidence option"
  health_advice :: "string list option"

text \<open>
  How \<open>await fetch(...)\<close> followed by \<open>await response.json()\<close> ends: the request is
  rejected (the service is unreachable or the request timed out), the body is not JSON,
  the body is the JSON value \<open>null\<close>, or the body is an object.
\<close>

datatype 'a fetch_outcome = Fetch_rejected | Json_rejected | Json_null | Json_body 'a

subsection \<open>The state of the page\<close>

text \<open>
  A notification element, with the identity \<open>toast_id\<close> of the element, its text and
  its type, and whether its style shows it (\<open>opacity: 1\<close>).
\<close>

record toast =
  toast_id :: nat
  toast_message :: string
  toast_type :: string
  toast_shown :: bool

text \<open>
  A pending timer: the callback it will run, the element the callback writes to, the
  delay, and whether it repeats (\<open>setInterval\<close>). Callbacks are recorded, not run: the
  properties below are about what is pending when a function returns.
\<close>

datatype callback =
    Toast_show
  | Toast_hide_then_remove
  | Meter_width "string"
  | Counter_step jsnum
  | Feed_item_show

datatype target = Toast_element nat | Element string | Feed_item nat

record timer =
  timer_target :: target
  timer_callback :: callback
  timer_delay :: nat
  timer_repeats :: bool

text \<open>
  The page: the busy state of the submit buttons, the notification element in the
  document, the pending timers, the properties written to the elements of the result
  panel (element and property to value), the items of the advice list, the click
  listeners attached to the two result buttons (each with the result it captured), the
  console, and the next fresh element identity.
\<close>

record page =
  loading :: bool
  notification :: "toast option"
  timers :: "timer list"
  view :: "string \<times> string \<rightharpoonup> string"
  advice_items :: "string list"
  listeners :: "(string \<times> prediction_result) list"
  console :: "string list"
  next_id :: nat

definition setTimeout :: "target \<Rightarrow> callback \<Rightarrow> nat \<Rightarrow> timer list \<Rightarrow> timer list" where
  "setTimeout tg cb ms ts =
     ts @ [\<lparr>timer_target = tg, timer_callback = cb, timer_delay = ms, timer_repeats = False\<rparr>]"

definition setInterval :: "target \<Rightarrow> callback \<Rightarrow> nat \<Rightarrow> timer list \<Rightarrow> timer list" where
  "setInterval tg cb ms ts =
     ts @ [\<lparr>timer_target = tg, timer_callback = cb, timer_delay = ms, timer_repeats = True\<rparr>]"

definition set_prop :: "string \<Rightarrow> string \<Rightarrow> string \<Rightarrow> page \<Rightarrow> page" where
  "set_prop elem prop v p = p\<lparr>view := (view p)((elem, prop) \<mapsto> v)\<rparr>"

text \<open>\<open>showLoading(show)\<close>: every \<open>.btn-predict\<close> button shows the spinner and is disabled, or not.\<close>

definition showLoading :: "bool \<Rightarrow> page \<Rightarrow> page" where
  "showLoading busy p = p\<lparr>loading := busy\<rparr>"

text \<open>
  \<open>showNotification(message, type)\<close>: the notification in the document, if any, is
  removed; a new element is created hidden and appended; one timer shows it after 10 ms
  and one hides it after 3 s (and removes it 300 ms later). No timer is cleared.
\<close>

definition showNotification :: "string \<Rightarrow> string \<Rightarrow> page \<Rightarrow> page" where
  "showNotification msg type p =
     (let p = (case notification p of None \<Rightarrow> p | Some existing \<Rightarrow> p\<lparr>notification := None\<rparr>);
          n = next_id p;
          p = p\<lparr>next_id := n + 1,
                notification := Some \<lparr>toast_id = n, toast_message = msg, toast_type = type,
                                      toast_shown = False\<rparr>\<rparr>;
          p = p\<lparr>timers := setTimeout (Toast_element n) Toast_show 10 (timers p)\<rparr>;
          p = p\<lparr>timers := setTimeout (Toast_element n) Toast_hide_then_remove 3000 (timers p)\<rparr>
      in p)"

subsection \<open>Rendering the result\<close>

text \<open>
  A function of the script that may throw returns the exception, if any, together with
  the page as it is at that point: what was written before the exception stays written.
\<close>

type_synonym outcome = "exn option \<times> page"

definition and_then ::
  "exn option \<times> 's \<Rightarrow> ('s \<Rightarrow> exn option \<times> 's) \<Rightarrow> exn option \<times> 's" where
  "and_then r f = (case r of (None, p) \<Rightarrow> f p | (Some ex, p) \<Rightarrow> (Some ex, p))"

text \<open>
  \<open>setupResultActions(result)\<close>: a click listener on the share button and one on the
  download button, when the buttons exist. Each listener captures \<open>result\<close>.
\<close>

definition setupResultActions :: "env \<Rightarrow> prediction_result \<Rightarrow> page \<Rightarrow> page" where
  "setupResultActions e result p =
     (let p = (if ''shareResult'' \<in> dom e
               then p\<lparr>listeners := listeners p @ [(''shareResult'', result)]\<rparr> else p);
          p = (if ''downloadResult'' \<in> dom e
               then p\<lparr>listeners := listeners p @ [(''downloadResult'', result)]\<rparr> else p)
      in p)"

text \<open>
  \<open>displayPredictionResult(result)\<close>, statement by statement. Reading a property of
  \<open>undefined\<close> or \<open>null\<close>, and calling a method on \<open>undefined\<close>, throws a \<open>TypeError\<close>:
  \<open>result.risk_level.charAt\<close>, \<open>result.confidence.diabetic\<close>, \<open>.toFixed\<close> on an absent
  probability, and \<open>content.scrollIntoView\<close> when the result container does not exist.
  Assigning \<open>undefined\<close> to \<open>textContent\<close> sets the empty string.
\<close>

definition show_result_container :: "env \<Rightarrow> page \<Rightarrow> page" where
  "show_result_container e p =
     (let p = (if ''.result-placeholder'' \<in> dom e
               then set_prop ''.result-placeholder'' ''style.display'' ''none'' p else p);
          p = (if ''resultContent'' \<in> dom e
               then set_prop ''resultContent'' ''style.display'' ''block'' p else p)
      in p)"

definition render_label :: "env \<Rightarrow> prediction_result \<Rightarrow> page \<Rightarrow> page" where
  "render_label e result p =
     (if ''predictionLabel'' \<in> dom e
      then set_prop ''predictionLabel'' ''textContent''
             (case prediction_label result of None \<Rightarrow> [] | Some s \<Rightarrow> s) p
      else p)"

definition render_badge :: "env \<Rightarrow> prediction_result \<Rightarrow> page \<Rightarrow> outcome" where
  "render_badge e result p =
     (if ''riskBadge'' \<in> dom e then
        (case risk_level result of
           None \<Rightarrow> (Some TypeError, p)
         | Some level \<Rightarrow>
             (None, set_prop ''riskBadge'' ''className'' (''risk-badge '' @ level)
                      (set_prop ''riskBadge'' ''textContent''
                         (toUpperCase e (take 1 level) @ drop 1 level @ '' Risk'') p)))
      else (None, p))"

text \<open>The three places that show a probability as \<open>x.toFixed(1) + '%'\<close>.\<close>

definition render_percent :: "env \<Rightarrow> string \<Rightarrow> jsnum option \<Rightarrow> page \<Rightarrow> outcome" where
  "render_percent e elem percent p =
     (if elem \<in> dom e then
        (case percent of
           None \<Rightarrow> (Some TypeError, p)
         | Some x \<Rightarrow> (None, set_prop elem ''textContent'' (toFixed1 e x @ ''%'') p))
      else (None, p))"

text \<open>The meter: width \<open>0%\<close> now, and \<open>diabeticPercent + '%'\<close> from a timer 100 ms later.\<close>

definition render_meter :: "env \<Rightarrow> jsnum option \<Rightarrow> page \<Rightarrow> page" where
  "render_meter e diabeticPercent p =
     (if ''meterFill'' \<in> dom e then
        (set_prop ''meterFill'' ''style.width'' ''0%'' p)
          \<lparr>timers := setTimeout (Element ''meterFill'')
             (Meter_width
                ((case diabeticPercent of
                    None \<Rightarrow> ''undefined'' | Some x \<Rightarrow> Number_toString e x) @ ''%''))
             100 (timers p)\<rparr>
      else p)"

definition render_advice :: "env \<Rightarrow> prediction_result \<Rightarrow> page \<Rightarrow> page" where
  "render_advice e result p =
     (if ''adviceList'' \<in> dom e then
        (case health_advice result of
           None \<Rightarrow> p
         | Some advice \<Rightarrow>
             forEach (\<lambda>a p. p\<lparr>advice_items := advice_items p @ [a]\<rparr>) advice
               (p\<lparr>advice_items := []\<rparr>))
      else p)"

definition scroll_to_results :: "env \<Rightarrow> page \<Rightarrow> outcome" where
  "scroll_to_results e p =
     (if ''resultContent'' \<in> dom e
      then (None, set_prop ''resultContent'' ''scrollIntoView'' ''smooth'' p)
      else (Some TypeError, p))"

definition displayPredictionResult :: "env \<Rightarrow> prediction_result \<Rightarrow> page \<Rightarrow> outcome" where
  "displayPredictionResult e result p =
     (let p = show_result_container e p;
          p = render_label e result p
      in and_then (render_badge e result p)
           (\<lambda>p. case confidence result of
                   None \<Rightarrow> (Some TypeError, p)
                 | Some c \<Rightarrow>
                     (let diabeticPercent = diabetic c
                      in and_then (render_percent e ''confidenceValue'' diabeticPercent p)
                           (\<lambda>p. and_then
                                   (render_percent e ''nonDiabeticProb'' (non_diabetic c)
                                      (render_meter e diabeticPercent p))
                           (\<lambda>p. and_then (render_percent e ''diabeticProb'' diabeticPercent p)
                           (\<lambda>p. scroll_to_results e
                                   (setupResultActions e result
                                      (render_advice e result p))))))))"

text \<open>
  The result has what \<open>displayPredictionResult\<close> dereferences on this page: a risk
  level if there is a badge, the confidence object, each probability that is shown, and
  the page has the result container.
\<close>

definition renders :: "env \<Rightarrow> prediction_result \<Rightarrow> bool" where
  "renders e result =
     ((''riskBadge'' \<in> dom e \<longrightarrow> risk_level result \<noteq> None)
      \<and> (case confidence result of
           None \<Rightarrow> False
         | Some c \<Rightarrow>
             (''confidenceValue'' \<in> dom e \<or> ''diabeticProb'' \<in> dom e \<longrightarrow> diabetic c \<noteq> None)
             \<and> (''nonDiabeticProb'' \<in> dom e \<longrightarrow> non_diabetic c \<noteq> None))
      \<and> ''resultContent'' \<in> dom e)"

subsection \<open>Submitting the form\<close>

text \<open>
  \<open>try { body } catch (error) { handler } finally { cleanup }\<close>, for a handler and a
  cleanup that do not throw: the cleanup runs once, after the body when the body
  returns and after the handler when the body throws.
\<close>

definition try_catch_finally ::
  "(page \<Rightarrow> outcome) \<Rightarrow> (exn \<Rightarrow> page \<Rightarrow> page) \<Rightarrow> (page \<Rightarrow> page) \<Rightarrow> page \<Rightarrow> page" where
  "try_catch_finally body handler cleanup p =
     (case body p of
        (None, p') \<Rightarrow> cleanup p'
      | (Some ex, p') \<Rightarrow> cleanup (handler ex p'))"

text \<open>
  The body of the \<open>try\<close> block of \<open>handleFormSubmit\<close>, given how the two awaits end.
  Reading \<open>result.status\<close> of a \<open>null\<close> body throws; \<open>result.error || 'Prediction
  failed'\<close> takes the error text when it is truthy.
\<close>

definition submit_body :: "env \<Rightarrow> prediction_result fetch_outcome \<Rightarrow> page \<Rightarrow> outcome" where
  "submit_body e response p =
     (case response of
        Fetch_rejected \<Rightarrow> (Some NetworkError, p)
      | Json_rejected \<Rightarrow> (Some SyntaxError, p)
      | Json_null \<Rightarrow> (Some TypeError, p)
      | Json_body result \<Rightarrow>
          if status result = Some ''success'' then
            and_then (displayPredictionResult e result p)
              (\<lambda>p. (None, showNotification ''Prediction completed successfully!'' ''success'' p))
          else
            (None, showNotification
                     (if truthy (error result) then template_string (error result)
                      else ''Prediction failed'') ''error'' p))"

definition submit_catch :: "exn \<Rightarrow> page \<Rightarrow> page" where
  "submit_catch ex p =
     showNotification ''Unable to connect to prediction service'' ''error''
       (p\<lparr>console := console p @ [''Prediction error:'']\<rparr>)"

definition handleFormSubmit ::
  "env \<Rightarrow> form_data \<Rightarrow> prediction_result fetch_outcome \<Rightarrow> page \<Rightarrow> page" where
  "handleFormSubmit e data response p =
     (let validation = validateFormData data
      in if \<not> valid validation
         then showNotification (template_string (message validation)) ''error'' p
         else try_catch_finally (submit_body e response) submit_catch (showLoading False)
                (showLoading True p))"

subsection \<open>Sharing the result\<close>

text \<open>\<open>xs[0]\<close> on an array: the first element, and \<open>undefined\<close> when the array is empty.\<close>

definition element0 :: "'a list \<Rightarrow> 'a option" where
  "element0 xs = (case xs of [] \<Rightarrow> None | x # _ \<Rightarrow> Some x)"

text \<open>
  The text built by the click listener of the share button. The template reads
  \<open>result.prediction_label\<close>, \<open>result.confidence.diabetic.toFixed(1)\<close> and
  \<open>result.health_advice[0]\<close>, in this order; the listener does not catch.
\<close>

definition shareText :: "env \<Rightarrow> prediction_result \<Rightarrow> exn + string" where
  "shareText e result =
     (case confidence result of
        None \<Rightarrow> Inl TypeError
      | Some c \<Rightarrow>
          (case diabetic c of
             None \<Rightarrow> Inl TypeError
           | Some x \<Rightarrow>
               (case health_advice result of
                  None \<Rightarrow> Inl TypeError
                | Some advice \<Rightarrow>
                    Inr (''My diabetes risk assessment: ''
                         @ template_string (prediction_label result)
                         @ '' ('' @ toFixed1 e x @ ''% probability). ''
                         @ template_string (element0 advice)))))"

text \<open>A page on which nothing has happened yet.\<close>

definition initial_page :: page where
  "initial_page = \<lparr>loading = False, notification = None, timers = [], view = Map.empty,
                    advice_items = [], listeners = [], console = [], next_id = 0\<rparr>"

subsection \<open>Examples\<close>

text \<open>
  The prediction page with every element the script looks up, ASCII case mapping and no
  native share capability; and a form filled in with the eight features.
\<close>

definition form_page_env :: env where
  "form_page_env =
     \<lparr>dom = {''.result-placeholder'', ''resultContent'', ''predictionLabel'', ''riskBadge'',
              ''confidenceValue'', ''meterFill'', ''nonDiabeticProb'', ''diabeticProb'',
              ''adviceList'', ''shareResult'', ''downloadResult''},
      toUpperCase = map (\<lambda>c. if 97 \<le> (of_char c :: nat) \<and> (of_char c :: nat) \<le> 122
                               then char_of (of_char c - (32 :: nat)) else c),
      frac_toString = (\<lambda>q. []),
      toLocaleString = (\<lambda>x. []),
      toLocaleDateString = (\<lambda>t. []),
      toLocaleTimeString = (\<lambda>fields t. []),
      toISOString = (\<lambda>t. []),
      Date_parse = (\<lambda>s. None),
      random_stream = (\<lambda>n. 0),
      native_share = False\<rparr>"

definition example_form :: form_data where
  "example_form =
     [(''Pregnancies'', ''1''), (''Glucose'', ''100''), (''BloodPressure'', ''70''),
      (''SkinThickness'', ''20''), (''Insulin'', ''80''), (''BMI'', ''22''),
      (''DiabetesPedigreeFunction'', ''0.5''), (''Age'', ''30'')]"

definition example_result :: prediction_result where
  "example_result =
     \<lparr>status = Some ''success'', error = None, prediction_label = Some ''Non-Diabetic'',
      risk_level = Some ''low'',
      confidence = Some \<lparr>diabetic = Some (Fin (25 / 2)), non_diabetic = Some (Fin (175 / 2))\<rparr>,
      health_advice = Some [''Maintain a healthy diet'', ''Exercise regularly'']\<rparr>"

section \<open>The analytics dashboard (dashboard.js)\<close>

subsection \<open>Relative times\<close>

text \<open>The time value of a \<open>Date\<close>, as a Number: \<open>NaN\<close> for an invalid date.\<close>

definition time_value :: "int option \<Rightarrow> jsnum" where
  "time_value date = (case date of None \<Rightarrow> NaN | Some t \<Rightarrow> Fin (of_int t))"

text \<open>
  \<open>formatTime(timestamp)\<close>, with \<open>now\<close> the time value of \<open>new Date()\<close>. An invalid
  date makes every comparison false, and the last branch prints it as "Invalid Date".
\<close>

definition formatTime :: "env \<Rightarrow> int \<Rightarrow> string option \<Rightarrow> string" where
  "formatTime e now timestamp =
     (case timestamp of
        None \<Rightarrow> ''Just now''
      | Some ts \<Rightarrow>
          if ts = [] then ''Just now''
          else
            (let date = Date_parse e ts;
                 diffMs = js_sub (Fin (of_int now)) (time_value date);
                 diffMins = Math_floor (js_div diffMs (Fin 60000));
                 diffHours = Math_floor (js_div diffMs (Fin 3600000))
             in if js_lt diffMins (Fin 1) then ''Just now''
                else if js_lt diffMins (Fin 60) then Number_toString e diffMins @ '' min ago''
                else if js_lt diffHours (Fin 24)
                then Number_toString e diffHours @ '' hour''
                     @ (if js_gt diffHours (Fin 1) then ''s'' else []) @ '' ago''
                else (case date of
                        None \<Rightarrow> ''Invalid Date Invalid Date''
                      | Some t \<Rightarrow> toLocaleDateString e t @ '' ''
                                  @ toLocaleTimeString e [''hour'', ''minute''] t)))"

subsection \<open>The shares of the risk levels\<close>

record risk_counts =
  low :: "jsnum option"
  medium :: "jsnum option"
  high :: "jsnum option"

text \<open>
  The text of one percentage label:
  \<open>total > 0 ? Math.round((count / total) * 100) + '%' : '0%'\<close>.
\<close>

definition percent_text :: "env \<Rightarrow> jsnum \<Rightarrow> jsnum \<Rightarrow> string" where
  "percent_text e count risk_sum =
     (if js_gt risk_sum (Fin 0)
      then Number_toString e (Math_round (js_mul (js_div count risk_sum) (Fin 100))) @ ''%''
      else ''0%'')"

text \<open>
  The three labels that \<open>updateRiskDistributionChart(riskData)\<close> writes, for the low,
  the medium and the high share, from \<open>low = riskData.low || 0\<close> and so on and
  \<open>total = low + medium + high\<close> (here \<open>risk_sum\<close>).
\<close>

definition risk_total :: "risk_counts \<Rightarrow> jsnum" where
  "risk_total riskData =
     js_add (js_add (or_default (low riskData) (Fin 0)) (or_default (medium riskData) (Fin 0)))
       (or_default (high riskData) (Fin 0))"

definition risk_percent_texts :: "env \<Rightarrow> risk_counts \<Rightarrow> string \<times> string \<times> string" where
  "risk_percent_texts e riskData =
     (let low = or_default (low riskData) (Fin 0);
          medium = or_default (medium riskData) (Fin 0);
          high = or_default (high riskData) (Fin 0);
          risk_sum = js_add (js_add low medium) high
      in (percent_text e low risk_sum, percent_text e medium risk_sum,
          percent_text e high risk_sum))"

subsection \<open>The snapshot of the analytics service\<close>

text \<open>
  The parsed body of the dashboard endpoint: an object with the sections of the
  interface, each of which may be absent, with fields of their documented types, each
  of which may be absent too. The fields of the snapshot that the script never reads
  are left out.
\<close>

record stats_overview =
  total_predictions :: "jsnum option"
  recent_predictions :: "jsnum option"
  model_accuracy :: "jsnum option"
  avg_response_time :: "jsnum option"

record hourly_trend_data =
  trend_labels :: "string list option"
  trend_data :: "jsnum list option"

record performance =
  precision :: "jsnum option"
  recall :: "jsnum option"
  f1_score :: "jsnum option"
  auc_score :: "jsnum option"

record feature_groups =
  age_groups :: "(string \<times> jsnum) list option"

record prediction_inputs =
  Glucose :: "jsnum option"
  glucose :: "jsnum option"
  Age :: "jsnum option"
  age :: "jsnum option"

record prediction_event =
  event_timestamp :: "string option"
  event_prediction :: "prediction_inputs option"
  event_risk_level :: "string option"

record snapshot =
  snapshot_error :: "string option"
  overview :: "stats_overview option"
  risk_distribution :: "risk_counts option"
  hourly_trend :: "hourly_trend_data option"
  performance_metrics :: "performance option"
  feature_distribution :: "feature_groups option"
  predictions_timeline :: "prediction_event list option"

subsection \<open>The state of the dashboard\<close>

text \<open>
  A chart instance of the charting library: the canvas it draws on, its type, the labels
  and the data of its one dataset, and how often \<open>update()\<close> was called on it. The
  colours and options of the configuration are constants of the script and are left out.
\<close>

record chart =
  chart_canvas :: string
  chart_type :: string
  chart_labels :: "string list"
  chart_data :: "jsnum list"
  chart_updates :: nat

record feed_item =
  item_number :: nat
  item_time :: string
  item_glucose :: string
  item_age :: string
  item_risk_class :: string
  item_risk_text :: string

datatype feed_content = Feed_untouched | Feed_empty | Feed_items "feed_item list"

text \<open>
  The dashboard: the registry object \<open>charts\<close>, its properties in the order they were
  added, each a chart name with its chart instance, an instance being its position in
  \<open>chart_instances\<close>, the list of all instances constructed (none is ever
  destroyed); the last snapshot; the text of the elements written to; the
  feed; the notification element in the document; the pending timers; the busy state of
  the refresh button; the console; the next fresh element identity; and how many values
  of \<open>Math.random\<close> have been used.
\<close>

record dashboard =
  charts :: "(string \<times> nat) list"
  chart_instances :: "chart list"
  dashboardData :: "snapshot option"
  texts :: "string \<rightharpoonup> string"
  feed :: feed_content
  dash_notification :: "toast option"
  dash_timers :: "timer list"
  dash_loading :: bool
  dash_console :: "string list"
  dash_next_id :: nat
  random_calls :: nat

definition initial_dashboard :: dashboard where
  "initial_dashboard =
     \<lparr>charts = [], chart_instances = [], dashboardData = None, texts = Map.empty,
      feed = Feed_untouched, dash_notification = None, dash_timers = [],
      dash_loading = False, dash_console = [], dash_next_id = 0, random_calls = 0\<rparr>"

definition set_text :: "string \<Rightarrow> string \<Rightarrow> dashboard \<Rightarrow> dashboard" where
  "set_text elem v d = d\<lparr>texts := (texts d)(elem \<mapsto> v)\<rparr>"

text \<open>
  \<open>document.getElementById(elem).textContent = v\<close> without a test for the element: a
  \<open>TypeError\<close> when it does not exist.
\<close>

definition set_text_unguarded ::
  "env \<Rightarrow> string \<Rightarrow> string \<Rightarrow> dashboard \<Rightarrow> exn option \<times> dashboard" where
  "set_text_unguarded e elem v d =
     (if elem \<in> dom e then (None, set_text elem v d) else (Some TypeError, d))"

subsection \<open>Notifications, busy state and counters of the dashboard\<close>

text \<open>
  \<open>showNotification(message, type)\<close> of the dashboard: the notification element in the
  document is reused, and created hidden when there is none; its text and colour are
  replaced; one timer shows it after 10 ms and one hides it after 3 s (and removes it
  300 ms later). No timer is cleared.
\<close>

definition dash_showNotification :: "string \<Rightarrow> string \<Rightarrow> dashboard \<Rightarrow> dashboard" where
  "dash_showNotification msg type d =
     (let d = d\<lparr>dash_console := dash_console d @ [type @ '': '' @ msg]\<rparr>;
          d = (case dash_notification d of
                 None \<Rightarrow> d\<lparr>dash_next_id := dash_next_id d + 1,
                           dash_notification :=
                             Some \<lparr>toast_id = dash_next_id d, toast_message = [],
                                   toast_type = [], toast_shown = False\<rparr>\<rparr>
               | Some existing \<Rightarrow> d)
      in (case dash_notification d of
            None \<Rightarrow> d
          | Some n \<Rightarrow>
              d\<lparr>dash_notification := Some (n\<lparr>toast_message := msg, toast_type := type\<rparr>),
                dash_timers :=
                  setTimeout (Toast_element (toast_id n)) Toast_hide_then_remove 3000
                    (setTimeout (Toast_element (toast_id n)) Toast_show 10 (dash_timers d))\<rparr>))"

definition dash_showLoading :: "env \<Rightarrow> bool \<Rightarrow> dashboard \<Rightarrow> dashboard" where
  "dash_showLoading e busy d = (if ''refreshFeed'' \<in> dom e then d\<lparr>dash_loading := busy\<rparr> else d)"

text \<open>
  \<open>animateCounter(element, target)\<close> of the dashboard starts an interval of 50 ms that
  steps the text of the element towards \<open>target\<close>. It clears no timer. The callback,
  which is recorded and not run, clears its own interval only when a step that is not
  zero takes the count to the target or past it.
\<close>

definition dash_animateCounter :: "string \<Rightarrow> jsnum \<Rightarrow> dashboard \<Rightarrow> dashboard" where
  "dash_animateCounter elem target d =
     d\<lparr>dash_timers := setInterval (Element elem) (Counter_step target) 50 (dash_timers d)\<rparr>"

text \<open>
  \<open>animateCounter(element, target)\<close> of the prediction page: an interval of 20 ms that
  counts up to \<open>target\<close> in a hundred steps. It clears no timer either.
\<close>

definition animateCounter :: "string \<Rightarrow> jsnum \<Rightarrow> page \<Rightarrow> page" where
  "animateCounter elem target p =
     p\<lparr>timers := setInterval (Element elem) (Counter_step target) 20 (timers p)\<rparr>"

subsection \<open>The charts\<close>

text \<open>
  The pattern shared by the five chart functions:
  \<open>if (charts.name) { replace the data (and the labels); charts.name.update() }
  else { charts.name = new Chart(ctx, config) }\<close>.
  The instance of a registered name is changed in place; a new instance is constructed
  only for a name that is not registered, and is registered at once.
\<close>

definition update_or_create :: "string \<Rightarrow> bool \<Rightarrow> chart \<Rightarrow> dashboard \<Rightarrow> dashboard" where
  "update_or_create name with_labels config d =
     (case map_of (charts d) name of
        Some i \<Rightarrow>
          d\<lparr>chart_instances :=
              (chart_instances d)
                [i := (chart_instances d ! i)
                        \<lparr>chart_labels := (if with_labels then chart_labels config
                                           else chart_labels (chart_instances d ! i)),
                         chart_data := chart_data config,
                         chart_updates := chart_updates (chart_instances d ! i) + 1\<rparr>]\<rparr>
      | None \<Rightarrow>
          d\<lparr>chart_instances := chart_instances d @ [config],
            charts := charts d @ [(name, length (chart_instances d))]\<rparr>)"

definition updateRiskDistributionChart ::
  "env \<Rightarrow> risk_counts option \<Rightarrow> dashboard \<Rightarrow> exn option \<times> dashboard" where
  "updateRiskDistributionChart e riskData d =
     (if ''riskDistributionChart'' \<notin> dom e then (None, d)
      else
        (case riskData of
           None \<Rightarrow> (Some TypeError, d)
         | Some counts \<Rightarrow>
             and_then (set_text_unguarded e ''lowRiskPercent''
                         (fst (risk_percent_texts e counts)) d)
               (\<lambda>d. and_then (set_text_unguarded e ''mediumRiskPercent''
                                 (fst (snd (risk_percent_texts e counts))) d)
               (\<lambda>d. and_then (set_text_unguarded e ''highRiskPercent''
                                 (snd (snd (risk_percent_texts e counts))) d)
               (\<lambda>d. (None,
                      update_or_create ''riskDistribution'' False
                        \<lparr>chart_canvas = ''riskDistributionChart'', chart_type = ''doughnut'',
                         chart_labels = [''Low Risk'', ''Medium Risk'', ''High Risk''],
                         chart_data = [or_default (low counts) (Fin 0),
                                       or_default (medium counts) (Fin 0),
                                       or_default (high counts) (Fin 0)],
                         chart_updates = 0\<rparr> d))))))"

definition updateFeatureImportanceChart :: "env \<Rightarrow> dashboard \<Rightarrow> exn option \<times> dashboard" where
  "updateFeatureImportanceChart e d =
     (if ''featureImportanceChart'' \<notin> dom e then (None, d)
      else (None,
            update_or_create ''featureImportance'' False
              \<lparr>chart_canvas = ''featureImportanceChart'', chart_type = ''bar'',
               chart_labels = [''Glucose'', ''BMI'', ''Age'', ''Diabetes Pedigree'',
                               ''Blood Pressure'', ''Pregnancies'', ''Insulin'',
                               ''Skin Thickness''],
               chart_data = [Fin 95, Fin 87, Fin 78, Fin 65, Fin 58, Fin 45, Fin 32, Fin 25],
               chart_updates = 0\<rparr> d))"

text \<open>
  The defaults of the hourly chart: the labels \<open>"0:00"\<close> to \<open>"23:00"\<close>, and 24 values
  \<open>Math.floor(Math.random() * 10)\<close>.
\<close>

definition default_hours :: "string list" where
  "default_hours = map (\<lambda>i. digits i @ '':00'') [0..<24]"

definition random_hourly :: "env \<Rightarrow> nat \<Rightarrow> jsnum list" where
  "random_hourly e k =
     map (\<lambda>i. Math_floor (js_mul (Fin (random_stream e (k + i))) (Fin 10))) [0..<24]"

definition updateHourlyTrendChart ::
  "env \<Rightarrow> hourly_trend_data option \<Rightarrow> dashboard \<Rightarrow> exn option \<times> dashboard" where
  "updateHourlyTrendChart e trendData d =
     (if ''hourlyTrendChart'' \<notin> dom e then (None, d)
      else
        (case trendData of
           None \<Rightarrow> (Some TypeError, d)
         | Some trend \<Rightarrow>
             (let hour_labels = (case trend_labels trend of
                                   None \<Rightarrow> default_hours | Some ls \<Rightarrow> ls);
                  counts = (case trend_data trend of
                              None \<Rightarrow> random_hourly e (random_calls d) | Some xs \<Rightarrow> xs);
                  d = (case trend_data trend of
                         None \<Rightarrow> d\<lparr>random_calls := random_calls d + 24\<rparr> | Some xs \<Rightarrow> d)
              in (None,
                  update_or_create ''hourlyTrend'' True
                    \<lparr>chart_canvas = ''hourlyTrendChart'', chart_type = ''line'',
                     chart_labels = hour_labels, chart_data = counts,
                     chart_updates = 0\<rparr> d))))"

text \<open>A metric shown as \<open>x.toFixed(1) + '%'\<close> in an element that is not tested for.\<close>

definition set_metric_text ::
  "env \<Rightarrow> string \<Rightarrow> jsnum option \<Rightarrow> dashboard \<Rightarrow> exn option \<times> dashboard" where
  "set_metric_text e elem metric d =
     (case metric of
        None \<Rightarrow> (Some TypeError, d)
      | Some x \<Rightarrow> set_text_unguarded e elem (toFixed1 e x @ ''%'') d)"

definition updatePerformanceChart ::
  "env \<Rightarrow> performance option \<Rightarrow> dashboard \<Rightarrow> exn option \<times> dashboard" where
  "updatePerformanceChart e metrics d =
     (if ''performanceChart'' \<notin> dom e then (None, d)
      else
        (case metrics of
           None \<Rightarrow> (Some TypeError, d)
         | Some ms \<Rightarrow>
             and_then (set_metric_text e ''precisionValue'' (precision ms) d)
               (\<lambda>d. and_then (set_metric_text e ''recallValue'' (recall ms) d)
               (\<lambda>d. and_then (set_metric_text e ''f1Value'' (f1_score ms) d)
               (\<lambda>d. (None,
                      update_or_create ''performance'' False
                        \<lparr>chart_canvas = ''performanceChart'', chart_type = ''radar'',
                         chart_labels = [''Precision'', ''Recall'', ''F1-Score'', ''AUC Score''],
                         chart_data = [or_default (precision ms) (Fin 92),
                                       or_default (recall ms) (Fin 89),
                                       or_default (f1_score ms) (Fin 90),
                                       or_default (auc_score ms) (Fin 94)],
                         chart_updates = 0\<rparr> d))))))"

definition default_age_groups :: "(string \<times> jsnum) list" where
  "default_age_groups = [(''<30'', Fin 25), (''30-50'', Fin 45), (''>50'', Fin 30)]"

definition updateAgeDistributionChart ::
  "env \<Rightarrow> feature_groups option \<Rightarrow> dashboard \<Rightarrow> exn option \<times> dashboard" where
  "updateAgeDistributionChart e distribution d =
     (if ''ageDistributionChart'' \<notin> dom e then (None, d)
      else
        (case distribution of
           None \<Rightarrow> (Some TypeError, d)
         | Some groups \<Rightarrow>
             (let ageGroups = (case age_groups groups of
                                 None \<Rightarrow> default_age_groups | Some gs \<Rightarrow> gs)
              in (None,
                  update_or_create ''ageDistribution'' True
                    \<lparr>chart_canvas = ''ageDistributionChart'', chart_type = ''bar'',
                     chart_labels = map fst ageGroups, chart_data = map snd ageGroups,
                     chart_updates = 0\<rparr> d))))"

definition updateCharts :: "env \<Rightarrow> snapshot \<Rightarrow> dashboard \<Rightarrow> exn option \<times> dashboard" where
  "updateCharts e snap d =
     and_then (updateRiskDistributionChart e (risk_distribution snap) d)
       (\<lambda>d. and_then (updateFeatureImportanceChart e d)
       (\<lambda>d. and_then (updateHourlyTrendChart e (hourly_trend snap) d)
       (\<lambda>d. and_then (updatePerformanceChart e (performance_metrics snap) d)
       (\<lambda>d. updateAgeDistributionChart e (feature_distribution snap) d))))"

subsection \<open>The statistics, the feed and one refresh\<close>

text \<open>
  \<open>updateStats(overview)\<close>. Each element is tested for; inside the test, reading a field
  of an absent overview and calling \<open>toLocaleString\<close> or \<open>toFixed\<close> on an absent number
  throw. The high-risk count is read from the global \<open>dashboardData\<close>.
\<close>

definition updateStats ::
  "env \<Rightarrow> stats_overview option \<Rightarrow> dashboard \<Rightarrow> exn option \<times> dashboard" where
  "updateStats e ov d =
     and_then
       (if ''totalPredictions'' \<in> dom e then
          (case ov of
             None \<Rightarrow> (Some TypeError, d)
           | Some v \<Rightarrow>
               (case total_predictions v of
                  None \<Rightarrow> (Some TypeError, d)
                | Some n \<Rightarrow>
                    (None, dash_animateCounter ''totalPredictions'' n
                             (set_text ''totalPredictions'' (toLocaleString e n) d))))
        else (None, d))
       (\<lambda>d. and_then
          (if ''accuracyRate'' \<in> dom e then
             (case ov of
                None \<Rightarrow> (Some TypeError, d)
              | Some v \<Rightarrow>
                  (case model_accuracy v of
                     None \<Rightarrow> (Some TypeError, d)
                   | Some a \<Rightarrow> (None, set_text ''accuracyRate'' (toFixed1 e a @ ''%'') d)))
           else (None, d))
       (\<lambda>d. and_then
          (if ''avgResponse'' \<in> dom e then
             (case ov of
                None \<Rightarrow> (Some TypeError, d)
              | Some v \<Rightarrow>
                  (None, set_text ''avgResponse''
                           ((case avg_response_time v of
                               None \<Rightarrow> ''undefined'' | Some x \<Rightarrow> Number_toString e x)
                            @ ''s'') d))
           else (None, d))
       (\<lambda>d. if ''highRiskCount'' \<in> dom e then
               (case dashboardData d of
                  None \<Rightarrow> (None, d)
                | Some snap \<Rightarrow>
                    (case risk_distribution snap of
                       None \<Rightarrow> (Some TypeError, d)
                     | Some counts \<Rightarrow>
                         (None, set_text ''highRiskCount''
                                  (toLocaleString e (or_default (high counts) (Fin 0))) d)))
             else (None, d))))"

text \<open>
  One item of the feed. \<open>a || b || 'N/A'\<close> takes the first number that is truthy;
  \<open>prediction.risk_level || 'unknown'\<close> takes the level when it is not empty.
\<close>

definition first_truthy :: "env \<Rightarrow> jsnum option \<Rightarrow> jsnum option \<Rightarrow> string" where
  "first_truthy e a b =
     (case a of
        Some v \<Rightarrow> if v \<noteq> NaN \<and> v \<noteq> Fin 0 then Number_toString e v
                  else (case b of
                          Some w \<Rightarrow> if w \<noteq> NaN \<and> w \<noteq> Fin 0 then Number_toString e w
                                    else ''N/A''
                        | None \<Rightarrow> ''N/A'')
      | None \<Rightarrow> (case b of
                   Some w \<Rightarrow> if w \<noteq> NaN \<and> w \<noteq> Fin 0 then Number_toString e w else ''N/A''
                 | None \<Rightarrow> ''N/A''))"

definition feed_item_of :: "env \<Rightarrow> int \<Rightarrow> nat \<Rightarrow> nat \<Rightarrow> prediction_event \<Rightarrow> feed_item" where
  "feed_item_of e now n index ev =
     (let predictionData = (case event_prediction ev of
                              None \<Rightarrow> \<lparr>Glucose = None, glucose = None, Age = None, age = None\<rparr>
                            | Some inputs \<Rightarrow> inputs);
          riskLevel = (if truthy (event_risk_level ev)
                       then template_string (event_risk_level ev) else ''unknown'')
      in \<lparr>item_number = n - index,
          item_time = formatTime e now (event_timestamp ev),
          item_glucose = first_truthy e (Glucose predictionData) (glucose predictionData),
          item_age = first_truthy e (Age predictionData) (age predictionData),
          item_risk_class = riskLevel,
          item_risk_text = toUpperCase e riskLevel\<rparr>)"

text \<open>
  \<open>updatePredictionFeed(predictions)\<close>. It is an async function called without
  \<open>await\<close>, so nothing it throws reaches the caller. Without a timeline it asks the
  service for the recent predictions; \<open>recent\<close> is how that request ends, and the model
  takes it to end before anything else happens on the page. Each item gets a timer that
  shows it after \<open>index * 100\<close> ms.
\<close>

definition recent_predictions_of ::
  "prediction_event list option fetch_outcome \<Rightarrow> prediction_event list" where
  "recent_predictions_of recent =
     (case recent of
        Json_body (Some ps) \<Rightarrow> ps
      | _ \<Rightarrow> [])"

definition updatePredictionFeed ::
  "env \<Rightarrow> int \<Rightarrow> prediction_event list option fetch_outcome \<Rightarrow> prediction_event list option
     \<Rightarrow> dashboard \<Rightarrow> dashboard" where
  "updatePredictionFeed e now recent predictions d =
     (if ''predictionFeed'' \<notin> dom e then d
      else
        (let ps = (case predictions of None \<Rightarrow> recent_predictions_of recent | Some ps \<Rightarrow> ps)
         in if length ps = 0 then d\<lparr>feed := Feed_empty\<rparr>
            else d\<lparr>feed := Feed_items (map (\<lambda>(index, ev). feed_item_of e now (length ps) index ev)
                                         (enumerate 0 ps)),
                   dash_timers := dash_timers d
                     @ map (\<lambda>index. \<lparr>timer_target = Feed_item index,
                                      timer_callback = Feed_item_show,
                                      timer_delay = index * 100, timer_repeats = False\<rparr>)
                         [0..<length ps]\<rparr>))"

definition updateDashboard ::
  "env \<Rightarrow> int \<Rightarrow> prediction_event list option fetch_outcome \<Rightarrow> snapshot \<Rightarrow> dashboard
     \<Rightarrow> exn option \<times> dashboard" where
  "updateDashboard e now recent snap d =
     and_then (updateStats e (overview snap) d)
       (\<lambda>d. and_then (updateCharts e snap d)
       (\<lambda>d. (None, updatePredictionFeed e now recent (predictions_timeline snap) d)))"

definition updateLastUpdateTime :: "env \<Rightarrow> int \<Rightarrow> dashboard \<Rightarrow> dashboard" where
  "updateLastUpdateTime e now d =
     (if ''lastUpdate'' \<in> dom e
      then set_text ''lastUpdate'' (toLocaleTimeString e [''hour'', ''minute'', ''second''] now) d
      else d)"

text \<open>
  The snapshot that \<open>loadSampleData\<close> builds, with \<open>now\<close> the value of \<open>Date.now()\<close> and
  \<open>k\<close> the number of random values used before: five events, one per hour back from
  now, each with a random glucose, age and risk level.
\<close>

definition sample_event :: "env \<Rightarrow> int \<Rightarrow> nat \<Rightarrow> nat \<Rightarrow> prediction_event" where
  "sample_event e now k i =
     \<lparr>event_timestamp = Some (toISOString e (now - int i * 3600000)),
      event_prediction =
        Some \<lparr>Glucose = Some (js_add (Fin 120) (js_mul (Fin (random_stream e (k + 3 * i)))
                                                   (Fin 60))),
              glucose = None,
              Age = Some (js_add (Fin 30) (js_mul (Fin (random_stream e (k + 3 * i + 1)))
                                              (Fin 40))),
              age = None\<rparr>,
      event_risk_level =
        (case Math_floor (js_mul (Fin (random_stream e (k + 3 * i + 2))) (Fin 3)) of
           Fin q \<Rightarrow> if q = 0 then Some ''low'' else if q = 1 then Some ''medium''
                    else if q = 2 then Some ''high'' else None
         | _ \<Rightarrow> None)\<rparr>"

definition sampleData :: "env \<Rightarrow> int \<Rightarrow> nat \<Rightarrow> snapshot" where
  "sampleData e now k =
     \<lparr>snapshot_error = None,
      overview = Some \<lparr>total_predictions = Some (Fin 1247), recent_predictions = Some (Fin 42),
                       model_accuracy = Some (number_value (942 / 10)),
                       avg_response_time = Some (number_value (3 / 10))\<rparr>,
      risk_distribution = Some \<lparr>low = Some (Fin 560), medium = Some (Fin 437),
                                high = Some (Fin 250)\<rparr>,
      hourly_trend =
        Some \<lparr>trend_labels =
                Some [''00:00'', ''01:00'', ''02:00'', ''03:00'', ''04:00'', ''05:00'', ''06:00'',
                      ''07:00'', ''08:00'', ''09:00'', ''10:00'', ''11:00'', ''12:00'', ''13:00'',
                      ''14:00'', ''15:00'', ''16:00'', ''17:00'', ''18:00'', ''19:00'', ''20:00'',
                      ''21:00'', ''22:00'', ''23:00''],
              trend_data =
                Some [Fin 2, Fin 1, Fin 0, Fin 0, Fin 1, Fin 2, Fin 5, Fin 8, Fin 12, Fin 15,
                      Fin 18, Fin 20, Fin 22, Fin 21, Fin 19, Fin 17, Fin 15, Fin 13, Fin 10,
                      Fin 8, Fin 6, Fin 4, Fin 3, Fin 2]\<rparr>,
      performance_metrics = Some \<lparr>precision = Some (Fin 92), recall = Some (Fin 89),
                                  f1_score = Some (Fin 90), auc_score = Some (Fin 94)\<rparr>,
      feature_distribution =
        Some \<lparr>age_groups = Some [(''<30'', Fin 25), (''30-50'', Fin 45), (''>50'', Fin 30)]\<rparr>,
      predictions_timeline = Some (map (sample_event e now k) [0..<5])\<rparr>"

definition loadSampleData ::
  "env \<Rightarrow> int \<Rightarrow> prediction_event list option fetch_outcome \<Rightarrow> dashboard
     \<Rightarrow> exn option \<times> dashboard" where
  "loadSampleData e now recent d =
     (let d = d\<lparr>dash_console := dash_console d @ [''Loading sample data for development'']\<rparr>;
          snap = sampleData e now (random_calls d);
          d = d\<lparr>random_calls := random_calls d + 15\<rparr>;
          d = d\<lparr>dashboardData := Some snap\<rparr>
      in and_then (updateDashboard e now recent snap d)
           (\<lambda>d. (None, updateLastUpdateTime e now d)))"

text \<open>
  \<open>try { body } catch (error) { handler } finally { cleanup }\<close> with a handler that may
  throw itself: the cleanup runs in every case, and what the handler throws is what the
  statement throws.
\<close>

definition try_catch_finally_rethrow ::
  "('s \<Rightarrow> exn option \<times> 's) \<Rightarrow> (exn \<Rightarrow> 's \<Rightarrow> exn option \<times> 's) \<Rightarrow> ('s \<Rightarrow> 's) \<Rightarrow> 's
     \<Rightarrow> exn option \<times> 's" where
  "try_catch_finally_rethrow body handler cleanup s =
     (case body s of
        (None, s') \<Rightarrow> (None, cleanup s')
      | (Some ex, s') \<Rightarrow> (case handler ex s' of (r, s'') \<Rightarrow> (r, cleanup s'')))"

text \<open>
  \<open>loadDashboardData()\<close>, given how the request for the snapshot ends. A body with a
  truthy \<open>error\<close> field is thrown as an \<open>Error\<close>; reading \<open>data.error\<close> of a \<open>null\<close>
  body throws.
\<close>

definition load_body ::
  "env \<Rightarrow> int \<Rightarrow> snapshot fetch_outcome \<Rightarrow> prediction_event list option fetch_outcome
     \<Rightarrow> dashboard \<Rightarrow> exn option \<times> dashboard" where
  "load_body e now response recent d =
     (let d = dash_showLoading e True d
      in (case response of
            Fetch_rejected \<Rightarrow> (Some NetworkError, d)
          | Json_rejected \<Rightarrow> (Some SyntaxError, d)
          | Json_null \<Rightarrow> (Some TypeError, d)
          | Json_body snap \<Rightarrow>
              if truthy (snapshot_error snap)
              then (Some (Error (template_string (snapshot_error snap))), d)
              else
                and_then (updateDashboard e now recent snap (d\<lparr>dashboardData := Some snap\<rparr>))
                  (\<lambda>d. (None, dash_showNotification ''Dashboard updated successfully'' ''success''
                                 (updateLastUpdateTime e now d)))))"

definition load_catch ::
  "env \<Rightarrow> int \<Rightarrow> prediction_event list option fetch_outcome \<Rightarrow> exn \<Rightarrow> dashboard
     \<Rightarrow> exn option \<times> dashboard" where
  "load_catch e now recent ex d =
     loadSampleData e now recent
       (dash_showNotification ''Failed to load dashboard data'' ''error''
          (d\<lparr>dash_console := dash_console d @ [''Error loading dashboard data:'']\<rparr>))"

definition loadDashboardData ::
  "env \<Rightarrow> int \<Rightarrow> snapshot fetch_outcome \<Rightarrow> prediction_event list option fetch_outcome
     \<Rightarrow> dashboard \<Rightarrow> exn option \<times> dashboard" where
  "loadDashboardData e now response recent d =
     try_catch_finally_rethrow (load_body e now response recent) (load_catch e now recent)
       (dash_showLoading e False) d"

text \<open>
  A sequence of refresh cycles, each with its time, the end of its request and the end
  of the feed's request. What a cycle throws is an unhandled rejection and changes
  nothing further.
\<close>

type_synonym cycle = "int \<times> snapshot fetch_outcome \<times> prediction_event list option fetch_outcome"

fun refreshes :: "env \<Rightarrow> cycle list \<Rightarrow> dashboard \<Rightarrow> dashboard" where
  "refreshes e [] d = d"
| "refreshes e ((now, response, recent) # cycles) d =
     refreshes e cycles (snd (loadDashboardData e now response recent d))"

subsection \<open>The registry of charts\<close>

text \<open>
  The page has the five canvases and the labels that the chart functions write without
  testing for them.
\<close>

definition chart_page :: "env \<Rightarrow> bool" where
  "chart_page e =
     ({''riskDistributionChart'', ''lowRiskPercent'', ''mediumRiskPercent'', ''highRiskPercent'',
       ''featureImportanceChart'', ''hourlyTrendChart'', ''performanceChart'',
       ''precisionValue'', ''recallValue'', ''f1Value'', ''ageDistributionChart''} \<subseteq> dom e)"

text \<open>
  The registry with all five charts, in the order in which \<open>updateCharts\<close> creates
  them, and their canvases. \<open>registered_upto k d\<close>: the first \<open>k\<close> charts are
  registered, each with one instance of its own on its canvas, and there is no other
  instance.
\<close>

definition full_registry :: "(string \<times> nat) list" where
  "full_registry =
     [(''riskDistribution'', 0), (''featureImportance'', 1), (''hourlyTrend'', 2),
      (''performance'', 3), (''ageDistribution'', 4)]"

definition five_canvases :: "string list" where
  "five_canvases =
     [''riskDistributionChart'', ''featureImportanceChart'', ''hourlyTrendChart'',
      ''performanceChart'', ''ageDistributionChart'']"

definition registered_upto :: "nat \<Rightarrow> dashboard \<Rightarrow> bool" where
  "registered_upto k d =
     (k \<le> 5 \<and> charts d = take k full_registry
      \<and> map chart_canvas (chart_instances d) = take k five_canvases)"

text \<open>
  What a step of a refresh has done to the registry when it started with the first \<open>k\<close>
  charts registered: at least these are still registered, and at least the first \<open>j\<close>
  if the step returned without throwing.
\<close>

definition charts_progress :: "nat \<Rightarrow> nat \<Rightarrow> exn option \<times> dashboard \<Rightarrow> bool" where
  "charts_progress k j out =
     (\<exists>k'. registered_upto k' (snd out) \<and> k \<le> k' \<and> (fst out = None \<longrightarrow> j \<le> k'))"

text \<open>The pending timers that will hide the notification element \<open>n\<close>.\<close>

definition dismiss_timers :: "nat \<Rightarrow> timer list \<Rightarrow> timer list" where
  "dismiss_timers n ts =
     filter (\<lambda>t. timer_target t = Toast_element n \<and> timer_callback t = Toast_hide_then_remove) ts"

text \<open>The pending interval timers of the counter animations of an element.\<close>

definition counter_timers :: "string \<Rightarrow> timer list \<Rightarrow> timer list" where
  "counter_timers elem ts =
     filter (\<lambda>t. timer_target t = Element elem \<and> timer_repeats t) ts"

text \<open>
  Every pending timer of a notification targets an element that exists already: its
  identity is below the next fresh one.
\<close>

definition toast_timers_known :: "page \<Rightarrow> bool" where
  "toast_timers_known p =
     (\<forall>t \<in> set (timers p). \<forall>n. timer_target t = Toast_element n \<longrightarrow> n < next_id p)"

text \<open>The dashboard page with every element the script looks up.\<close>

definition dashboard_env :: env where
  "dashboard_env =
     form_page_env
       \<lparr>dom := {''riskDistributionChart'', ''lowRiskPercent'', ''mediumRiskPercent'',
                ''highRiskPercent'', ''featureImportanceChart'', ''hourlyTrendChart'',
                ''performanceChart'', ''precisionValue'', ''recallValue'', ''f1Value'',
                ''ageDistributionChart'', ''predictionFeed'', ''totalPredictions'',
                ''accuracyRate'', ''avgResponse'', ''highRiskCount'', ''refreshFeed'',
                ''lastUpdate''}\<rparr>"

text \<open>
  Every chart name is registered at most once, and the chart instances constructed so
  far are exactly the registered ones, each under one name.
\<close>

definition one_instance_per_name :: "dashboard \<Rightarrow> bool" where
  "one_instance_per_name d =
     (distinct (map fst (charts d))
      \<and> map snd (charts d) = [0..<length (chart_instances d)])"

text \<open>
  The request of a refresh fails: the transport fails, the body cannot be parsed, the
  body is \<open>null\<close>, or the body carries an \<open>error\<close> field that is truthy.
\<close>

definition fetch_failed :: "snapshot fetch_outcome \<Rightarrow> bool" where
  "fetch_failed response =
     (case response of Json_body snap \<Rightarrow> truthy (snapshot_error snap) | _ \<Rightarrow> True)"

text \<open>
  What has happened to the five charts of a fully registered dashboard \<open>d\<close> when the
  dashboard is \<open>d'\<close>: all five are still registered, no instance has changed its type,
  no instance has fewer calls of \<open>update()\<close> than before, and each of the first \<open>j\<close>
  instances has more.
\<close>

definition charts_updated :: "nat \<Rightarrow> dashboard \<Rightarrow> dashboard \<Rightarrow> bool" where
  "charts_updated j d d' =
     (registered_upto 5 d'
      \<and> (\<forall>i<5. chart_type (chart_instances d' ! i) = chart_type (chart_instances d ! i)
             \<and> chart_updates (chart_instances d ! i) \<le> chart_updates (chart_instances d' ! i))
      \<and> (\<forall>i<j. chart_updates (chart_instances d ! i) < chart_updates (chart_instances d' ! i)))"

text \<open>
  What a step of a refresh has done to the charts of \<open>d\<close> when it started with the first
  \<open>k\<close> charts updated: at least these are updated, and at least the first \<open>j\<close> if the
  step returned without throwing.
\<close>

definition updates_progress ::
  "dashboard \<Rightarrow> nat \<Rightarrow> nat \<Rightarrow> exn option \<times> dashboard \<Rightarrow> bool" where
  "updates_progress d k j out =
     (\<exists>k'. charts_updated k' d (snd out) \<and> k \<le> k' \<and> (fst out = None \<longrightarrow> j \<le> k'))"

section \<open>Properties\<close>

subsection \<open>Numbers and parsing\<close>


lemma number_value_pos_small:
  assumes "0 < x" "fl_pos x < 2 ^ 64"
  shows "number_value x = Fin (fl_pos x)"
proof -
  have "(2::rat) ^ 64 \<le> 2 ^ 1024" by (rule power_increasing) simp_all
  then have "\<not> 2 powi 1024 \<le> fl_pos x" using assms(2) by simp
  then show ?thesis using assms(1) by (simp add: number_value_def)
qed

lemma number_value_not_NaN: "number_value x \<noteq> NaN"
  by (simp add: number_value_def)

lemmas parse_defs = parseFloat_def trimStart_def isWhiteSpace_def unsigned_literal_def
  isDigit_def digits_value_def digit_value_def exponent_part_def

lemma fl_pos_350: "fl_pos 350 = 350" by code_simp

lemma parseFloat_350: "parseFloat ''350'' = Fin 350"
  by (simp add: parse_defs number_value_pos_small fl_pos_350)

subsection \<open>Form validation\<close>

lemma forEach_push:
  "forEach (\<lambda>x acc. if P x then push (g x) acc else acc) xs acc = acc @ map g (filter P xs)"
  by (induction xs arbitrary: acc) (simp_all add: push_def)

lemma validateFormData_errors_eq:
  "validateFormData_errors data =
     map (\<lambda>field. field @ '' is required'') (filter (required_missing data) requiredFields)
     @ map (\<lambda>key. key @ '' must be a number'')
         (filter (\<lambda>key. isNaN (parseFloat_prop (get_prop data key))) (Object_keys data))
     @ (if range_error data ''Glucose'' 0 300 then [''Glucose must be between 0 and 300 mg/dL''] else [])
     @ (if range_error data ''BMI'' 10 70 then [''BMI must be between 10 and 70''] else [])
     @ (if range_error data ''Age'' 1 120 then [''Age must be between 1 and 120 years''] else [])"
  unfolding validateFormData_errors_def Let_def forEach_push range_error_def
  by (simp add: push_def)


lemma outside_range_iff: "(js_lt x (Fin lo) \<or> js_gt x (Fin hi)) = outside_range lo hi x"
  by (cases x) (simp_all add: outside_range_def js_gt_def)

lemma parseFloat_Nil: "parseFloat [] = NaN"
  by (simp add: parse_defs)

lemma parseFloat_undefined: "parseFloat ''undefined'' = NaN"
  by (simp add: parse_defs)

lemma range_error_iff:
  "range_error data field lo hi =
     (\<exists>s. get_prop data field = Some s \<and> outside_range lo hi (parseFloat s))"
proof (cases "get_prop data field")
  case None
  then show ?thesis by (simp add: range_error_def truthy_def)
next
  case (Some s)
  show ?thesis
  proof (cases "s = []")
    case True
    with Some show ?thesis
      by (simp add: range_error_def truthy_def parseFloat_Nil outside_range_def)
  next
    case False
    with Some show ?thesis
      by (simp add: range_error_def truthy_def parseFloat_prop_def outside_range_iff)
  qed
qed

lemma required_missing_iff:
  "required_missing data field =
     (get_prop data field = None \<or> (\<exists>s. get_prop data field = Some s \<and> trim s = []))"
  by (cases "get_prop data field") (auto simp: required_missing_def truthy_def trim_def)

lemma suffix_last_neq:
  assumes "s \<noteq> []" "t \<noteq> []" "last s \<noteq> last t"
  shows "a @ s \<noteq> b @ t"
proof
  assume "a @ s = b @ t"
  then have "last (a @ s) = last (b @ t)" by simp
  with assms show False by simp
qed

lemma required_msg_neq_number_msg: "f @ '' is required'' \<noteq> k @ '' must be a number''"
  by (rule suffix_last_neq) simp_all

lemma number_msg_neq_glucose: "k @ '' must be a number'' \<noteq> ''Glucose must be between 0 and 300 mg/dL''"
  using suffix_last_neq [of "'' must be a number''" "''Glucose must be between 0 and 300 mg/dL''" k "[]"]
  by simp

lemma number_msg_neq_bmi: "k @ '' must be a number'' \<noteq> ''BMI must be between 10 and 70''"
  using suffix_last_neq [of "'' must be a number''" "''BMI must be between 10 and 70''" k "[]"]
  by simp

lemma number_msg_neq_age: "k @ '' must be a number'' \<noteq> ''Age must be between 1 and 120 years''"
  using suffix_last_neq [of "'' must be a number''" "''Age must be between 1 and 120 years''" k "[]"]
  by simp

lemma required_error_iff:
  assumes "field \<in> set requiredFields"
  shows "(field @ '' is required'' \<in> set (validateFormData_errors data)) = required_missing data field"
  using assms required_msg_neq_number_msg
  by (auto simp: validateFormData_errors_eq requiredFields_def)

lemma number_error_iff:
  "(key @ '' must be a number'' \<in> set (validateFormData_errors data))
     = (key \<in> set (Object_keys data) \<and> isNaN (parseFloat_prop (get_prop data key)))"
  using required_msg_neq_number_msg [of _ key] number_msg_neq_glucose [of key]
    number_msg_neq_bmi [of key] number_msg_neq_age [of key]
  by (auto simp: validateFormData_errors_eq)

lemma glucose_error_iff:
  "(''Glucose must be between 0 and 300 mg/dL'' \<in> set (validateFormData_errors data))
     = range_error data ''Glucose'' 0 300"
  using number_msg_neq_glucose
  by (auto simp: validateFormData_errors_eq requiredFields_def)

lemma bmi_error_iff:
  "(''BMI must be between 10 and 70'' \<in> set (validateFormData_errors data))
     = range_error data ''BMI'' 10 70"
  using number_msg_neq_bmi
  by (auto simp: validateFormData_errors_eq requiredFields_def)

lemma age_error_iff:
  "(''Age must be between 1 and 120 years'' \<in> set (validateFormData_errors data))
     = range_error data ''Age'' 1 120"
  using number_msg_neq_age
  by (auto simp: validateFormData_errors_eq requiredFields_def)


lemma fl_pos_small_ints:
  "fl_pos 100 = 100" "fl_pos 22 = 22" "fl_pos 30 = 30" "fl_pos 25 = 25" "fl_pos 40 = 40"
  by code_simp+

lemma parseFloat_examples:
  "parseFloat ''100'' = Fin 100" "parseFloat ''22'' = Fin 22" "parseFloat ''30'' = Fin 30"
  "parseFloat ''25'' = Fin 25" "parseFloat ''40'' = Fin 40"
  by (simp_all add: parse_defs number_value_pos_small fl_pos_small_ints)

lemma trim_examples:
  "trim ''100'' \<noteq> []" "trim ''22'' \<noteq> []" "trim ''30'' \<noteq> []"
  by (simp_all add: trim_def isWhiteSpace_def)

lemma join_nonempty:
  assumes "xs \<noteq> []" "\<forall>x \<in> set xs. x \<noteq> []"
  shows "join sep xs \<noteq> []"
proof (cases xs)
  case Nil
  with assms show ?thesis by simp
next
  case (Cons x rest)
  with assms show ?thesis by (cases rest) simp_all
qed

lemma validateFormData_errors_nonempty_strings:
  "\<forall>e \<in> set (validateFormData_errors data). e \<noteq> []"
  by (auto simp: validateFormData_errors_eq)

lemma get_prop_of_key:
  assumes "key \<in> set (Object_keys data)"
  shows "\<exists>s. get_prop data key = Some s"
proof (cases "get_prop data key")
  case None
  with assms show ?thesis
    by (simp add: get_prop_def Object_keys_def map_of_eq_None_iff)
next
  case (Some s)
  then show ?thesis by simp
qed

lemma validateFormData_example_invalid:
  "validateFormData [(''Glucose'', ''350''), (''BMI'', ''25''), (''Age'', ''40'')]
     = \<lparr>valid = False, message = Some ''Glucose must be between 0 and 300 mg/dL''\<rparr>"
  by (simp add: validateFormData_def validateFormData_errors_eq requiredFields_def
      required_missing_iff range_error_iff get_prop_def Object_keys_def parseFloat_prop_def
      isNaN_def parseFloat_examples parseFloat_350 outside_range_def trim_def isWhiteSpace_def)

lemma validateFormData_example_valid:
  assumes g: "get_prop data ''Glucose'' = Some ''100''"
    and b: "get_prop data ''BMI'' = Some ''22''"
    and a: "get_prop data ''Age'' = Some ''30''"
    and n: "\<forall>key s. get_prop data key = Some s \<longrightarrow> parseFloat s \<noteq> NaN"
  shows "validateFormData data = \<lparr>valid = True, message = None\<rparr>"
proof -
  have req: "filter (required_missing data) requiredFields = []"
    using g b a by (simp add: requiredFields_def required_missing_iff trim_examples)
  have num: "filter (\<lambda>key. isNaN (parseFloat_prop (get_prop data key))) (Object_keys data) = []"
  proof -
    have "\<not> isNaN (parseFloat_prop (get_prop data key))" if "key \<in> set (Object_keys data)" for key
    proof -
      from that obtain s where s: "get_prop data key = Some s"
        using get_prop_of_key by blast
      with n have "parseFloat s \<noteq> NaN" by blast
      with s show ?thesis by (simp add: isNaN_def parseFloat_prop_def)
    qed
    then show ?thesis by (simp add: filter_empty_conv)
  qed
  have rng: "\<not> range_error data ''Glucose'' 0 300" "\<not> range_error data ''BMI'' 10 70"
    "\<not> range_error data ''Age'' 1 120"
    using g b a by (simp_all add: range_error_iff parseFloat_examples outside_range_def)
  have "validateFormData_errors data = []"
    by (simp add: validateFormData_errors_eq req num rng)
  then show ?thesis by (simp add: validateFormData_def)
qed

text \<open>
  Claim C1. For every mapping of field names to strings, \<open>validateFormData\<close> returns
  either the valid verdict, exactly when no rule is violated, or the invalid verdict
  with the reasons joined by \<open>", "\<close> into a non-empty message. The reasons are all the
  violated rules in order: one per missing required field, one per field that does not
  parse, one per range violated; nothing stops at the first failure. The function
  reads its argument only and returns the same verdict on the same mapping.
\<close>

theorem validateFormData_total:
  "valid (validateFormData data) = (validateFormData_errors data = [])
   \<and> message (validateFormData data)
       = (if validateFormData_errors data = [] then None
          else Some (join '', '' (validateFormData_errors data)))
   \<and> (validateFormData_errors data \<noteq> [] \<longrightarrow> join '', '' (validateFormData_errors data) \<noteq> [])
   \<and> validateFormData_errors data =
       map (\<lambda>field. field @ '' is required'') (filter (required_missing data) requiredFields)
       @ map (\<lambda>key. key @ '' must be a number'')
           (filter (\<lambda>key. isNaN (parseFloat_prop (get_prop data key))) (Object_keys data))
       @ (if range_error data ''Glucose'' 0 300
          then [''Glucose must be between 0 and 300 mg/dL''] else [])
       @ (if range_error data ''BMI'' 10 70 then [''BMI must be between 10 and 70''] else [])
       @ (if range_error data ''Age'' 1 120
          then [''Age must be between 1 and 120 years''] else [])
   \<and> (\<forall>data'. data' = data \<longrightarrow> validateFormData data' = validateFormData data)"
proof -
  have "validateFormData_errors data \<noteq> [] \<longrightarrow> join '', '' (validateFormData_errors data) \<noteq> []"
    using join_nonempty validateFormData_errors_nonempty_strings by blast
  moreover have "valid (validateFormData data) = (validateFormData_errors data = [])"
    by (simp add: validateFormData_def Let_def)
  moreover have "message (validateFormData data)
       = (if validateFormData_errors data = [] then None
          else Some (join '', '' (validateFormData_errors data)))"
    by (simp add: validateFormData_def Let_def)
  ultimately show ?thesis
    using validateFormData_errors_eq [of data] by simp
qed

lemma parseFloat_blank_abc: "parseFloat '' '' = NaN" "parseFloat ''abc'' = NaN"
  by (simp_all add: parse_defs)

theorem validateFormData_total_witness:
  "\<not> valid (validateFormData [(''Glucose'', ''350''), (''BMI'', '' ''), (''Pregnancies'', ''abc'')])
   \<and> message (validateFormData [(''Glucose'', ''350''), (''BMI'', '' ''), (''Pregnancies'', ''abc'')])
       = Some (''BMI is required, Age is required, BMI must be a number, ''
               @ ''Pregnancies must be a number, Glucose must be between 0 and 300 mg/dL'')"
  using validateFormData_total [of "[(''Glucose'', ''350''), (''BMI'', '' ''), (''Pregnancies'', ''abc'')]"]
  by (simp add: requiredFields_def required_missing_iff range_error_iff get_prop_def
      Object_keys_def parseFloat_prop_def isNaN_def parseFloat_350 parseFloat_blank_abc
      outside_range_def trim_def isWhiteSpace_def)


lemma required_msg_neq_range:
  "f @ '' is required'' \<noteq> ''Glucose must be between 0 and 300 mg/dL''"
  "f @ '' is required'' \<noteq> ''BMI must be between 10 and 70''"
  "f @ '' is required'' \<noteq> ''Age must be between 1 and 120 years''"
  using suffix_last_neq [of "'' is required''" "''Glucose must be between 0 and 300 mg/dL''" f "[]"]
    suffix_last_neq [of "'' is required''" "''BMI must be between 10 and 70''" f "[]"]
    suffix_last_neq [of "'' is required''" "''Age must be between 1 and 120 years''" f "[]"]
  by simp_all

lemma required_error_named:
  "(field @ '' is required'' \<in> set (validateFormData_errors data))
     = (field \<in> {''Glucose'', ''BMI'', ''Age''} \<and> required_missing data field)"
  using required_msg_neq_number_msg [of field] required_msg_neq_range [of field]
  by (auto simp: validateFormData_errors_eq requiredFields_def)

lemma parseFloat_blanks: "parseFloat ''  '' = NaN"
  by (simp add: parse_defs)

lemma validateFormData_example_missing:
  "validateFormData_errors [(''Glucose'', ''  ''), (''BMI'', ''25'')]
     = [''Glucose is required'', ''Age is required'', ''Glucose must be a number'']"
  by (simp add: validateFormData_errors_eq requiredFields_def
      required_missing_iff range_error_iff get_prop_def Object_keys_def parseFloat_prop_def
      isNaN_def parseFloat_examples parseFloat_blanks outside_range_def trim_def
      isWhiteSpace_def)

text \<open>
  Claim C2. The reasons contain the required-field error of a field exactly when the
  field is Glucose, BMI or Age and is absent or blank; the not-a-number error of a
  field exactly when its value parses to \<open>NaN\<close>; and the range error of Glucose, BMI
  or Age exactly when the field's parsed value is outside \<open>[0,300]\<close>, \<open>[10,70]\<close> or
  \<open>[1,120]\<close>. The mapping Glucose "350", BMI "25", Age "40" is invalid with the Glucose
  range reason; the mapping with a blank Glucose, BMI "25" and no Age has the reasons
  that Glucose and Age are required and that Glucose is not a number; and every mapping
  with Glucose "100", BMI "22", Age "30" whose fields all parse is valid.
\<close>

theorem validateFormData_rules:
  "(\<forall>field. (field @ '' is required'' \<in> set (validateFormData_errors data))
        = (field \<in> {''Glucose'', ''BMI'', ''Age''}
           \<and> (get_prop data field = None
               \<or> (\<exists>s. get_prop data field = Some s \<and> trim s = []))))
   \<and> (''Glucose is required'' \<in> set (validateFormData_errors data))
        = (get_prop data ''Glucose'' = None
           \<or> (\<exists>s. get_prop data ''Glucose'' = Some s \<and> trim s = []))
   \<and> (''BMI is required'' \<in> set (validateFormData_errors data))
        = (get_prop data ''BMI'' = None \<or> (\<exists>s. get_prop data ''BMI'' = Some s \<and> trim s = []))
   \<and> (''Age is required'' \<in> set (validateFormData_errors data))
        = (get_prop data ''Age'' = None \<or> (\<exists>s. get_prop data ''Age'' = Some s \<and> trim s = []))
   \<and> (\<forall>key s. get_prop data key = Some s \<longrightarrow>
        (key @ '' must be a number'' \<in> set (validateFormData_errors data))
          = (parseFloat s = NaN))
   \<and> (''Glucose must be between 0 and 300 mg/dL'' \<in> set (validateFormData_errors data))
        = (\<exists>s. get_prop data ''Glucose'' = Some s \<and> outside_range 0 300 (parseFloat s))
   \<and> (''BMI must be between 10 and 70'' \<in> set (validateFormData_errors data))
        = (\<exists>s. get_prop data ''BMI'' = Some s \<and> outside_range 10 70 (parseFloat s))
   \<and> (''Age must be between 1 and 120 years'' \<in> set (validateFormData_errors data))
        = (\<exists>s. get_prop data ''Age'' = Some s \<and> outside_range 1 120 (parseFloat s))
   \<and> validateFormData [(''Glucose'', ''350''), (''BMI'', ''25''), (''Age'', ''40'')]
        = \<lparr>valid = False, message = Some ''Glucose must be between 0 and 300 mg/dL''\<rparr>
   \<and> validateFormData_errors [(''Glucose'', ''  ''), (''BMI'', ''25'')]
        = [''Glucose is required'', ''Age is required'', ''Glucose must be a number'']
   \<and> (get_prop data ''Glucose'' = Some ''100'' \<and> get_prop data ''BMI'' = Some ''22''
        \<and> get_prop data ''Age'' = Some ''30''
        \<and> (\<forall>key s. get_prop data key = Some s \<longrightarrow> parseFloat s \<noteq> NaN)
        \<longrightarrow> validateFormData data = \<lparr>valid = True, message = None\<rparr>)"
proof -
  have req: "(field @ '' is required'' \<in> set (validateFormData_errors data))
        = (field \<in> {''Glucose'', ''BMI'', ''Age''}
           \<and> (get_prop data field = None
               \<or> (\<exists>s. get_prop data field = Some s \<and> trim s = [])))" for field
    unfolding required_error_named required_missing_iff ..
  have named: "(''Glucose is required'' \<in> set (validateFormData_errors data))
        = (get_prop data ''Glucose'' = None
           \<or> (\<exists>s. get_prop data ''Glucose'' = Some s \<and> trim s = []))"
    "(''BMI is required'' \<in> set (validateFormData_errors data))
        = (get_prop data ''BMI'' = None \<or> (\<exists>s. get_prop data ''BMI'' = Some s \<and> trim s = []))"
    "(''Age is required'' \<in> set (validateFormData_errors data))
        = (get_prop data ''Age'' = None \<or> (\<exists>s. get_prop data ''Age'' = Some s \<and> trim s = []))"
    using req [of "''Glucose''"] req [of "''BMI''"] req [of "''Age''"] by simp_all
  have num: "(key @ '' must be a number'' \<in> set (validateFormData_errors data))
          = (parseFloat s = NaN)" if "get_prop data key = Some s" for key s
  proof -
    from that have "key \<in> set (Object_keys data)"
      by (auto simp: get_prop_def Object_keys_def dest: map_of_SomeD intro: rev_image_eqI)
    with that show ?thesis
      by (simp add: number_error_iff isNaN_def parseFloat_prop_def)
  qed
  have ranges: "(''Glucose must be between 0 and 300 mg/dL'' \<in> set (validateFormData_errors data))
        = (\<exists>s. get_prop data ''Glucose'' = Some s \<and> outside_range 0 300 (parseFloat s))"
    "(''BMI must be between 10 and 70'' \<in> set (validateFormData_errors data))
        = (\<exists>s. get_prop data ''BMI'' = Some s \<and> outside_range 10 70 (parseFloat s))"
    "(''Age must be between 1 and 120 years'' \<in> set (validateFormData_errors data))
        = (\<exists>s. get_prop data ''Age'' = Some s \<and> outside_range 1 120 (parseFloat s))"
    by (simp_all add: glucose_error_iff bmi_error_iff age_error_iff range_error_iff)
  show ?thesis
    apply (intro conjI allI impI)
              apply (rule req)
             apply (rule named(1))
            apply (rule named(2))
           apply (rule named(3))
          apply (erule num)
         apply (rule ranges(1))
        apply (rule ranges(2))
       apply (rule ranges(3))
      apply (rule validateFormData_example_invalid)
     apply (rule validateFormData_example_missing)
    apply (elim conjE, rule validateFormData_example_valid, assumption+)
    done
qed

lemma parseFloat_form_values:
  "parseFloat ''1'' \<noteq> NaN" "parseFloat ''70'' \<noteq> NaN" "parseFloat ''20'' \<noteq> NaN"
  "parseFloat ''80'' \<noteq> NaN" "parseFloat ''0.5'' \<noteq> NaN"
  by (simp_all add: parse_defs number_value_not_NaN)

lemma example_form_fields:
  "get_prop example_form ''Glucose'' = Some ''100''"
  "get_prop example_form ''BMI'' = Some ''22''"
  "get_prop example_form ''Age'' = Some ''30''"
  by (simp_all add: get_prop_def example_form_def)

lemma example_form_numeric:
  "\<forall>key s. get_prop example_form key = Some s \<longrightarrow> parseFloat s \<noteq> NaN"
  using parseFloat_form_values parseFloat_examples
  by (auto simp: get_prop_def example_form_def split: if_splits)

lemma example_form_valid: "valid (validateFormData example_form)"
  using validateFormData_example_valid [of example_form] example_form_fields
    example_form_numeric
  by simp

theorem validateFormData_rules_witness:
  "''Glucose is required'' \<in> set (validateFormData_errors [(''Glucose'', ''  ''), (''BMI'', ''25'')])
   \<and> ''Age is required'' \<in> set (validateFormData_errors [(''Glucose'', ''  ''), (''BMI'', ''25'')])
   \<and> ''BMI is required'' \<notin> set (validateFormData_errors [(''Glucose'', ''  ''), (''BMI'', ''25'')])
   \<and> ''Glucose must be a number''
        \<in> set (validateFormData_errors [(''Glucose'', ''  ''), (''BMI'', ''25'')])
   \<and> validateFormData example_form = \<lparr>valid = True, message = None\<rparr>"
proof -
  let ?data = "[(''Glucose'', ''  ''), (''BMI'', ''25'')]"
  have fields: "get_prop ?data ''Glucose'' = Some ''  ''" "get_prop ?data ''BMI'' = Some ''25''"
    "get_prop ?data ''Age'' = None"
    by (simp_all add: get_prop_def)
  have blank: "trim ''  '' = []" "trim ''25'' \<noteq> []"
    by (simp_all add: trim_def isWhiteSpace_def)
  note rules = validateFormData_rules [of ?data]
  from rules have glucose: "(''Glucose is required'' \<in> set (validateFormData_errors ?data))
      = (get_prop ?data ''Glucose'' = None
         \<or> (\<exists>s. get_prop ?data ''Glucose'' = Some s \<and> trim s = []))"
    by (elim conjE) assumption
  from rules have bmi: "(''BMI is required'' \<in> set (validateFormData_errors ?data))
      = (get_prop ?data ''BMI'' = None \<or> (\<exists>s. get_prop ?data ''BMI'' = Some s \<and> trim s = []))"
    by (elim conjE) assumption
  from rules have age: "(''Age is required'' \<in> set (validateFormData_errors ?data))
      = (get_prop ?data ''Age'' = None \<or> (\<exists>s. get_prop ?data ''Age'' = Some s \<and> trim s = []))"
    by (elim conjE) assumption
  from rules have number: "\<forall>key s. get_prop ?data key = Some s \<longrightarrow>
      (key @ '' must be a number'' \<in> set (validateFormData_errors ?data))
        = (parseFloat s = NaN)"
    by (elim conjE) assumption
  from validateFormData_rules [of example_form]
  have example: "get_prop example_form ''Glucose'' = Some ''100''
      \<and> get_prop example_form ''BMI'' = Some ''22''
      \<and> get_prop example_form ''Age'' = Some ''30''
      \<and> (\<forall>key s. get_prop example_form key = Some s \<longrightarrow> parseFloat s \<noteq> NaN)
      \<longrightarrow> validateFormData example_form = \<lparr>valid = True, message = None\<rparr>"
    by (elim conjE) assumption
  have "''Glucose is required'' \<in> set (validateFormData_errors ?data)"
    unfolding glucose using fields(1) blank(1) by simp
  moreover have "''Age is required'' \<in> set (validateFormData_errors ?data)"
    unfolding age using fields(3) by simp
  moreover have "''BMI is required'' \<notin> set (validateFormData_errors ?data)"
    unfolding bmi using fields(2) blank(2) by simp
  moreover have "''Glucose must be a number'' \<in> set (validateFormData_errors ?data)"
    using number [rule_format, OF fields(1)] parseFloat_blanks by simp
  moreover have "validateFormData example_form = \<lparr>valid = True, message = None\<rparr>"
    using example example_form_fields example_form_numeric by (simp only: simp_thms)
  ultimately show ?thesis by (intro conjI)
qed

subsection \<open>Rendering the result\<close>

lemma fst_and_then: "(fst (and_then r f) = None) = (fst r = None \<and> fst (f (snd r)) = None)"
  by (cases r) (auto simp: and_then_def split: option.splits)

lemma and_then_None: "fst r = None \<Longrightarrow> and_then r f = f (snd r)"
  by (cases r) (simp add: and_then_def)

lemma and_then_Some: "fst r = Some ex \<Longrightarrow> and_then r f = r"
  by (cases r) (simp add: and_then_def)

lemma and_then_cases:
  assumes "P r" "\<And>p. P (f p)"
  shows "P (and_then r f)"
  using assms by (cases r) (auto simp: and_then_def split: option.splits)

lemma fst_render_badge:
  "(fst (render_badge e r p) = None) = (''riskBadge'' \<in> dom e \<longrightarrow> risk_level r \<noteq> None)"
  by (simp add: render_badge_def split: option.splits)

lemma fst_render_percent:
  "(fst (render_percent e elem x p) = None) = (elem \<in> dom e \<longrightarrow> x \<noteq> None)"
  by (simp add: render_percent_def split: option.splits)

lemma fst_scroll_to_results:
  "(fst (scroll_to_results e p) = None) = (''resultContent'' \<in> dom e)"
  by (simp add: scroll_to_results_def)

lemma displayPredictionResult_renders:
  "(fst (displayPredictionResult e r p) = None) = renders e r"
  by (cases "confidence r")
     (auto simp: displayPredictionResult_def renders_def Let_def fst_and_then fst_render_badge
       fst_render_percent fst_scroll_to_results)

text \<open>Rendering and notifying leave the busy state as it is.\<close>

lemma loading_set_prop [simp]: "loading (set_prop a b c p) = loading p"
  by (simp add: set_prop_def)

lemma loading_showNotification [simp]: "loading (showNotification m t p) = loading p"
  by (simp add: showNotification_def Let_def split: option.splits)

lemma loading_forEach_advice [simp]:
  "loading (forEach (\<lambda>a p. p\<lparr>advice_items := advice_items p @ [a]\<rparr>) xs p) = loading p"
  by (induction xs arbitrary: p) simp_all

lemma loading_steps [simp]:
  "loading (show_result_container e p) = loading p"
  "loading (render_label e r p) = loading p"
  "loading (render_meter e x p) = loading p"
  "loading (render_advice e r p) = loading p"
  "loading (setupResultActions e r p) = loading p"
  "loading (snd (render_badge e r p)) = loading p"
  "loading (snd (render_percent e elem x p)) = loading p"
  "loading (snd (scroll_to_results e p)) = loading p"
  by (simp_all add: show_result_container_def render_label_def render_meter_def
      render_advice_def setupResultActions_def render_badge_def render_percent_def
      scroll_to_results_def Let_def split: option.splits)

lemma loading_and_then:
  assumes "loading (snd r) = b" "\<And>p. loading p = b \<Longrightarrow> loading (snd (f p)) = b"
  shows "loading (snd (and_then r f)) = b"
  using assms by (cases r) (auto simp: and_then_def split: option.splits)

lemma loading_displayPredictionResult:
  "loading (snd (displayPredictionResult e r p)) = loading p"
  unfolding displayPredictionResult_def Let_def
  by (intro loading_and_then) (auto split: option.splits intro!: loading_and_then)


subsection \<open>The submit handler\<close>

lemma next_id_set_prop [simp]: "next_id (set_prop a b c p) = next_id p"
  by (simp add: set_prop_def)

lemma next_id_showNotification [simp]: "next_id (showNotification m t p) = Suc (next_id p)"
  by (simp add: showNotification_def Let_def split: option.splits)

lemma notification_showNotification [simp]:
  "notification (showNotification m t p)
     = Some \<lparr>toast_id = next_id p, toast_message = m, toast_type = t, toast_shown = False\<rparr>"
  by (simp add: showNotification_def Let_def split: option.splits)

lemma next_id_forEach_advice [simp]:
  "next_id (forEach (\<lambda>a p. p\<lparr>advice_items := advice_items p @ [a]\<rparr>) xs p) = next_id p"
  by (induction xs arbitrary: p) simp_all

lemma next_id_steps [simp]:
  "next_id (show_result_container e p) = next_id p"
  "next_id (render_label e r p) = next_id p"
  "next_id (render_meter e x p) = next_id p"
  "next_id (render_advice e r p) = next_id p"
  "next_id (setupResultActions e r p) = next_id p"
  "next_id (snd (render_badge e r p)) = next_id p"
  "next_id (snd (render_percent e elem x p)) = next_id p"
  "next_id (snd (scroll_to_results e p)) = next_id p"
  by (simp_all add: show_result_container_def render_label_def render_meter_def
      render_advice_def setupResultActions_def render_badge_def render_percent_def
      scroll_to_results_def Let_def split: option.splits)

lemma next_id_and_then:
  assumes "next_id (snd r) = b" "\<And>p. next_id p = b \<Longrightarrow> next_id (snd (f p)) = b"
  shows "next_id (snd (and_then r f)) = b"
  using assms by (cases r) (auto simp: and_then_def split: option.splits)

lemma next_id_displayPredictionResult:
  "next_id (snd (displayPredictionResult e r p)) = next_id p"
  unfolding displayPredictionResult_def Let_def
  by (intro next_id_and_then) (auto split: option.splits intro!: next_id_and_then)

lemma submit_body_success:
  assumes "status r = Some ''success''" "renders e r"
  shows "submit_body e (Json_body r) p
           = (None, showNotification ''Prediction completed successfully!'' ''success''
                      (snd (displayPredictionResult e r p)))"
  using assms displayPredictionResult_renders [of e r p]
  by (simp add: submit_body_def and_then_None)

lemma submit_body_render_throws:
  assumes "status r = Some ''success''" "\<not> renders e r"
  shows "\<exists>ex. submit_body e (Json_body r) p = (Some ex, snd (displayPredictionResult e r p))"
proof -
  from assms(2) obtain ex where ex: "fst (displayPredictionResult e r p) = Some ex"
    using displayPredictionResult_renders [of e r p] by auto
  then have "and_then (displayPredictionResult e r p) f = displayPredictionResult e r p" for f
    by (rule and_then_Some)
  with assms(1) ex show ?thesis
    by (cases "displayPredictionResult e r p") (auto simp: submit_body_def)
qed

lemma submit_body_other_status:
  assumes "status r \<noteq> Some ''success''"
  shows "submit_body e (Json_body r) p
           = (None, showNotification
                      (case error r of
                         None \<Rightarrow> ''Prediction failed''
                       | Some m \<Rightarrow> if m = [] then ''Prediction failed'' else m) ''error'' p)"
  using assms
  by (simp add: submit_body_def truthy_def template_string_def split: option.splits)

lemma submit_body_transport:
  "fst (submit_body e Fetch_rejected p) \<noteq> None \<and> snd (submit_body e Fetch_rejected p) = p"
  "fst (submit_body e Json_rejected p) \<noteq> None \<and> snd (submit_body e Json_rejected p) = p"
  "fst (submit_body e Json_null p) \<noteq> None \<and> snd (submit_body e Json_null p) = p"
  by (simp_all add: submit_body_def)

lemma try_catch_finally_returns:
  "body p = (None, p') \<Longrightarrow> try_catch_finally body handler cleanup p = cleanup p'"
  by (simp add: try_catch_finally_def)

lemma try_catch_finally_throws:
  "body p = (Some ex, p') \<Longrightarrow> try_catch_finally body handler cleanup p = cleanup (handler ex p')"
  by (simp add: try_catch_finally_def)

lemma handleFormSubmit_valid:
  "valid (validateFormData data) \<Longrightarrow>
   handleFormSubmit e data response p
     = try_catch_finally (submit_body e response) submit_catch (showLoading False)
         (showLoading True p)"
  by (simp add: handleFormSubmit_def Let_def)


lemma loading_submit_body: "loading (snd (submit_body e response p)) = loading p"
  by (cases response)
     (auto simp: submit_body_def loading_displayPredictionResult intro!: loading_and_then)

lemma loading_submit_catch [simp]: "loading (submit_catch ex p) = loading p"
  by (simp add: submit_catch_def)

lemma next_id_submit_catch [simp]: "next_id (submit_catch ex p) = Suc (next_id p)"
  by (simp add: submit_catch_def)

lemma notification_submit_catch [simp]:
  "notification (submit_catch ex p)
     = Some \<lparr>toast_id = next_id p, toast_message = ''Unable to connect to prediction service'',
             toast_type = ''error'', toast_shown = False\<rparr>"
  by (simp add: submit_catch_def)

lemma showLoading_fields [simp]:
  "loading (showLoading b p) = b"
  "next_id (showLoading b p) = next_id p"
  "notification (showLoading b p) = notification p"
  "view (showLoading b p) = view p"
  "timers (showLoading b p) = timers p"
  by (simp_all add: showLoading_def)

text \<open>
  Claim C3 (as amended). A valid submission raises exactly one notification. With status
  "success" and a result that has what the rendering dereferences, the result is
  rendered to the end and the success notification is raised. With status "success" and
  a result that lacks one of these, the rendering throws, and the notification is the
  connectivity error. With any other status the notification is an error with the
  server's error text when that is present and not empty, and "Prediction failed"
  otherwise. When the request is rejected, the body is not JSON or the body is null,
  the notification is the connectivity error.
\<close>

theorem handleFormSubmit_branches:
  assumes "valid (validateFormData data)"
  shows "next_id (handleFormSubmit e data response p) = Suc (next_id p)
    \<and> (\<forall>r. response = Json_body r \<and> status r = Some ''success'' \<and> renders e r \<longrightarrow>
          fst (displayPredictionResult e r (showLoading True p)) = None
          \<and> handleFormSubmit e data response p
              = showLoading False
                  (showNotification ''Prediction completed successfully!'' ''success''
                     (snd (displayPredictionResult e r (showLoading True p))))
          \<and> notification (handleFormSubmit e data response p)
              = Some \<lparr>toast_id = next_id p,
                      toast_message = ''Prediction completed successfully!'',
                      toast_type = ''success'', toast_shown = False\<rparr>)
    \<and> (\<forall>r. response = Json_body r \<and> status r = Some ''success'' \<and> \<not> renders e r \<longrightarrow>
          fst (displayPredictionResult e r (showLoading True p)) \<noteq> None
          \<and> notification (handleFormSubmit e data response p)
              = Some \<lparr>toast_id = next_id p,
                      toast_message = ''Unable to connect to prediction service'',
                      toast_type = ''error'', toast_shown = False\<rparr>)
    \<and> (\<forall>r. response = Json_body r \<and> status r \<noteq> Some ''success'' \<longrightarrow>
          view (handleFormSubmit e data response p) = view p
          \<and> notification (handleFormSubmit e data response p)
              = Some \<lparr>toast_id = next_id p,
                      toast_message = (case error r of
                                         None \<Rightarrow> ''Prediction failed''
                                       | Some m \<Rightarrow> if m = [] then ''Prediction failed'' else m),
                      toast_type = ''error'', toast_shown = False\<rparr>)
    \<and> (response = Fetch_rejected \<or> response = Json_rejected \<or> response = Json_null \<longrightarrow>
          view (handleFormSubmit e data response p) = view p
          \<and> notification (handleFormSubmit e data response p)
              = Some \<lparr>toast_id = next_id p,
                      toast_message = ''Unable to connect to prediction service'',
                      toast_type = ''error'', toast_shown = False\<rparr>)"
proof -
  let ?p = "showLoading True p"
  let ?final = "handleFormSubmit e data response p"
  have final: "?final = try_catch_finally (submit_body e response) submit_catch
                          (showLoading False) ?p"
    using assms by (rule handleFormSubmit_valid)
  have one: "next_id ?final = Suc (next_id p)"
  proof (cases response)
    case (Json_body r)
    show ?thesis
    proof (cases "status r = Some ''success''")
      case True
      show ?thesis
      proof (cases "renders e r")
        case True
        with \<open>status r = Some ''success''\<close> Json_body final show ?thesis
          by (simp add: submit_body_success try_catch_finally_def
              next_id_displayPredictionResult)
      next
        case False
        with \<open>status r = Some ''success''\<close> obtain ex where
          "submit_body e (Json_body r) ?p = (Some ex, snd (displayPredictionResult e r ?p))"
          using submit_body_render_throws by blast
        with Json_body final show ?thesis
          by (simp add: try_catch_finally_def next_id_displayPredictionResult)
      qed
    next
      case False
      with Json_body final show ?thesis
        by (simp add: submit_body_other_status try_catch_finally_def)
    qed
  qed (use final in \<open>simp_all add: submit_body_def try_catch_finally_def\<close>)
  have success: "fst (displayPredictionResult e r ?p) = None
      \<and> ?final = showLoading False
                  (showNotification ''Prediction completed successfully!'' ''success''
                     (snd (displayPredictionResult e r ?p)))
      \<and> notification ?final
              = Some \<lparr>toast_id = next_id p,
                      toast_message = ''Prediction completed successfully!'',
                      toast_type = ''success'', toast_shown = False\<rparr>"
    if "response = Json_body r" "status r = Some ''success''" "renders e r" for r
    using that final
    by (simp add: submit_body_success try_catch_finally_def displayPredictionResult_renders
        next_id_displayPredictionResult)
  have throws: "fst (displayPredictionResult e r ?p) \<noteq> None
      \<and> notification ?final
              = Some \<lparr>toast_id = next_id p,
                      toast_message = ''Unable to connect to prediction service'',
                      toast_type = ''error'', toast_shown = False\<rparr>"
    if "response = Json_body r" "status r = Some ''success''" "\<not> renders e r" for r
  proof -
    from that obtain ex where
      "submit_body e (Json_body r) ?p = (Some ex, snd (displayPredictionResult e r ?p))"
      using submit_body_render_throws by blast
    with that final show ?thesis
      by (simp add: try_catch_finally_def displayPredictionResult_renders
          next_id_displayPredictionResult)
  qed
  have other: "view ?final = view p
      \<and> notification ?final
              = Some \<lparr>toast_id = next_id p,
                      toast_message = (case error r of
                                         None \<Rightarrow> ''Prediction failed''
                                       | Some m \<Rightarrow> if m = [] then ''Prediction failed'' else m),
                      toast_type = ''error'', toast_shown = False\<rparr>"
    if "response = Json_body r" "status r \<noteq> Some ''success''" for r
    using that final
    by (simp add: submit_body_other_status try_catch_finally_def showNotification_def Let_def
        split: option.splits)
  have transport: "view ?final = view p
      \<and> notification ?final
              = Some \<lparr>toast_id = next_id p,
                      toast_message = ''Unable to connect to prediction service'',
                      toast_type = ''error'', toast_shown = False\<rparr>"
    if "response = Fetch_rejected \<or> response = Json_rejected \<or> response = Json_null"
    using that final
    by (auto simp: submit_body_def try_catch_finally_def submit_catch_def showNotification_def
        Let_def split: option.splits)
  from one success throws other transport show ?thesis by blast
qed


lemma renders_example: "renders form_page_env example_result"
  by (simp add: renders_def form_page_env_def example_result_def)

theorem handleFormSubmit_branches_witness:
  "notification (handleFormSubmit form_page_env example_form (Json_body example_result) initial_page)
     = Some \<lparr>toast_id = 0, toast_message = ''Prediction completed successfully!'',
             toast_type = ''success'', toast_shown = False\<rparr>"
proof -
  have "status example_result = Some ''success''"
    by (simp add: example_result_def)
  moreover have "next_id initial_page = 0"
    by (simp add: initial_page_def)
  ultimately show ?thesis
    using handleFormSubmit_branches [OF example_form_valid, of form_page_env
        "Json_body example_result" initial_page] renders_example
    by metis
qed

text \<open>
  The claim as stated fails on a response that has the status "success" and no
  confidence object: the rendering throws and the handler reports a connectivity error.
\<close>

theorem handleFormSubmit_success_counterexample:
  "status \<lparr>status = Some ''success'', error = None, prediction_label = None,
           risk_level = None, confidence = None, health_advice = None\<rparr> = Some ''success''
   \<and> valid (validateFormData example_form)
   \<and> notification
       (handleFormSubmit form_page_env example_form
          (Json_body \<lparr>status = Some ''success'', error = None, prediction_label = None,
                      risk_level = None, confidence = None, health_advice = None\<rparr>)
          initial_page)
     = Some \<lparr>toast_id = 0, toast_message = ''Unable to connect to prediction service'',
             toast_type = ''error'', toast_shown = False\<rparr>"
proof -
  let ?r = "\<lparr>status = Some ''success'', error = None, prediction_label = None,
             risk_level = None, confidence = None, health_advice = None\<rparr>"
  have "\<not> renders form_page_env ?r"
    by (simp add: renders_def)
  then obtain ex where
    "submit_body form_page_env (Json_body ?r) (showLoading True initial_page)
       = (Some ex, snd (displayPredictionResult form_page_env ?r (showLoading True initial_page)))"
    using submit_body_render_throws [of ?r form_page_env] by auto
  then show ?thesis
    using example_form_valid
    by (simp add: handleFormSubmit_valid try_catch_finally_def
        next_id_displayPredictionResult initial_page_def)
qed

text \<open>
  Claim C4. A submission that passes validation switches the busy state on before
  anything else: the \<open>try\<close> statement starts from the page with the busy state on. It
  is the \<open>try\<close> statement with \<open>showLoading(false)\<close> as its one \<open>finally\<close> block.
  Neither the body nor the handler switches the busy state off: it is still on when the
  body has returned or thrown, and when the handler has run. In each outcome the result
  of the submission is the cleanup applied once, to the page the body left when it
  returned, and to the page the handler left when the body threw. The cleanup does not
  depend on what the body and the handler do: a \<open>try\<close> statement with this \<open>finally\<close>
  block ends with the busy state off for every body and every handler. So the busy
  state is off after the submission however the request ends: success, a failure
  reported by the server, or a failure of the transport.
\<close>

theorem handleFormSubmit_clears_busy:
  assumes "valid (validateFormData data)"
  shows "handleFormSubmit e data response p
           = try_catch_finally (submit_body e response) submit_catch (showLoading False)
               (showLoading True p)
    \<and> loading (showLoading True p)
    \<and> loading (snd (submit_body e response (showLoading True p)))
    \<and> (fst (submit_body e response (showLoading True p)) = None \<longrightarrow>
          handleFormSubmit e data response p
            = showLoading False (snd (submit_body e response (showLoading True p))))
    \<and> (\<forall>ex. fst (submit_body e response (showLoading True p)) = Some ex \<longrightarrow>
          loading (submit_catch ex (snd (submit_body e response (showLoading True p))))
          \<and> handleFormSubmit e data response p
              = showLoading False
                  (submit_catch ex (snd (submit_body e response (showLoading True p)))))
    \<and> (\<forall>body handler q. \<not> loading (try_catch_finally body handler (showLoading False) q))
    \<and> \<not> loading (handleFormSubmit e data response p)"
proof -
  let ?p = "showLoading True p"
  have statement: "handleFormSubmit e data response p
      = try_catch_finally (submit_body e response) submit_catch (showLoading False) ?p"
    using assms by (rule handleFormSubmit_valid)
  have start: "loading ?p" by simp
  have body: "loading (snd (submit_body e response ?p))"
    by (simp add: loading_submit_body)
  obtain r p' where r: "submit_body e response ?p = (r, p')"
    by (cases "submit_body e response ?p")
  have returned: "handleFormSubmit e data response p
      = showLoading False (snd (submit_body e response ?p))"
    if "fst (submit_body e response ?p) = None"
    using that r statement by (simp add: try_catch_finally_returns)
  have thrown: "loading (submit_catch ex (snd (submit_body e response ?p)))
      \<and> handleFormSubmit e data response p
          = showLoading False (submit_catch ex (snd (submit_body e response ?p)))"
    if "fst (submit_body e response ?p) = Some ex" for ex
    using that r statement body by (simp add: try_catch_finally_throws)
  have guaranteed: "\<not> loading (try_catch_finally body handler (showLoading False) q)"
    for body :: "page \<Rightarrow> outcome" and handler q
  proof (cases "body q")
    case (Pair x q')
    then show ?thesis by (cases x) (simp_all add: try_catch_finally_def)
  qed
  have "\<not> loading (handleFormSubmit e data response p)"
    unfolding statement by (rule guaranteed)
  with statement start body returned thrown guaranteed show ?thesis
    by (intro conjI allI impI) (assumption | simp)+
qed

theorem handleFormSubmit_clears_busy_witness:
  "\<not> loading initial_page \<and> loading (showLoading True initial_page)
   \<and> \<not> loading (handleFormSubmit form_page_env example_form (Json_body example_result)
                  initial_page)
   \<and> \<not> loading (handleFormSubmit form_page_env example_form
                  (Json_body \<lparr>status = Some ''error'', error = Some ''Model not loaded'',
                              prediction_label = None, risk_level = None, confidence = None,
                              health_advice = None\<rparr>) initial_page)
   \<and> \<not> loading (handleFormSubmit form_page_env example_form Fetch_rejected initial_page)
   \<and> handleFormSubmit form_page_env example_form Fetch_rejected initial_page
       = showLoading False (submit_catch NetworkError (showLoading True initial_page))"
proof -
  have idle: "\<not> loading initial_page" by (simp add: initial_page_def)
  have transport: "fst (submit_body form_page_env Fetch_rejected (showLoading True initial_page))
        = Some NetworkError"
    "snd (submit_body form_page_env Fetch_rejected (showLoading True initial_page))
        = showLoading True initial_page"
    by (simp_all add: submit_body_def)
  note success = handleFormSubmit_clears_busy [OF example_form_valid, of form_page_env
      "Json_body example_result" initial_page]
  note failure = handleFormSubmit_clears_busy [OF example_form_valid, of form_page_env
      "Json_body \<lparr>status = Some ''error'', error = Some ''Model not loaded'',
                  prediction_label = None, risk_level = None, confidence = None,
                  health_advice = None\<rparr>" initial_page]
  note rejected = handleFormSubmit_clears_busy [OF example_form_valid, of form_page_env
      Fetch_rejected initial_page]
  from rejected have "\<forall>ex. fst (submit_body form_page_env Fetch_rejected
          (showLoading True initial_page)) = Some ex \<longrightarrow>
        loading (submit_catch ex (snd (submit_body form_page_env Fetch_rejected
          (showLoading True initial_page))))
        \<and> handleFormSubmit form_page_env example_form Fetch_rejected initial_page
            = showLoading False
                (submit_catch ex (snd (submit_body form_page_env Fetch_rejected
                   (showLoading True initial_page))))"
    by (elim conjE) assumption
  with transport have caught:
    "handleFormSubmit form_page_env example_form Fetch_rejected initial_page
       = showLoading False (submit_catch NetworkError (showLoading True initial_page))"
    by simp
  from success have a: "\<not> loading (handleFormSubmit form_page_env example_form
      (Json_body example_result) initial_page)"
    by (elim conjE) assumption
  from failure have b: "\<not> loading (handleFormSubmit form_page_env example_form
      (Json_body \<lparr>status = Some ''error'', error = Some ''Model not loaded'',
                  prediction_label = None, risk_level = None, confidence = None,
                  health_advice = None\<rparr>) initial_page)"
    by (elim conjE) assumption
  from rejected have c: "\<not> loading (handleFormSubmit form_page_env example_form Fetch_rejected
      initial_page)"
    by (elim conjE) assumption
  from rejected have d: "loading (showLoading True initial_page)"
    by (elim conjE) assumption
  from idle d a b c caught show ?thesis by (intro conjI)
qed

text \<open>
  Claim C10. The share text ends with element 0 of the advice list, read without a test
  for emptiness. When the list is not empty the text ends with the first advice. When
  the list is empty, element 0 is \<open>undefined\<close> and the text ends with "undefined".
\<close>

theorem shareText_first_advice:
  "(\<forall>c x a rest. confidence r = Some c \<and> diabetic c = Some x
        \<and> health_advice r = Some (a # rest) \<longrightarrow>
      shareText e r = Inr (''My diabetes risk assessment: ''
                           @ template_string (prediction_label r)
                           @ '' ('' @ toFixed1 e x @ ''% probability). '' @ a))
   \<and> element0 ([] :: string list) = None
   \<and> (\<forall>c x. confidence r = Some c \<and> diabetic c = Some x \<and> health_advice r = Some [] \<longrightarrow>
      shareText e r = Inr (''My diabetes risk assessment: ''
                           @ template_string (prediction_label r)
                           @ '' ('' @ toFixed1 e x @ ''% probability). '' @ ''undefined''))"
  by (simp add: shareText_def element0_def template_string_def)

lemma toFixed1_example: "toFixed1 e (Fin (25 / 2)) = ''12.5''"
proof -
  have "\<lfloor>251 / 2 :: rat\<rfloor> = 125"
    by (simp add: floor_eq_iff)
  then show ?thesis
    by (simp add: toFixed1_def Let_def digits.simps)
qed

theorem shareText_first_advice_witness:
  "shareText form_page_env example_result
     = Inr ''My diabetes risk assessment: Non-Diabetic (12.5% probability). Maintain a healthy diet''"
proof -
  have "confidence example_result
          = Some \<lparr>diabetic = Some (Fin (25 / 2)), non_diabetic = Some (Fin (175 / 2))\<rparr>"
    "health_advice example_result = Some [''Maintain a healthy diet'', ''Exercise regularly'']"
    "prediction_label example_result = Some ''Non-Diabetic''"
    by (simp_all add: example_result_def)
  then show ?thesis
    using shareText_first_advice [of example_result form_page_env]
    by (simp add: toFixed1_example template_string_def)
qed

subsection \<open>Rounding to binary64\<close>

lemma pow2_pos [simp]: "0 < (2::rat) powi k"
  by (simp add: zero_less_power_int)

lemma of_int_less_pow2:
  assumes "0 < n"
  shows "2 powi (bitlen n - 1) \<le> (of_int n :: rat)" "(of_int n :: rat) < 2 powi (bitlen n)"
proof -
  from assms have b: "1 \<le> bitlen n"
    using bitlen_eq_zero_iff [of n] bitlen_nonneg [of n] by linarith
  from bitlen_bounds [OF assms]
  have lo: "2 ^ nat (bitlen n - 1) \<le> n" and hi: "n < 2 ^ nat (bitlen n)" by simp_all
  from lo have "(of_int (2 ^ nat (bitlen n - 1)) :: rat) \<le> of_int n"
    by (simp only: of_int_le_iff)
  with b show "2 powi (bitlen n - 1) \<le> (of_int n :: rat)"
    by (simp add: power_int_def)
  from hi have "(of_int n :: rat) < of_int (2 ^ nat (bitlen n))"
    by (simp only: of_int_less_iff)
  with b show "(of_int n :: rat) < 2 powi (bitlen n)"
    by (simp add: power_int_def)
qed

lemma ilog2_bounds:
  assumes "0 < a"
  shows "2 powi (ilog2 a) \<le> a" "a < 2 powi (ilog2 a + 1)"
proof -
  obtain n d where q: "quotient_of a = (n, d)" by (cases "quotient_of a")
  then have d: "0 < d" by (rule quotient_of_denom_pos)
  from q have a: "a = of_int n / of_int d" by (rule quotient_of_div)
  with assms d have n: "0 < n"
    by (simp add: zero_less_divide_iff)
  let ?k = "bitlen n - bitlen d"
  have dpos: "0 < (of_int d :: rat)" using d by simp
  have "of_int n < (2::rat) powi (bitlen n)" using of_int_less_pow2 [OF n] by simp
  also have "\<dots> = 2 powi (?k + 1) * 2 powi (bitlen d - 1)"
    by (simp flip: power_int_add)
  also have "\<dots> \<le> 2 powi (?k + 1) * of_int d"
    using of_int_less_pow2 (1) [OF d] by (simp add: mult_left_mono)
  finally have hi: "a < 2 powi (?k + 1)"
    using dpos by (simp add: a pos_divide_less_eq)
  have "(2::rat) powi (?k - 1) * of_int d \<le> 2 powi (?k - 1) * 2 powi (bitlen d)"
    using of_int_less_pow2 (2) [OF d] by (simp add: mult_left_mono)
  also have "\<dots> = 2 powi (bitlen n - 1)"
    by (simp flip: power_int_add)
  also have "\<dots> \<le> of_int n" using of_int_less_pow2 [OF n] by simp
  finally have lo: "2 powi (?k - 1) \<le> a"
    using dpos by (simp add: a pos_le_divide_eq)
  have il: "ilog2 a = (if 2 powi ?k \<le> a then ?k else ?k - 1)"
    by (simp add: ilog2_def q Let_def)
  show "2 powi (ilog2 a) \<le> a"
    using lo by (simp add: il)
  show "a < 2 powi (ilog2 a + 1)"
    using hi by (auto simp: il not_le)
qed

lemma ilog2_unique:
  assumes "2 powi k \<le> a" "a < 2 powi (k + 1)"
  shows "ilog2 a = k"
proof -
  have a: "0 < a" using assms(1) pow2_pos [of k] by linarith
  note b = ilog2_bounds [OF a]
  have "ilog2 a < k + 1"
  proof (rule ccontr)
    assume "\<not> ilog2 a < k + 1"
    then have "(2::rat) powi (k + 1) \<le> 2 powi (ilog2 a)"
      by (intro power_int_increasing) simp_all
    with b(1) assms(2) show False by linarith
  qed
  moreover have "k < ilog2 a + 1"
  proof (rule ccontr)
    assume "\<not> k < ilog2 a + 1"
    then have "(2::rat) powi (ilog2 a + 1) \<le> 2 powi k"
      by (intro power_int_increasing) simp_all
    with b(2) assms(1) show False by linarith
  qed
  ultimately show ?thesis by linarith
qed

lemma round_half_even_bounds:
  "\<bar>of_int (round_half_even x) - x\<bar> \<le> 1 / 2"
proof -
  have "of_int \<lfloor>x\<rfloor> \<le> x" "x < of_int \<lfloor>x\<rfloor> + 1" by linarith+
  then show ?thesis
    by (auto simp: round_half_even_def Let_def)
qed

lemma round_half_even_of_int [simp]: "round_half_even (of_int m) = m"
  by (simp add: round_half_even_def)


lemma ilog2_ge:
  assumes "2 powi k \<le> a"
  shows "k \<le> ilog2 a"
proof (rule ccontr)
  assume "\<not> k \<le> ilog2 a"
  then have "(2::rat) powi (ilog2 a + 1) \<le> 2 powi k"
    by (intro power_int_increasing) simp_all
  moreover have "0 < a" using assms pow2_pos [of k] by linarith
  ultimately show False using ilog2_bounds (2) [of a] assms by linarith
qed

lemma ilog2_less:
  assumes "0 < a" "a < 2 powi k"
  shows "ilog2 a < k"
proof (rule ccontr)
  assume "\<not> ilog2 a < k"
  then have "(2::rat) powi k \<le> 2 powi (ilog2 a)"
    by (intro power_int_increasing) simp_all
  with ilog2_bounds (1) [OF assms(1)] assms(2) show False by linarith
qed

text \<open>In the normal range the rounding error is at most half a unit in the last place.\<close>

lemma fl_pos_error:
  assumes "2 powi (- 1022) \<le> a"
  shows "\<bar>fl_pos a - a\<bar> \<le> a * 2 powi (- 53)"
proof -
  have a: "0 < a" using assms pow2_pos [of "- 1022"] by linarith
  let ?e = "ilog2 a"
  let ?u = "(2::rat) powi (?e - 52)"
  have e: "- 1022 \<le> ?e" using assms by (rule ilog2_ge)
  then have fl: "fl_pos a = of_int (round_half_even (a / ?u)) * ?u"
    by (simp add: fl_pos_def Let_def max_def)
  have u: "0 < ?u" by simp
  have "\<bar>fl_pos a - a\<bar> = \<bar>of_int (round_half_even (a / ?u)) - a / ?u\<bar> * ?u"
  proof -
    have "fl_pos a - a = (of_int (round_half_even (a / ?u)) - a / ?u) * ?u"
      using u by (simp add: fl algebra_simps)
    then show ?thesis using u by (simp add: abs_mult)
  qed
  also have "\<dots> \<le> 1 / 2 * ?u"
    using round_half_even_bounds [of "a / ?u"] u by (intro mult_right_mono) simp_all
  also have "\<dots> = 2 powi ?e * 2 powi (- 53)"
  proof -
    have "(2::rat) powi (?e + (- 53)) = 2 powi ?e * 2 powi (- 53)"
      by (rule power_int_add) simp
    moreover have "(2::rat) powi ((?e + (- 53)) + 1) = 2 powi (?e + (- 53)) * 2"
      by (rule power_int_add_1) simp
    moreover have "(?e + (- 53)) + 1 = ?e - 52" by simp
    ultimately have "?u = 2 powi ?e * 2 powi (- 53) * 2" by (simp only:)
    then show ?thesis by simp
  qed
  also have "\<dots> \<le> a * 2 powi (- 53)"
    using ilog2_bounds (1) [OF a] by (intro mult_right_mono) simp_all
  finally show ?thesis .
qed

text \<open>The integers below \<open>2^53\<close> are Numbers.\<close>

lemma fl_pos_of_int:
  assumes "0 < n" "n < 2 ^ 53"
  shows "fl_pos (of_int n) = of_int n"
proof -
  let ?a = "of_int n :: rat"
  let ?e = "ilog2 ?a"
  have "(2::rat) powi 0 \<le> ?a" using assms(1) by simp
  then have e0: "0 \<le> ?e" by (rule ilog2_ge)
  have "?a < 2 powi 53"
  proof -
    have "?a < of_int (2 ^ 53)" using assms(2) by (simp only: of_int_less_iff)
    then show ?thesis by simp
  qed
  with assms(1) have e53: "?e < 53" by (intro ilog2_less) simp_all
  let ?u = "(2::rat) powi (?e - 52)"
  have fl: "fl_pos ?a = of_int (round_half_even (?a / ?u)) * ?u"
    using e0 by (simp add: fl_pos_def Let_def max_def)
  have "?e - 52 = - int (nat (52 - ?e))" using e53 by simp
  then have "?u = inverse (2 ^ nat (52 - ?e))"
    by (simp only: power_int_minus power_int_of_nat)
  then have "?a / ?u = of_int (n * 2 ^ nat (52 - ?e))" and "?u \<noteq> 0"
    by (simp_all add: field_simps)
  then have "of_int (round_half_even (?a / ?u)) * ?u = ?a / ?u * ?u"
    by (simp only: round_half_even_of_int)
  with \<open>?u \<noteq> 0\<close> show ?thesis by (simp add: fl)
qed

lemma number_value_of_int:
  assumes "\<bar>n\<bar> < 2 ^ 53"
  shows "number_value (of_int n) = Fin (of_int n)"
proof -
  have big: "\<not> (2::rat) powi 1024 \<le> of_int m" if "0 < m" "m < 2 ^ 53" for m :: int
  proof -
    have "(of_int m :: rat) < of_int (2 ^ 53)" using that(2) by (simp only: of_int_less_iff)
    also have "\<dots> = 2 ^ 53" by simp
    also have "\<dots> \<le> 2 ^ 1024" by (rule power_increasing) simp_all
    finally show ?thesis by simp
  qed
  consider "n = 0" | "0 < n" | "n < 0" by linarith
  then show ?thesis
  proof cases
    case 1
    then show ?thesis by (simp add: number_value_def)
  next
    case 2
    with assms have "n < 2 ^ 53" by simp
    with 2 show ?thesis
      using big [of n] by (simp add: number_value_def fl_pos_of_int)
  next
    case 3
    with assms have m: "0 < - n" "- n < 2 ^ 53" by simp_all
    from fl_pos_of_int [OF m] have "fl_pos (- of_int n) = - of_int n" by simp
    with 3 big [OF m] show ?thesis
      by (simp add: number_value_def)
  qed
qed

lemma number_value_pos_cases:
  assumes "2 powi (- 1022) \<le> a"
  shows "number_value a = PosInf
    \<or> (\<exists>r. number_value a = Fin r \<and> \<bar>r - a\<bar> \<le> a * 2 powi (- 53))"
proof -
  have "0 < a" using assms pow2_pos [of "- 1022"] by linarith
  then show ?thesis
    using fl_pos_error [OF assms] by (simp add: number_value_def)
qed

lemma number_value_pos_bounded:
  assumes "2 powi (- 1022) \<le> a" "a \<le> 2 ^ 1000"
  shows "\<exists>r. number_value a = Fin r \<and> \<bar>r - a\<bar> \<le> a * 2 powi (- 53)"
proof -
  have a: "0 < a" using assms pow2_pos [of "- 1022"] by linarith
  have err: "\<bar>fl_pos a - a\<bar> \<le> a * 2 powi (- 53)" using assms(1) by (rule fl_pos_error)
  have "(2::rat) powi (- 53) \<le> 1"
    by (simp add: power_int_minus inverse_le_1_iff)
  with a have "a * 2 powi (- 53) \<le> a * 1" by (intro mult_left_mono) simp_all
  with err have "fl_pos a \<le> 2 * a" by linarith
  also have "\<dots> \<le> 2 * 2 ^ 1000" using assms(2) by simp
  also have "\<dots> = (2::rat) ^ 1001" by simp
  also have "\<dots> < 2 ^ 1024" by (rule power_strict_increasing) simp_all
  finally have "\<not> 2 powi 1024 \<le> fl_pos a" by simp
  with a err show ?thesis by (simp add: number_value_def)
qed

lemma js_lt_Fin [simp]: "js_lt (Fin a) (Fin b) = (a < b)" by simp

lemma fl_pos_nonneg:
  assumes "0 < a"
  shows "0 \<le> fl_pos a"
proof -
  let ?u = "(2::rat) powi (max (ilog2 a) (- 1022) - 52)"
  have u: "0 < ?u" by simp
  then have "0 \<le> a / ?u" using assms by simp
  then have "0 \<le> \<lfloor>a / ?u\<rfloor>" by simp
  then have "0 \<le> round_half_even (a / ?u)"
    by (auto simp: round_half_even_def Let_def)
  then show ?thesis using u by (simp add: fl_pos_def Let_def)
qed

lemma number_value_nonpos:
  assumes "a \<le> 0"
  shows "number_value a = NegInf \<or> (\<exists>r. number_value a = Fin r \<and> r \<le> 0)"
proof (cases "a = 0")
  case True
  then show ?thesis by (simp add: number_value_def)
next
  case False
  with assms have "0 < - a" by simp
  then have "0 \<le> fl_pos (- a)" by (rule fl_pos_nonneg)
  with False assms show ?thesis by (simp add: number_value_def)
qed

text \<open>
  Dividing an integer below \<open>2^53\<close> by a positive integer and taking the floor gives
  the integer quotient: the rounding of the division does not reach the next integer.
\<close>

lemma floor_div_exact:
  fixes d c :: int
  assumes d: "0 \<le> d" "d < 2 ^ 53" and c: "0 < c" "c < 2 ^ 53"
  shows "Math_floor (js_div (Fin (of_int d)) (Fin (of_int c))) = Fin (of_int (d div c))"
proof (cases "d = 0")
  case True
  then show ?thesis using c by (simp add: Math_floor_def number_value_def)
next
  case False
  with d have dpos: "0 < d" by simp
  let ?q = "of_int d / of_int c :: rat"
  let ?n = "d div c"
  have cpos: "0 < (of_int c :: rat)" using c by simp
  have qpos: "0 < ?q" using dpos cpos by simp
  have n0: "0 \<le> ?n" using d c by (simp add: pos_imp_zdiv_nonneg_iff)
  have nc: "?n * c \<le> d"
    using c by (metis mult.commute mult_div_mod_eq pos_mod_sign le_add_same_cancel1)
  have nd: "?n \<le> d"
  proof -
    have "?n * 1 \<le> ?n * c" using n0 c by (intro mult_left_mono) simp_all
    with nc show ?thesis by simp
  qed
  have nq: "of_int ?n \<le> ?q"
  proof -
    from nc have "(of_int (?n * c) :: rat) \<le> of_int d" by (simp only: of_int_le_iff)
    then show ?thesis using cpos by (simp add: pos_le_divide_eq)
  qed
  have qn: "?q \<le> of_int ?n + 1 - 1 / of_int c"
  proof -
    have "d < ?n * c + c"
      using c by (metis mod_div_mult_eq pos_mod_bound add.commute add_strict_left_mono)
    then have "d + 1 \<le> ?n * c + c" by simp
    then have "(of_int (d + 1) :: rat) \<le> of_int (?n * c + c)" by (simp only: of_int_le_iff)
    then have "(of_int d :: rat) \<le> (of_int ?n + 1) * of_int c - 1"
      by (simp add: algebra_simps)
    then have "?q \<le> ((of_int ?n + 1) * of_int c - 1) / of_int c"
      using cpos by (simp add: divide_right_mono)
    also have "\<dots> = of_int ?n + 1 - 1 / of_int c"
      using cpos by (simp add: field_simps)
    finally show ?thesis .
  qed
  have lo: "2 powi (- 1022) \<le> ?q"
  proof -
    have "(2::rat) powi (- 1022) \<le> 2 powi (- 53)"
      by (intro power_int_increasing) simp_all
    also have "\<dots> = 1 / 2 ^ 53" by (simp add: power_int_minus field_simps)
    also have "\<dots> \<le> 1 / of_int c"
    proof -
      have "(of_int c :: rat) \<le> of_int (2 ^ 53)" using c by (simp only: of_int_le_iff)
      then show ?thesis using cpos by (simp add: frac_le)
    qed
    also have "\<dots> \<le> ?q"
    proof -
      have "(1::rat) \<le> of_int d" using dpos by simp
      then show ?thesis using cpos by (simp add: divide_right_mono)
    qed
    finally show ?thesis .
  qed
  have d53: "(of_int d :: rat) < 2 ^ 53"
  proof -
    have "(of_int d :: rat) < of_int (2 ^ 53)" using d by (simp only: of_int_less_iff)
    then show ?thesis by simp
  qed
  have hi: "?q \<le> 2 ^ 1000"
  proof -
    have "?q \<le> of_int d"
    proof -
      have "(1::rat) \<le> of_int c" using c by simp
      then show ?thesis using dpos by (simp add: divide_le_eq)
    qed
    also have "\<dots> \<le> 2 ^ 53" using d53 by simp
    also have "\<dots> \<le> (2::rat) ^ 1000" by (rule power_increasing) simp_all
    finally show ?thesis .
  qed
  from number_value_pos_bounded [OF lo hi] obtain r where
    r: "number_value ?q = Fin r" and err: "\<bar>r - ?q\<bar> \<le> ?q * 2 powi (- 53)" by blast
  have small: "?q * 2 powi (- 53) < 1 / of_int c"
  proof -
    have "?q * 2 powi (- 53) = of_int d / 2 ^ 53 / of_int c"
      by (simp add: power_int_minus field_simps)
    also have "\<dots> < 1 / of_int c"
    proof -
      have "of_int d / 2 ^ 53 < (1::rat)" using d53 by simp
      then show ?thesis using cpos by (rule divide_strict_right_mono)
    qed
    finally show ?thesis .
  qed
  have "\<lfloor>r\<rfloor> = ?n"
  proof (cases "?q = of_int ?n")
    case True
    have "\<bar>?n\<bar> < 2 ^ 53" using n0 nd d by simp
    then have "number_value (of_int ?n) = Fin (of_int ?n)" by (rule number_value_of_int)
    with r True have "r = of_int ?n" by simp
    then show ?thesis by simp
  next
    case False
    have "of_int ?n + 1 / of_int c \<le> ?q"
    proof -
      from False nq have "of_int ?n < ?q" by simp
      then have "(of_int (?n * c) :: rat) < of_int d"
        using cpos by (simp add: pos_less_divide_eq)
      then have "?n * c < d" by (simp only: of_int_less_iff)
      then have "?n * c + 1 \<le> d" by simp
      then have "(of_int (?n * c + 1) :: rat) \<le> of_int d" by (simp only: of_int_le_iff)
      then have "(of_int ?n * of_int c + 1) / of_int c \<le> ?q"
        using cpos by (simp add: divide_right_mono)
      then show ?thesis using cpos by (simp add: field_simps)
    qed
    with err small qn have "of_int ?n \<le> r" "r < of_int ?n + 1" by linarith+
    then show ?thesis by (rule floor_unique)
  qed
  with r cpos show ?thesis by (simp add: Math_floor_def)
qed


subsection \<open>Relative times\<close>

lemma div_bounds:
  fixes d c :: int
  assumes "0 < c"
  shows "c * (d div c) \<le> d" "d < c * (d div c) + c"
proof -
  have "d = c * (d div c) + d mod c" by simp
  moreover have "0 \<le> d mod c" "d mod c < c" using assms by simp_all
  ultimately show "c * (d div c) \<le> d" "d < c * (d div c) + c" by linarith+
qed

lemma diffMs_eq:
  "js_sub (Fin (of_int now)) (time_value (Some t)) = number_value (of_int (now - t))"
  by (simp add: js_sub_def time_value_def)

lemma floor_div_nonpos:
  assumes "x = NegInf \<or> (\<exists>r. x = Fin r \<and> r \<le> 0)" "0 < c"
  shows "js_lt (Math_floor (js_div x (Fin c))) (Fin 1)"
  using assms(1)
proof
  assume "x = NegInf"
  with assms(2) show ?thesis by (simp add: Math_floor_def)
next
  assume "\<exists>r. x = Fin r \<and> r \<le> 0"
  then obtain r where r: "x = Fin r" "r \<le> 0" by blast
  with assms(2) have "r / c \<le> 0" by (simp add: divide_le_0_iff)
  then have "number_value (r / c) = NegInf \<or> (\<exists>s. number_value (r / c) = Fin s \<and> s \<le> 0)"
    by (rule number_value_nonpos)
  then show ?thesis
  proof
    assume "number_value (r / c) = NegInf"
    with r assms(2) show ?thesis by (simp add: Math_floor_def)
  next
    assume "\<exists>s. number_value (r / c) = Fin s \<and> s \<le> 0"
    then obtain s where s: "number_value (r / c) = Fin s" "s \<le> 0" by blast
    then have "of_int \<lfloor>s\<rfloor> \<le> (0::rat)" by simp
    with s r assms(2) show ?thesis by (simp add: Math_floor_def)
  qed
qed

lemma floor_div_large:
  assumes x: "x = PosInf \<or> (\<exists>r. x = Fin r \<and> 2 ^ 52 \<le> r)"
    and c: "0 < c" "c \<le> 2 ^ 22" and k: "k \<le> 2 ^ 29"
  shows "\<not> js_lt (Math_floor (js_div x (Fin c))) (Fin k)"
  using x
proof
  assume "x = PosInf"
  with c show ?thesis by (simp add: Math_floor_def)
next
  assume "\<exists>r. x = Fin r \<and> 2 ^ 52 \<le> r"
  then obtain r where r: "x = Fin r" "2 ^ 52 \<le> r" by blast
  let ?q = "r / c"
  have q: "2 ^ 30 \<le> ?q"
  proof -
    have "(2::rat) ^ 30 * c \<le> 2 ^ 30 * 2 ^ 22" using c by (intro mult_left_mono) simp_all
    also have "\<dots> = 2 ^ 52" by simp
    finally show ?thesis using r(2) c by (simp add: pos_le_divide_eq)
  qed
  have "(2::rat) powi (- 1022) \<le> 2 powi 30"
    by (intro power_int_increasing) simp_all
  then have "(2::rat) powi (- 1022) \<le> 2 ^ 30"
    by (simp only: power_int_numeral)
  then have "2 powi (- 1022) \<le> ?q"
    by (rule order_trans) (fact q)
  then have "number_value ?q = PosInf
      \<or> (\<exists>s. number_value ?q = Fin s \<and> \<bar>s - ?q\<bar> \<le> ?q * 2 powi (- 53))"
    by (rule number_value_pos_cases)
  then show ?thesis
  proof
    assume "number_value ?q = PosInf"
    with r c show ?thesis by (simp add: Math_floor_def)
  next
    assume "\<exists>s. number_value ?q = Fin s \<and> \<bar>s - ?q\<bar> \<le> ?q * 2 powi (- 53)"
    then obtain s where s: "number_value ?q = Fin s" "\<bar>s - ?q\<bar> \<le> ?q * 2 powi (- 53)"
      by blast
    have "(2::rat) powi (- 53) \<le> 1 / 2"
      by (simp add: power_int_minus field_simps)
    moreover have "0 \<le> ?q" using q by simp
    ultimately have "?q * 2 powi (- 53) \<le> ?q * (1 / 2)" by (intro mult_left_mono)
    with s(2) have "?q / 2 \<le> s" by simp
    with q have "2 ^ 29 \<le> s" by simp
    then have "(of_int (2 ^ 29) :: rat) \<le> s" by simp
    then have "2 ^ 29 \<le> \<lfloor>s\<rfloor>" by (simp only: le_floor_iff)
    then have "(of_int (2 ^ 29) :: rat) \<le> of_int \<lfloor>s\<rfloor>" by (simp only: of_int_le_iff)
    moreover have "(of_int (2 ^ 29) :: rat) = 2 ^ 29" by simp
    ultimately have "k \<le> of_int \<lfloor>s\<rfloor>" using k by linarith
    with s r c show ?thesis by (simp add: Math_floor_def)
  qed
qed

lemma Number_toString_nat:
  assumes "0 \<le> n" "n < 10 ^ 21"
  shows "Number_toString e (Fin (of_int n)) = digits (nat n)"
proof -
  have "\<bar>of_int n :: rat\<bar> < of_int (10 ^ 21)"
    using assms by (simp only: of_int_abs [symmetric] of_int_less_iff)
  then show ?thesis using assms(1) by (simp add: Number_toString_def)
qed


lemma formatTime_parsed:
  assumes "ts \<noteq> []" "Date_parse e ts = Some t" "now - t = d"
  shows "formatTime e now (Some ts) =
     (let diffMs = number_value (of_int d);
          diffMins = Math_floor (js_div diffMs (Fin 60000));
          diffHours = Math_floor (js_div diffMs (Fin 3600000))
      in if js_lt diffMins (Fin 1) then ''Just now''
         else if js_lt diffMins (Fin 60) then Number_toString e diffMins @ '' min ago''
         else if js_lt diffHours (Fin 24)
         then Number_toString e diffHours @ '' hour''
              @ (if js_gt diffHours (Fin 1) then ''s'' else []) @ '' ago''
         else toLocaleDateString e t @ '' '' @ toLocaleTimeString e [''hour'', ''minute''] t)"
proof -
  have "js_sub (Fin (of_int now)) (time_value (Some t)) = number_value (of_int d)"
    using assms(3) by (simp add: js_sub_def time_value_def flip: of_int_diff)
  with assms(1,2) show ?thesis
    by (simp add: formatTime_def Let_def)
qed

lemma diff_minutes_hours:
  fixes d :: int
  assumes "0 \<le> d" "d < 2 ^ 53"
  shows "Math_floor (js_div (number_value (of_int d)) (Fin 60000)) = Fin (of_int (d div 60000))"
    and "Math_floor (js_div (number_value (of_int d)) (Fin 3600000))
           = Fin (of_int (d div 3600000))"
proof -
  from assms have "\<bar>d\<bar> < 2 ^ 53" by simp
  then have nv: "number_value (of_int d) = Fin (of_int d)" by (rule number_value_of_int)
  show "Math_floor (js_div (number_value (of_int d)) (Fin 60000)) = Fin (of_int (d div 60000))"
    using floor_div_exact [OF assms, of 60000] by (simp add: nv)
  show "Math_floor (js_div (number_value (of_int d)) (Fin 3600000))
           = Fin (of_int (d div 3600000))"
    using floor_div_exact [OF assms, of 3600000] by (simp add: nv)
qed

lemma formatTime_just_now:
  assumes "ts \<noteq> []" "Date_parse e ts = Some t" "now - t = d" "d < 60000"
  shows "formatTime e now (Some ts) = ''Just now''"
proof -
  have "js_lt (Math_floor (js_div (number_value (of_int d)) (Fin 60000))) (Fin 1)"
  proof (cases "d \<le> 0")
    case True
    then have "(of_int d :: rat) \<le> 0" by simp
    then have "number_value (of_int d) = NegInf
        \<or> (\<exists>r. number_value (of_int d) = Fin r \<and> r \<le> 0)"
      by (rule number_value_nonpos)
    then show ?thesis by (rule floor_div_nonpos) simp
  next
    case False
    with assms(4) have d: "0 \<le> d" "d < 2 ^ 53" by simp_all
    from False assms(4) have "d div 60000 = 0" by simp
    with diff_minutes_hours (1) [OF d] show ?thesis by simp
  qed
  then show ?thesis
    by (simp add: formatTime_parsed [OF assms(1,2,3)] Let_def)
qed

lemma formatTime_minutes:
  assumes "ts \<noteq> []" "Date_parse e ts = Some t" "now - t = d" "60000 \<le> d" "d < 3600000"
  shows "formatTime e now (Some ts) = digits (nat (d div 60000)) @ '' min ago''"
proof -
  let ?n = "d div 60000"
  from assms(4,5) have d: "0 \<le> d" "d < 2 ^ 53" by simp_all
  have n: "1 \<le> ?n" "?n < 60"
    using div_bounds [of 60000 d] assms(4,5) by linarith+
  then have "Number_toString e (Fin (of_int ?n)) = digits (nat ?n)"
    by (intro Number_toString_nat) simp_all
  moreover have "(1::rat) \<le> of_int ?n" "(of_int ?n :: rat) < 60"
    using n by simp_all
  ultimately show ?thesis
    by (simp add: formatTime_parsed [OF assms(1,2,3)] Let_def diff_minutes_hours (1) [OF d]
        not_less)
qed

lemma formatTime_hours:
  assumes "ts \<noteq> []" "Date_parse e ts = Some t" "now - t = d" "3600000 \<le> d" "d < 86400000"
  shows "formatTime e now (Some ts)
    = digits (nat (d div 3600000)) @ (if 7200000 \<le> d then '' hours ago'' else '' hour ago'')"
proof -
  let ?n = "d div 60000"
  let ?h = "d div 3600000"
  from assms(4,5) have d: "0 \<le> d" "d < 2 ^ 53" by simp_all
  have n: "60 \<le> ?n"
    using div_bounds [of 60000 d] assms(4,5) by linarith
  have h: "1 \<le> ?h" "?h < 24" "(7200000 \<le> d) = (1 < ?h)"
    using div_bounds [of 3600000 d] assms(4,5) by linarith+
  then have "Number_toString e (Fin (of_int ?h)) = digits (nat ?h)"
    by (intro Number_toString_nat) simp_all
  moreover have "(60::rat) \<le> of_int ?n" "(of_int ?h :: rat) < 24"
    "((1::rat) < of_int ?h) = (1 < ?h)"
    using n h by simp_all
  ultimately show ?thesis
    by (simp add: formatTime_parsed [OF assms(1,2,3)] Let_def diff_minutes_hours [OF d]
        not_less js_gt_def h(3))
qed

lemma formatTime_absolute:
  assumes "ts \<noteq> []" "Date_parse e ts = Some t" "now - t = d" "86400000 \<le> d"
  shows "formatTime e now (Some ts)
    = toLocaleDateString e t @ '' '' @ toLocaleTimeString e [''hour'', ''minute''] t"
proof -
  let ?ms = "number_value (of_int d)"
  have "\<not> js_lt (Math_floor (js_div ?ms (Fin 60000))) (Fin 1)
    \<and> \<not> js_lt (Math_floor (js_div ?ms (Fin 60000))) (Fin 60)
    \<and> \<not> js_lt (Math_floor (js_div ?ms (Fin 3600000))) (Fin 24)"
  proof (cases "d < 2 ^ 53")
    case True
    with assms(4) have d: "0 \<le> d" "d < 2 ^ 53" by simp_all
    have "60 \<le> d div 60000" "24 \<le> d div 3600000"
      using div_bounds [of 60000 d] div_bounds [of 3600000 d] assms(4) by linarith+
    then have "(60::rat) \<le> of_int (d div 60000)" "(24::rat) \<le> of_int (d div 3600000)"
      by simp_all
    then show ?thesis
      by (simp add: diff_minutes_hours [OF d] not_less)
  next
    case False
    then have "2 ^ 53 \<le> d" by simp
    then have "(of_int (2 ^ 53) :: rat) \<le> of_int d" by (simp only: of_int_le_iff)
    then have big: "(2::rat) ^ 53 \<le> of_int d" by simp
    have "(2::rat) powi (- 1022) \<le> 2 powi 53"
      by (intro power_int_increasing) simp_all
    then have "(2::rat) powi (- 1022) \<le> 2 ^ 53" by (simp only: power_int_numeral)
    then have "2 powi (- 1022) \<le> (of_int d :: rat)" by (rule order_trans) (fact big)
    then have "?ms = PosInf
      \<or> (\<exists>r. ?ms = Fin r \<and> \<bar>r - of_int d\<bar> \<le> of_int d * 2 powi (- 53))"
      by (rule number_value_pos_cases)
    moreover have "2 ^ 52 \<le> r" if "\<bar>r - of_int d\<bar> \<le> of_int d * 2 powi (- 53)" for r :: rat
    proof -
      have "(2::rat) powi (- 53) \<le> 1 / 2" by (simp add: power_int_minus field_simps)
      moreover have "(0::rat) \<le> of_int d" using big by simp
      ultimately have "of_int d * (2::rat) powi (- 53) \<le> of_int d * (1 / 2)"
        by (intro mult_left_mono)
      with that have "\<bar>r - of_int d\<bar> \<le> of_int d * (1 / 2)" by (rule order_trans)
      then have "of_int d / 2 \<le> r" by linarith
      with big show ?thesis by simp
    qed
    ultimately have x: "?ms = PosInf \<or> (\<exists>r. ?ms = Fin r \<and> 2 ^ 52 \<le> r)" by blast
    show ?thesis
      using floor_div_large [OF x, of 60000 1] floor_div_large [OF x, of 60000 60]
        floor_div_large [OF x, of 3600000 24]
      by simp
  qed
  then show ?thesis
    by (simp add: formatTime_parsed [OF assms(1,2,3)] Let_def)
qed

text \<open>
  Claim C6. For a timestamp that parses to the time \<open>t\<close>, and the current time \<open>now\<close>:
  the result is "Just now" when the timestamp is less than a minute old, the whole
  minutes followed by " min ago" when it is less than an hour old, the whole hours
  followed by " hour ago" or " hours ago" when it is less than a day old, and the
  locale date and time of the timestamp otherwise. At 30 seconds this is "Just now", at
  5 minutes "5 min ago", at 3 hours "3 hours ago" and at 2 days the date and time.
\<close>

theorem formatTime_branches:
  assumes "ts \<noteq> []" "Date_parse e ts = Some t"
  shows "(now - t < 60000 \<longrightarrow> formatTime e now (Some ts) = ''Just now'')
    \<and> (60000 \<le> now - t \<and> now - t < 3600000 \<longrightarrow>
         formatTime e now (Some ts) = digits (nat ((now - t) div 60000)) @ '' min ago'')
    \<and> (3600000 \<le> now - t \<and> now - t < 86400000 \<longrightarrow>
         formatTime e now (Some ts)
           = digits (nat ((now - t) div 3600000))
             @ (if 7200000 \<le> now - t then '' hours ago'' else '' hour ago''))
    \<and> (86400000 \<le> now - t \<longrightarrow>
         formatTime e now (Some ts)
           = toLocaleDateString e t @ '' '' @ toLocaleTimeString e [''hour'', ''minute''] t)
    \<and> (now - t = 30000 \<longrightarrow> formatTime e now (Some ts) = ''Just now'')
    \<and> (now - t = 300000 \<longrightarrow> formatTime e now (Some ts) = ''5 min ago'')
    \<and> (now - t = 10800000 \<longrightarrow> formatTime e now (Some ts) = ''3 hours ago'')
    \<and> (now - t = 172800000 \<longrightarrow>
         formatTime e now (Some ts)
           = toLocaleDateString e t @ '' '' @ toLocaleTimeString e [''hour'', ''minute''] t)"
proof -
  note jn = formatTime_just_now [OF assms refl]
    and mi = formatTime_minutes [OF assms refl]
    and ho = formatTime_hours [OF assms refl]
    and ab = formatTime_absolute [OF assms refl]
  have five: "formatTime e now (Some ts) = ''5 min ago''" if "now - t = 300000"
    using mi [of now] that by (simp add: digits.simps)
  have three: "formatTime e now (Some ts) = ''3 hours ago''" if "now - t = 10800000"
    using ho [of now] that by (simp add: digits.simps)
  show ?thesis
    using jn [of now] mi [of now] ho [of now] ab [of now] five three
    by simp
qed

theorem formatTime_branches_witness:
  "formatTime (form_page_env\<lparr>Date_parse := \<lambda>s. Some 1700000000000\<rparr>) 1700000300000
     (Some ''2023-11-14T22:13:20.000Z'') = ''5 min ago''
   \<and> formatTime (form_page_env\<lparr>Date_parse := \<lambda>s. Some 1700000000000\<rparr>) 1700000030000
     (Some ''2023-11-14T22:13:20.000Z'') = ''Just now''"
  using formatTime_branches [of "''2023-11-14T22:13:20.000Z''"
      "form_page_env\<lparr>Date_parse := \<lambda>s. Some 1700000000000\<rparr>" 1700000000000 1700000300000]
    formatTime_branches [of "''2023-11-14T22:13:20.000Z''"
      "form_page_env\<lparr>Date_parse := \<lambda>s. Some 1700000000000\<rparr>" 1700000000000 1700000030000]
  by (simp add: digits.simps)

subsection \<open>The shares of the risk levels\<close>

lemma fl_pos_share_example:
  "fl_pos (63955314809041 / 67677581808509) = 8511803295730237 / 9007199254740992"
  "fl_pos (212795082393255925 / 2251799813685248) = 189 / 2"
  by code_simp+

lemma or_default_nat [simp]: "or_default (Some (Fin (of_nat n))) (Fin 0) = Fin (of_nat n)"
  by (simp add: or_default_def)

lemma js_add_nat:
  assumes "a + b < 2 ^ 53"
  shows "js_add (Fin (of_nat a)) (Fin (of_nat b)) = Fin (of_nat (a + b))"
proof -
  have "int (a + b) < 2 ^ 53" using assms by (simp flip: of_nat_less_iff [where 'a = int])
  then have "\<bar>int (a + b)\<bar> < 2 ^ 53" by simp
  then have "number_value (of_int (int (a + b))) = Fin (of_int (int (a + b)))"
    by (rule number_value_of_int)
  moreover have "js_add (Fin (of_nat a)) (Fin (of_nat b)) = number_value (of_int (int (a + b)))"
    by simp
  moreover have "Fin (of_int (int (a + b))) = Fin (of_nat (a + b))" by simp
  ultimately show ?thesis by (simp only:)
qed

lemma risk_total_nat:
  assumes "l + m + h < 2 ^ 53"
  shows "js_add (js_add (Fin (of_nat l)) (Fin (of_nat m))) (Fin (of_nat h))
           = Fin (of_nat (l + m + h))"
proof -
  from assms have "l + m < 2 ^ 53" by simp
  then have 1: "js_add (Fin (of_nat l)) (Fin (of_nat m)) = Fin (of_nat (l + m))"
    by (rule js_add_nat)
  have 2: "js_add (Fin (of_nat (l + m))) (Fin (of_nat h)) = Fin (of_nat (l + m + h))"
    using assms by (rule js_add_nat)
  show ?thesis by (simp only: 1 2)
qed

lemma rounding_chain_a:
  fixes q r1 :: rat
  assumes "1 / 2 ^ 44 \<le> q" "q \<le> 1" "\<bar>r1 - q\<bar> \<le> 1 / 2 ^ 53"
  shows "1 / 2 ^ 45 \<le> r1" "r1 \<le> 101 / 100"
  using assms unfolding abs_le_iff by simp_all

lemma rounding_chain_b:
  fixes q r1 r2 :: rat
  assumes "1 / 2 ^ 45 \<le> r1" "r1 \<le> 101 / 100" "\<bar>r1 - q\<bar> \<le> 1 / 2 ^ 53"
    "\<bar>r2 - r1 * 100\<bar> \<le> 101 / 2 ^ 53"
  shows "\<bar>r2 - 100 * q\<bar> \<le> 201 / 2 ^ 53" "0 < r2" "r2 \<le> 201"
  using assms unfolding abs_le_iff by simp_all

lemma rounding_chain_c:
  fixes R x r2 :: rat
  assumes "R \<le> r2 + 1 / 2" "r2 + 1 / 2 < R + 1" "\<bar>r2 - x\<bar> \<le> 201 / 2 ^ 53"
  shows "\<bar>R - x\<bar> \<le> 1 / 2 + 201 / 2 ^ 53"
  using assms unfolding abs_le_iff by simp_all

text \<open>
  The share of a count \<open>c\<close> in a total \<open>T\<close> of at most \<open>2^44\<close>: the two roundings move
  \<open>100 c / T\<close> by less than \<open>1 / (2 T)\<close>, which is the least distance of \<open>100 c / T\<close> to
  a half-integer that it does not hit.
\<close>

lemma percent_text_nat:
  fixes c T :: nat
  assumes T: "0 < T" "T \<le> 2 ^ 44" and c: "c \<le> T"
  shows "\<exists>r::nat. percent_text e (Fin (of_nat c)) (Fin (of_nat T)) = digits r @ ''%''
           \<and> \<bar>of_nat r - 100 * of_nat c / (of_nat T :: rat)\<bar> \<le> 1 / 2"
proof (cases "c = 0")
  case True
  have "\<lfloor>1 / 2 :: rat\<rfloor> = 0" by (simp add: floor_eq_iff)
  with True T have "percent_text e (Fin (of_nat c)) (Fin (of_nat T)) = digits 0 @ ''%''"
    by (simp add: percent_text_def js_gt_def number_value_def Math_round_def
        Number_toString_def)
  with True show ?thesis by (intro exI [of _ 0]) simp
next
  case False
  let ?c = "of_nat c :: rat" and ?T = "of_nat T :: rat"
  let ?q = "?c / ?T"
  let ?x = "100 * ?c / ?T"
  let ?eps = "(2::rat) powi (- 53)"
  have Tpos: "0 < ?T" using T by simp
  have cpos: "1 \<le> ?c" using False by simp
  have T44: "?T \<le> 2 ^ 44"
  proof -
    have "?T \<le> of_nat (2 ^ 44)" using T by (simp only: of_nat_le_iff)
    then show ?thesis by simp
  qed
  have eps: "?eps = 1 / 2 ^ 53" by (simp add: power_int_minus field_simps)
  have q1: "?q \<le> 1" using c Tpos by simp
  have q0: "1 / 2 ^ 44 \<le> ?q"
  proof -
    have "1 / 2 ^ 44 \<le> 1 / ?T" using T44 Tpos by (simp add: frac_le)
    also have "\<dots> \<le> ?q" using cpos Tpos by (simp add: divide_right_mono)
    finally show ?thesis .
  qed
  have tiny: "(2::rat) powi (- 1022) \<le> 1 / 2 ^ 50"
  proof -
    have "(2::rat) powi (- 1022) \<le> 2 powi (- 50)" by (intro power_int_increasing) simp_all
    also have "\<dots> = 1 / 2 ^ 50" by (simp add: power_int_minus field_simps)
    finally show ?thesis .
  qed
  have "2 powi (- 1022) \<le> ?q"
  proof -
    have "(1::rat) / 2 ^ 50 \<le> 1 / 2 ^ 44" by simp
    with tiny q0 show ?thesis by linarith
  qed
  moreover have "?q \<le> 2 ^ 1000"
  proof -
    have "(1::rat) \<le> 2 ^ 1000" by (rule one_le_power) simp
    with q1 show ?thesis by simp
  qed
  ultimately obtain r1 where r1: "number_value ?q = Fin r1" and e1: "\<bar>r1 - ?q\<bar> \<le> ?q * ?eps"
    using number_value_pos_bounded by blast
  have e1': "\<bar>r1 - ?q\<bar> \<le> 1 / 2 ^ 53"
  proof -
    have "?q * ?eps \<le> 1 * ?eps" using q1 by (intro mult_right_mono) simp_all
    with e1 eps show ?thesis by simp
  qed
  note r1lo = rounding_chain_a (1) [OF q0 q1 e1'] and r1hi = rounding_chain_a (2) [OF q0 q1 e1']
  let ?y = "r1 * 100"
  have "2 powi (- 1022) \<le> ?y"
  proof -
    have "(1::rat) / 2 ^ 50 \<le> 1 / 2 ^ 45 * 100" by simp
    moreover have "1 / 2 ^ 45 * 100 \<le> ?y" using r1lo by simp
    ultimately show ?thesis using tiny by linarith
  qed
  moreover have "?y \<le> 2 ^ 1000"
  proof -
    have "?y \<le> 101" using r1hi by simp
    also have "\<dots> \<le> (2::rat) ^ 8" by simp
    also have "\<dots> \<le> (2::rat) ^ 1000" by (rule power_increasing) simp_all
    finally show ?thesis .
  qed
  ultimately obtain r2 where r2: "number_value ?y = Fin r2" and e2: "\<bar>r2 - ?y\<bar> \<le> ?y * ?eps"
    using number_value_pos_bounded by blast
  have e2': "\<bar>r2 - ?y\<bar> \<le> 101 / 2 ^ 53"
  proof -
    have "?y * ?eps \<le> 101 * ?eps" using r1hi by (intro mult_right_mono) simp_all
    with e2 eps show ?thesis by simp
  qed
  have x: "?x = 100 * ?q" by simp
  have close: "\<bar>r2 - ?x\<bar> \<le> 201 / 2 ^ 53"
    using rounding_chain_b (1) [OF r1lo r1hi e1' e2'] by (simp only: x)
  note r2pos = rounding_chain_b (2) [OF r1lo r1hi e1' e2']
    and r2hi = rounding_chain_b (3) [OF r1lo r1hi e1' e2']
  let ?R = "\<lfloor>r2 + 1 / 2\<rfloor>"
  have R: "of_int ?R \<le> r2 + 1 / 2" "r2 + 1 / 2 < of_int ?R + 1" by linarith+
  have R0: "0 \<le> ?R" using r2pos by simp
  have R21: "?R < 10 ^ 21"
  proof -
    have "r2 + 1 / 2 < of_int 202" using r2hi by simp
    then have "?R < 202" by (simp only: floor_less_iff)
    then show ?thesis by simp
  qed
  have near: "\<bar>of_int ?R - ?x\<bar> \<le> 1 / 2"
  proof (rule ccontr)
    assume "\<not> \<bar>of_int ?R - ?x\<bar> \<le> 1 / 2"
    then have far: "1 / 2 < \<bar>of_int ?R - ?x\<bar>" by simp
    have "\<bar>of_int ?R - ?x\<bar> \<le> 1 / 2 + 201 / 2 ^ 53"
      using R close by (rule rounding_chain_c)
    also have "\<dots> < 1 / 2 + 1 / (2 * ?T)"
    proof -
      have "201 / 2 ^ 53 < 1 / (2 * (2::rat) ^ 44)" by simp
      also have "\<dots> \<le> 1 / (2 * ?T)" using T44 Tpos by (simp add: frac_le)
      finally show ?thesis by simp
    qed
    finally have lt: "\<bar>of_int ?R - ?x\<bar> < 1 / 2 + 1 / (2 * ?T)" .
    let ?N = "2 * int T * ?R - 200 * int c"
    have N: "(of_int ?N :: rat) = 2 * ?T * (of_int ?R - ?x)"
      using Tpos by (simp add: field_simps)
    have "\<bar>of_int ?N :: rat\<bar> = 2 * ?T * \<bar>of_int ?R - ?x\<bar>"
      using Tpos by (simp only: N abs_mult)
    moreover have "2 * ?T * (1 / 2) < 2 * ?T * \<bar>of_int ?R - ?x\<bar>"
      using far Tpos by (intro mult_strict_left_mono) simp_all
    moreover have "2 * ?T * \<bar>of_int ?R - ?x\<bar> < 2 * ?T * (1 / 2 + 1 / (2 * ?T))"
      using lt Tpos by (intro mult_strict_left_mono) simp_all
    moreover have "2 * ?T * (1 / 2 + 1 / (2 * ?T)) = ?T + 1"
      using Tpos by (simp add: field_simps)
    ultimately have "?T < \<bar>of_int ?N :: rat\<bar>" "\<bar>of_int ?N :: rat\<bar> < ?T + 1" by simp_all
    then have "(of_int (int T) :: rat) < of_int \<bar>?N\<bar>" "(of_int \<bar>?N\<bar> :: rat) < of_int (int T + 1)"
      by simp_all
    then have "int T < \<bar>?N\<bar>" "\<bar>?N\<bar> < int T + 1" by (simp_all only: of_int_less_iff)
    then show False by linarith
  qed
  have "percent_text e (Fin ?c) (Fin ?T) = digits (nat ?R) @ ''%''"
    using Tpos r1 r2 Number_toString_nat [OF R0 R21, of e]
    by (simp add: percent_text_def js_gt_def Math_round_def)
  moreover have "(of_nat (nat ?R) :: rat) = of_int ?R" using R0 by simp
  ultimately show ?thesis using near by (intro exI [of _ "nat ?R"]) simp
qed


lemma percent_text_no_total:
  "\<not> js_gt risk_sum (Fin 0) \<Longrightarrow> percent_text e count risk_sum = ''0%''"
  by (simp add: percent_text_def)

lemma risk_percent_texts_nat:
  fixes l m h :: nat
  assumes "0 < l + m + h" "l + m + h \<le> 2 ^ 44"
  shows "risk_percent_texts e
           \<lparr>low = Some (Fin (of_nat l)), medium = Some (Fin (of_nat m)),
            high = Some (Fin (of_nat h))\<rparr>
         = (percent_text e (Fin (of_nat l)) (Fin (of_nat (l + m + h))),
            percent_text e (Fin (of_nat m)) (Fin (of_nat (l + m + h))),
            percent_text e (Fin (of_nat h)) (Fin (of_nat (l + m + h))))"
proof -
  have "(2::nat) ^ 44 < 2 ^ 53" by simp
  with assms(2) have "l + m + h < 2 ^ 53" by linarith
  then have "js_add (js_add (Fin (of_nat l)) (Fin (of_nat m))) (Fin (of_nat h))
           = Fin (of_nat (l + m + h))"
    by (rule risk_total_nat)
  then show ?thesis
    by (simp only: risk_percent_texts_def Let_def risk_counts.simps or_default_nat)
qed

lemma risk_percent_texts_no_total:
  assumes "\<not> js_gt (risk_total counts) (Fin 0)"
  shows "risk_percent_texts e counts = (''0%'', ''0%'', ''0%'')"
  using assms by (simp add: risk_percent_texts_def Let_def risk_total_def percent_text_no_total)

lemma risk_total_absent:
  "risk_total \<lparr>low = None, medium = None, high = None\<rparr> = Fin 0"
  by (simp add: risk_total_def or_default_def number_value_def)

text \<open>
  Claim C5 (as amended). For the counts 0, 0, 0 the three labels are "0%". For counts
  whose total is positive and at most \<open>2^44\<close>, each label is a natural number followed by
  "%", and the number is within one half of the count's share of the total in percent:
  the share rounded to a nearest integer. In addition, the three labels are "0%" for
  every record of counts, with counts absent or not numbers too, whose total is not
  greater than 0, so that no label is "NaN%" there.
\<close>

theorem risk_percent_texts_shares:
  fixes l m h :: nat
  shows "risk_percent_texts e \<lparr>low = Some (Fin 0), medium = Some (Fin 0), high = Some (Fin 0)\<rparr>
           = (''0%'', ''0%'', ''0%'')
    \<and> (\<not> js_gt (risk_total counts) (Fin 0) \<longrightarrow>
          risk_percent_texts e counts = (''0%'', ''0%'', ''0%''))
    \<and> (0 < l + m + h \<and> l + m + h \<le> 2 ^ 44 \<longrightarrow>
        (\<exists>rl rm rh :: nat.
           risk_percent_texts e
             \<lparr>low = Some (Fin (of_nat l)), medium = Some (Fin (of_nat m)),
              high = Some (Fin (of_nat h))\<rparr>
             = (digits rl @ ''%'', digits rm @ ''%'', digits rh @ ''%'')
           \<and> \<bar>of_nat rl - 100 * of_nat l / (of_nat (l + m + h) :: rat)\<bar> \<le> 1 / 2
           \<and> \<bar>of_nat rm - 100 * of_nat m / (of_nat (l + m + h) :: rat)\<bar> \<le> 1 / 2
           \<and> \<bar>of_nat rh - 100 * of_nat h / (of_nat (l + m + h) :: rat)\<bar> \<le> 1 / 2))"
proof -
  have zero: "risk_percent_texts e
      \<lparr>low = Some (Fin 0), medium = Some (Fin 0), high = Some (Fin 0)\<rparr>
      = (''0%'', ''0%'', ''0%'')"
    by (simp add: risk_percent_texts_def or_default_def number_value_def percent_text_def
        js_gt_def)
  have none: "risk_percent_texts e counts = (''0%'', ''0%'', ''0%'')"
    if "\<not> js_gt (risk_total counts) (Fin 0)"
    using that by (rule risk_percent_texts_no_total)
  have pos: "\<exists>rl rm rh :: nat.
           risk_percent_texts e
             \<lparr>low = Some (Fin (of_nat l)), medium = Some (Fin (of_nat m)),
              high = Some (Fin (of_nat h))\<rparr>
             = (digits rl @ ''%'', digits rm @ ''%'', digits rh @ ''%'')
           \<and> \<bar>of_nat rl - 100 * of_nat l / (of_nat (l + m + h) :: rat)\<bar> \<le> 1 / 2
           \<and> \<bar>of_nat rm - 100 * of_nat m / (of_nat (l + m + h) :: rat)\<bar> \<le> 1 / 2
           \<and> \<bar>of_nat rh - 100 * of_nat h / (of_nat (l + m + h) :: rat)\<bar> \<le> 1 / 2"
    if T: "0 < l + m + h" "l + m + h \<le> 2 ^ 44"
  proof -
    from percent_text_nat [OF T, of l e] obtain rl :: nat where
      rl: "percent_text e (Fin (of_nat l)) (Fin (of_nat (l + m + h))) = digits rl @ ''%''"
        "\<bar>of_nat rl - 100 * of_nat l / (of_nat (l + m + h) :: rat)\<bar> \<le> 1 / 2"
      by auto
    from percent_text_nat [OF T, of m e] obtain rm :: nat where
      rm: "percent_text e (Fin (of_nat m)) (Fin (of_nat (l + m + h))) = digits rm @ ''%''"
        "\<bar>of_nat rm - 100 * of_nat m / (of_nat (l + m + h) :: rat)\<bar> \<le> 1 / 2"
      by auto
    from percent_text_nat [OF T, of h e] obtain rh :: nat where
      rh: "percent_text e (Fin (of_nat h)) (Fin (of_nat (l + m + h))) = digits rh @ ''%''"
        "\<bar>of_nat rh - 100 * of_nat h / (of_nat (l + m + h) :: rat)\<bar> \<le> 1 / 2"
      by auto
    from rl rm rh show ?thesis
      unfolding risk_percent_texts_nat [OF T] by blast
  qed
  from zero none pos show ?thesis by blast
qed

theorem risk_percent_texts_shares_witness:
  "risk_percent_texts dashboard_env \<lparr>low = None, medium = None, high = None\<rparr>
     = (''0%'', ''0%'', ''0%'')
   \<and> (\<exists>rl rm rh :: nat.
       risk_percent_texts dashboard_env
         \<lparr>low = Some (Fin 560), medium = Some (Fin 437), high = Some (Fin 250)\<rparr>
         = (digits rl @ ''%'', digits rm @ ''%'', digits rh @ ''%'')
       \<and> \<bar>of_nat rl - 100 * 560 / (1247 :: rat)\<bar> \<le> 1 / 2
       \<and> \<bar>of_nat rm - 100 * 437 / (1247 :: rat)\<bar> \<le> 1 / 2
       \<and> \<bar>of_nat rh - 100 * 250 / (1247 :: rat)\<bar> \<le> 1 / 2)"
proof -
  have absent: "\<not> js_gt (risk_total \<lparr>low = None, medium = None, high = None\<rparr>) (Fin 0)"
    by (simp add: risk_total_absent js_gt_def)
  from risk_percent_texts_shares [of dashboard_env
      "\<lparr>low = None, medium = None, high = None\<rparr>" 560 437 250] absent
  show ?thesis by simp
qed

text \<open>
  The claim as stated fails for large counts: with 63955314809041 low and 3722266999468
  medium the low share is below 94.5 percent, the two roundings give exactly 94.5, and
  the label is "95%".
\<close>

theorem risk_percent_texts_counterexample:
  "fst (risk_percent_texts dashboard_env
          \<lparr>low = Some (Fin 63955314809041), medium = Some (Fin 3722266999468),
           high = Some (Fin 0)\<rparr>) = ''95%''
   \<and> 0 < (63955314809041 + 3722266999468 + 0 :: rat)
   \<and> \<not> \<bar>95 - 100 * 63955314809041 / (63955314809041 + 3722266999468 + 0 :: rat)\<bar> \<le> 1 / 2"
proof -
  have total: "number_value 67677581808509 = Fin 67677581808509"
    using number_value_of_int [of 67677581808509] by simp
  have quotient: "number_value (63955314809041 / 67677581808509)
      = Fin (8511803295730237 / 9007199254740992)"
    by (subst number_value_pos_small) (simp_all add: fl_pos_share_example)
  have product: "number_value (8511803295730237 / 9007199254740992 * 100) = Fin (189 / 2)"
    by (subst number_value_pos_small) (simp_all add: fl_pos_share_example)
  have round: "\<lfloor>189 / 2 + 1 / 2 :: rat\<rfloor> = 95" by simp
  have "fst (risk_percent_texts dashboard_env
          \<lparr>low = Some (Fin 63955314809041), medium = Some (Fin 3722266999468),
           high = Some (Fin 0)\<rparr>) = ''95%''"
    using product round
    by (simp add: risk_percent_texts_def or_default_def total percent_text_def js_gt_def
        quotient Math_round_def Number_toString_def digits.simps)
  then show ?thesis by simp
qed

subsection \<open>Timers\<close>

lemma timers_showNotification:
  "timers (showNotification msg type p)
     = timers p
       @ [\<lparr>timer_target = Toast_element (next_id p), timer_callback = Toast_show,
           timer_delay = 10, timer_repeats = False\<rparr>,
          \<lparr>timer_target = Toast_element (next_id p), timer_callback = Toast_hide_then_remove,
           timer_delay = 3000, timer_repeats = False\<rparr>]"
  by (simp add: showNotification_def Let_def setTimeout_def split: option.splits)

lemma timers_dash_showNotification:
  "dash_timers (dash_showNotification msg type d)
     = dash_timers d
       @ [\<lparr>timer_target = Toast_element (case dash_notification d of
                                             None \<Rightarrow> dash_next_id d | Some n \<Rightarrow> toast_id n),
           timer_callback = Toast_show, timer_delay = 10, timer_repeats = False\<rparr>,
          \<lparr>timer_target = Toast_element (case dash_notification d of
                                             None \<Rightarrow> dash_next_id d | Some n \<Rightarrow> toast_id n),
           timer_callback = Toast_hide_then_remove, timer_delay = 3000,
           timer_repeats = False\<rparr>]"
  by (simp add: dash_showNotification_def Let_def setTimeout_def split: option.splits)

lemma notification_dash_showNotification:
  "dash_notification (dash_showNotification msg type d)
     = Some \<lparr>toast_id = (case dash_notification d of
                            None \<Rightarrow> dash_next_id d | Some n \<Rightarrow> toast_id n),
             toast_message = msg, toast_type = type,
             toast_shown = (case dash_notification d of
                              None \<Rightarrow> False | Some n \<Rightarrow> toast_shown n)\<rparr>"
  by (simp add: dash_showNotification_def Let_def split: option.splits)


lemma timers_animateCounter:
  "timers (animateCounter elem target p)
     = timers p @ [\<lparr>timer_target = Element elem, timer_callback = Counter_step target,
                    timer_delay = 20, timer_repeats = True\<rparr>]"
  by (simp add: animateCounter_def setInterval_def)

lemma timers_dash_animateCounter:
  "dash_timers (dash_animateCounter elem target d)
     = dash_timers d @ [\<lparr>timer_target = Element elem, timer_callback = Counter_step target,
                         timer_delay = 50, timer_repeats = True\<rparr>]"
  by (simp add: dash_animateCounter_def setInterval_def)

text \<open>
  Claim C9 (as amended). A repeated trigger clears and resets nothing: on both pages a
  notification and a counter animation leave the timers that were pending as they are
  and add their new timers after them. On the prediction
  page a notification is a new element, so, when the pending notification timers target
  elements that exist, none of them targets the element of the new timers, and the new
  element has one pending timer that hides it. On the dashboard the notification
  element in the document is reused: the new timers target it, and its pending hide
  timers become one more. A counter animation adds one interval timer for its element
  to those pending for it, on both pages.
\<close>

theorem timers_never_cleared:
  "(\<exists>new. timers (showNotification msg type p) = timers p @ new
        \<and> (\<forall>t \<in> set new. timer_target t = Toast_element (next_id p)))
   \<and> (\<exists>new. dash_timers (dash_showNotification msg type d) = dash_timers d @ new)
   \<and> (\<exists>new. timers (animateCounter elem target p) = timers p @ [new]
        \<and> timer_target new = Element elem \<and> timer_repeats new)
   \<and> (\<exists>new. dash_timers (dash_animateCounter elem target d) = dash_timers d @ [new]
        \<and> timer_target new = Element elem \<and> timer_repeats new)
   \<and> (toast_timers_known p \<longrightarrow>
        toast_timers_known (showNotification msg type p)
        \<and> dismiss_timers (next_id p) (timers p) = []
        \<and> length (dismiss_timers (next_id p) (timers (showNotification msg type p))) = 1)
   \<and> (\<forall>n. dash_notification d = Some n \<longrightarrow>
        (\<exists>new. dash_timers (dash_showNotification msg type d) = dash_timers d @ new
           \<and> (\<forall>t \<in> set new. timer_target t = Toast_element (toast_id n)))
        \<and> map_option toast_id (dash_notification (dash_showNotification msg type d))
            = Some (toast_id n)
        \<and> length (dismiss_timers (toast_id n) (dash_timers (dash_showNotification msg type d)))
            = Suc (length (dismiss_timers (toast_id n) (dash_timers d))))
   \<and> length (counter_timers elem (timers (animateCounter elem target p)))
        = Suc (length (counter_timers elem (timers p)))
   \<and> length (counter_timers elem (dash_timers (dash_animateCounter elem target d)))
        = Suc (length (counter_timers elem (dash_timers d)))"
proof -
  have form: "\<exists>new. timers (showNotification msg type p) = timers p @ new
        \<and> (\<forall>t \<in> set new. timer_target t = Toast_element (next_id p))"
    by (simp add: timers_showNotification)
  have kept: "\<exists>new. dash_timers (dash_showNotification msg type d) = dash_timers d @ new"
    by (simp add: timers_dash_showNotification)
  have added: "\<exists>new. timers (animateCounter elem target p) = timers p @ [new]
        \<and> timer_target new = Element elem \<and> timer_repeats new"
    "\<exists>new. dash_timers (dash_animateCounter elem target d) = dash_timers d @ [new]
        \<and> timer_target new = Element elem \<and> timer_repeats new"
    by (simp_all add: timers_animateCounter timers_dash_animateCounter)
  have fresh: "toast_timers_known (showNotification msg type p)
        \<and> dismiss_timers (next_id p) (timers p) = []
        \<and> length (dismiss_timers (next_id p) (timers (showNotification msg type p))) = 1"
    if known: "toast_timers_known p"
  proof -
    from known have none: "dismiss_timers (next_id p) (timers p) = []"
      by (auto simp: toast_timers_known_def dismiss_timers_def filter_empty_conv)
    from known have "toast_timers_known (showNotification msg type p)"
      by (auto simp: toast_timers_known_def timers_showNotification less_Suc_eq)
    with none show ?thesis
      by (simp add: timers_showNotification dismiss_timers_def)
  qed
  have dash: "(\<exists>new. dash_timers (dash_showNotification msg type d) = dash_timers d @ new
           \<and> (\<forall>t \<in> set new. timer_target t = Toast_element (toast_id n)))
        \<and> map_option toast_id (dash_notification (dash_showNotification msg type d))
            = Some (toast_id n)
        \<and> length (dismiss_timers (toast_id n) (dash_timers (dash_showNotification msg type d)))
            = Suc (length (dismiss_timers (toast_id n) (dash_timers d)))"
    if "dash_notification d = Some n" for n
    using that
    by (simp add: timers_dash_showNotification notification_dash_showNotification
        dismiss_timers_def)
  have counters: "length (counter_timers elem (timers (animateCounter elem target p)))
        = Suc (length (counter_timers elem (timers p)))"
    "length (counter_timers elem (dash_timers (dash_animateCounter elem target d)))
        = Suc (length (counter_timers elem (dash_timers d)))"
    by (simp_all add: timers_animateCounter timers_dash_animateCounter counter_timers_def)
  from form kept added fresh dash counters show ?thesis
    by (intro conjI allI impI) (assumption | blast)+
qed

lemma initial_page_known: "toast_timers_known initial_page"
  by (simp add: toast_timers_known_def initial_page_def)

theorem timers_never_cleared_witness:
  "length (dismiss_timers 0 (timers (showNotification ''Dashboard updated successfully''
             ''success'' initial_page))) = 1
   \<and> length (dismiss_timers 0
        (dash_timers (dash_showNotification ''Dashboard updated successfully'' ''success''
           (dash_showNotification ''Filter updated to Last 7 days'' ''info''
              initial_dashboard))))
      = Suc (length (dismiss_timers 0
          (dash_timers (dash_showNotification ''Filter updated to Last 7 days'' ''info''
             initial_dashboard))))"
proof -
  have n: "next_id initial_page = 0" by (simp add: initial_page_def)
  have first: "dash_notification
      (dash_showNotification ''Filter updated to Last 7 days'' ''info'' initial_dashboard)
      = Some \<lparr>toast_id = 0, toast_message = ''Filter updated to Last 7 days'',
              toast_type = ''info'', toast_shown = False\<rparr>"
    by (simp add: notification_dash_showNotification initial_dashboard_def)
  note rules = timers_never_cleared [where msg = "''Dashboard updated successfully''"
        and type = "''success''" and p = initial_page
        and d = "dash_showNotification ''Filter updated to Last 7 days'' ''info''
                   initial_dashboard"
        and elem = "''totalPredictions''" and target = "Fin 1247"]
  from rules have form: "toast_timers_known initial_page \<longrightarrow>
        toast_timers_known (showNotification ''Dashboard updated successfully'' ''success''
                              initial_page)
        \<and> dismiss_timers (next_id initial_page) (timers initial_page) = []
        \<and> length (dismiss_timers (next_id initial_page)
             (timers (showNotification ''Dashboard updated successfully'' ''success''
                        initial_page))) = 1"
    by (elim conjE) assumption
  from rules have dash: "\<forall>n. dash_notification
          (dash_showNotification ''Filter updated to Last 7 days'' ''info'' initial_dashboard)
          = Some n \<longrightarrow>
        (\<exists>new. dash_timers (dash_showNotification ''Dashboard updated successfully'' ''success''
             (dash_showNotification ''Filter updated to Last 7 days'' ''info''
                initial_dashboard))
           = dash_timers (dash_showNotification ''Filter updated to Last 7 days'' ''info''
                initial_dashboard) @ new
           \<and> (\<forall>t \<in> set new. timer_target t = Toast_element (toast_id n)))
        \<and> map_option toast_id (dash_notification
             (dash_showNotification ''Dashboard updated successfully'' ''success''
                (dash_showNotification ''Filter updated to Last 7 days'' ''info''
                   initial_dashboard)))
            = Some (toast_id n)
        \<and> length (dismiss_timers (toast_id n)
             (dash_timers (dash_showNotification ''Dashboard updated successfully'' ''success''
                (dash_showNotification ''Filter updated to Last 7 days'' ''info''
                   initial_dashboard))))
            = Suc (length (dismiss_timers (toast_id n)
                (dash_timers (dash_showNotification ''Filter updated to Last 7 days'' ''info''
                   initial_dashboard))))"
    by (elim conjE) assumption
  from form initial_page_known n
  have a: "length (dismiss_timers 0 (timers (showNotification ''Dashboard updated successfully''
             ''success'' initial_page))) = 1"
    by simp
  from dash [rule_format, OF first]
  have b: "length (dismiss_timers 0
        (dash_timers (dash_showNotification ''Dashboard updated successfully'' ''success''
           (dash_showNotification ''Filter updated to Last 7 days'' ''info''
              initial_dashboard))))
      = Suc (length (dismiss_timers 0
          (dash_timers (dash_showNotification ''Filter updated to Last 7 days'' ''info''
             initial_dashboard))))"
    by simp
  from a b show ?thesis by (intro conjI)
qed

text \<open>
  The claim as stated fails on the dashboard: a second notification while the first is
  in the document leaves two pending timers that hide the same element, and a second
  counter animation of the total leaves two pending intervals on the same element.
\<close>

theorem timers_counterexample:
  "length (dismiss_timers 0
      (dash_timers (dash_showNotification ''Dashboard updated successfully'' ''success''
         (dash_showNotification ''Filter updated to Last 7 days'' ''info''
            initial_dashboard)))) = 2
   \<and> length (counter_timers ''totalPredictions''
      (dash_timers (dash_animateCounter ''totalPredictions'' (Fin 1300)
         (dash_animateCounter ''totalPredictions'' (Fin 1247) initial_dashboard)))) = 2"
  by (simp add: timers_dash_showNotification notification_dash_showNotification
      timers_dash_animateCounter dismiss_timers_def counter_timers_def initial_dashboard_def)

subsection \<open>The registry of charts\<close>

lemma update_or_create_existing:
  assumes "map_of (charts d) name = Some i"
  shows "charts (update_or_create name w c d) = charts d"
    and "map chart_canvas (chart_instances (update_or_create name w c d))
           = map chart_canvas (chart_instances d)"
    and "length (chart_instances (update_or_create name w c d)) = length (chart_instances d)"
    and "i < length (chart_instances d) \<Longrightarrow>
           chart_data (chart_instances (update_or_create name w c d) ! i) = chart_data c"
    and "j \<noteq> i \<Longrightarrow> chart_instances (update_or_create name w c d) ! j = chart_instances d ! j"
proof -
  let ?xs = "chart_instances d"
  have eq: "update_or_create name w c d
      = d\<lparr>chart_instances := ?xs[i := (?xs ! i)
            \<lparr>chart_labels := (if w then chart_labels c else chart_labels (?xs ! i)),
             chart_data := chart_data c, chart_updates := chart_updates (?xs ! i) + 1\<rparr>]\<rparr>"
    using assms by (simp add: update_or_create_def)
  show "charts (update_or_create name w c d) = charts d" by (simp add: eq)
  show "length (chart_instances (update_or_create name w c d)) = length ?xs" by (simp add: eq)
  show "map chart_canvas (chart_instances (update_or_create name w c d)) = map chart_canvas ?xs"
  proof (cases "i < length ?xs")
    case True
    then show ?thesis by (simp add: eq map_update list_update_same_conv)
  next
    case False
    then show ?thesis by (simp add: eq list_update_beyond)
  qed
  show "chart_data (chart_instances (update_or_create name w c d) ! i) = chart_data c"
    if "i < length ?xs"
    using that by (simp add: eq)
  show "chart_instances (update_or_create name w c d) ! j = ?xs ! j" if "j \<noteq> i"
    using that by (simp add: eq)
qed

lemma update_or_create_new:
  assumes "map_of (charts d) name = None"
  shows "charts (update_or_create name w c d) = charts d @ [(name, length (chart_instances d))]"
    and "chart_instances (update_or_create name w c d) = chart_instances d @ [c]"
  using assms by (simp_all add: update_or_create_def)

lemma update_or_create_other_fields [simp]:
  "texts (update_or_create name w c d) = texts d"
  "dashboardData (update_or_create name w c d) = dashboardData d"
  "feed (update_or_create name w c d) = feed d"
  "dash_notification (update_or_create name w c d) = dash_notification d"
  "dash_timers (update_or_create name w c d) = dash_timers d"
  "dash_loading (update_or_create name w c d) = dash_loading d"
  "dash_next_id (update_or_create name w c d) = dash_next_id d"
  "random_calls (update_or_create name w c d) = random_calls d"
  by (simp_all add: update_or_create_def split: option.splits)

text \<open>
  The \<open>j\<close>-th chart function, run when the charts before it are registered, leaves the
  charts up to the \<open>j\<close>-th registered, and the data of the \<open>j\<close>-th chart is the new data.
\<close>

lemma take_full_registry:
  "take 0 full_registry = []"
  "take (Suc 0) full_registry = [(''riskDistribution'', 0)]"
  "take 2 full_registry = [(''riskDistribution'', 0), (''featureImportance'', 1)]"
  "take 3 full_registry
     = [(''riskDistribution'', 0), (''featureImportance'', 1), (''hourlyTrend'', 2)]"
  "take 4 full_registry
     = [(''riskDistribution'', 0), (''featureImportance'', 1), (''hourlyTrend'', 2),
        (''performance'', 3)]"
  "take 5 full_registry = full_registry"
  by (simp_all add: full_registry_def)

lemma registry_names:
  "fst (full_registry ! 0) = ''riskDistribution''"
  "fst (full_registry ! Suc 0) = ''featureImportance''"
  "fst (full_registry ! 2) = ''hourlyTrend''"
  "fst (full_registry ! 3) = ''performance''"
  "fst (full_registry ! 4) = ''ageDistribution''"
  by (simp_all add: full_registry_def)

lemma up_to_five:
  fixes k :: nat
  assumes "k \<le> 5"
  shows "k = 0 \<or> k = Suc 0 \<or> k = 2 \<or> k = 3 \<or> k = 4 \<or> k = 5"
  using assms by linarith

lemma registered_lookup:
  assumes "registered_upto k d" "j < 5"
  shows "map_of (charts d) (fst (full_registry ! j)) = (if j < k then Some j else None)"
proof -
  from assms(1) have k: "k \<le> 5" and c: "charts d = take k full_registry"
    by (simp_all add: registered_upto_def)
  from assms(2) have j: "j = 0 \<or> j = Suc 0 \<or> j = 2 \<or> j = 3 \<or> j = 4" by linarith
  from up_to_five [OF k] show ?thesis
  proof (elim disjE)
    assume "k = 0"
    then show ?thesis using j by (auto simp: c take_full_registry)
  next
    assume "k = Suc 0"
    then show ?thesis using j by (auto simp: c take_full_registry registry_names)
  next
    assume "k = 2"
    then show ?thesis using j by (auto simp: c take_full_registry registry_names)
  next
    assume "k = 3"
    then show ?thesis using j by (auto simp: c take_full_registry registry_names)
  next
    assume "k = 4"
    then show ?thesis using j by (auto simp: c take_full_registry registry_names)
  next
    assume "k = 5"
    then show ?thesis using j
      by (auto simp: c take_full_registry registry_names) (simp_all add: full_registry_def)
  qed
qed


lemma registry_indices:
  assumes "j < 5"
  shows "full_registry ! j = (fst (full_registry ! j), j)"
proof -
  from assms have "j = 0 \<or> j = Suc 0 \<or> j = 2 \<or> j = 3 \<or> j = 4" by linarith
  then show ?thesis by (auto simp: full_registry_def)
qed

lemma registered_length:
  assumes "registered_upto k d"
  shows "length (chart_instances d) = k"
proof -
  from assms have k: "k \<le> 5"
    and cv: "map chart_canvas (chart_instances d) = take k five_canvases"
    by (simp_all add: registered_upto_def)
  have "length (chart_instances d) = length (map chart_canvas (chart_instances d))" by simp
  also have "\<dots> = length (take k five_canvases)" by (simp only: cv)
  also have "\<dots> = k" using k by (simp add: five_canvases_def)
  finally show ?thesis .
qed

lemma registered_step:
  assumes r: "registered_upto k d" and j: "j < 5" "j \<le> k"
    and c: "chart_canvas c = five_canvases ! j"
  shows "registered_upto (max k (Suc j)) (update_or_create (fst (full_registry ! j)) w c d)"
    and "chart_data (chart_instances (update_or_create (fst (full_registry ! j)) w c d) ! j)
           = chart_data c"
    and "\<And>i. i \<noteq> j \<Longrightarrow> i < k \<Longrightarrow>
           chart_instances (update_or_create (fst (full_registry ! j)) w c d) ! i
             = chart_instances d ! i"
proof -
  let ?name = "fst (full_registry ! j)"
  let ?d = "update_or_create ?name w c d"
  from r have k: "k \<le> 5" and ch: "charts d = take k full_registry"
    and cv: "map chart_canvas (chart_instances d) = take k five_canvases"
    by (simp_all add: registered_upto_def)
  note len = registered_length [OF r]
  note look = registered_lookup [OF r j(1)]
  have all: "registered_upto (max k (Suc j)) ?d \<and> chart_data (chart_instances ?d ! j) = chart_data c
      \<and> (\<forall>i. i \<noteq> j \<and> i < k \<longrightarrow> chart_instances ?d ! i = chart_instances d ! i)"
  proof (cases "j < k")
    case True
    with look have ex: "map_of (charts d) ?name = Some j" by simp
    from True have m: "max k (Suc j) = k" by simp
    have "registered_upto k ?d"
      using k ch cv update_or_create_existing (1,2) [OF ex, of w c]
      by (simp add: registered_upto_def)
    moreover have "chart_data (chart_instances ?d ! j) = chart_data c"
      using update_or_create_existing (4) [OF ex, of w c] True len by simp
    moreover have "\<forall>i. i \<noteq> j \<and> i < k \<longrightarrow> chart_instances ?d ! i = chart_instances d ! i"
      using update_or_create_existing (5) [OF ex, of _ w c] by simp
    ultimately show ?thesis by (simp add: m)
  next
    case False
    with j have jk: "j = k" by simp
    with look have nw: "map_of (charts d) ?name = None" by simp
    from jk have m: "max k (Suc j) = Suc k" by simp
    from jk j have k5: "k < 5" by simp
    have "charts ?d = take (Suc k) full_registry"
    proof -
      have "charts ?d = take k full_registry @ [(?name, k)]"
        using update_or_create_new (1) [OF nw, of w c] ch len by simp
      also have "(?name, k) = full_registry ! k"
        using registry_indices [OF j(1)] jk by simp
      also have "take k full_registry @ [full_registry ! k] = take (Suc k) full_registry"
      proof -
        have "k < length full_registry" using k5 by (simp add: full_registry_def)
        then show ?thesis by (rule take_Suc_conv_app_nth [symmetric])
      qed
      finally show ?thesis .
    qed
    moreover have "map chart_canvas (chart_instances ?d) = take (Suc k) five_canvases"
    proof -
      have "map chart_canvas (chart_instances ?d) = take k five_canvases @ [five_canvases ! k]"
        using update_or_create_new (2) [OF nw, of w c] cv c jk by simp
      also have "\<dots> = take (Suc k) five_canvases"
      proof -
        have "k < length five_canvases" using k5 by (simp add: five_canvases_def)
        then show ?thesis by (rule take_Suc_conv_app_nth [symmetric])
      qed
      finally show ?thesis .
    qed
    ultimately have "registered_upto (Suc k) ?d"
      using k5 by (simp add: registered_upto_def)
    moreover have "chart_data (chart_instances ?d ! j) = chart_data c"
      using update_or_create_new (2) [OF nw, of w c] jk len by (simp add: nth_append)
    moreover have "\<forall>i. i \<noteq> j \<and> i < k \<longrightarrow> chart_instances ?d ! i = chart_instances d ! i"
      using update_or_create_new (2) [OF nw, of w c] len by (simp add: nth_append)
    ultimately show ?thesis by (simp add: m)
  qed
  from all show "registered_upto (max k (Suc j)) ?d" by simp
  from all show "chart_data (chart_instances ?d ! j) = chart_data c" by simp
  from all show "\<And>i. i \<noteq> j \<Longrightarrow> i < k \<Longrightarrow> chart_instances ?d ! i = chart_instances d ! i"
    by simp
qed

lemma registered_upto_cong:
  assumes "charts d' = charts d" "chart_instances d' = chart_instances d"
  shows "registered_upto k d' = registered_upto k d"
  using assms by (simp add: registered_upto_def)

lemma set_text_fields [simp]:
  "charts (set_text a v d) = charts d"
  "chart_instances (set_text a v d) = chart_instances d"
  "dashboardData (set_text a v d) = dashboardData d"
  "feed (set_text a v d) = feed d"
  "dash_notification (set_text a v d) = dash_notification d"
  "dash_timers (set_text a v d) = dash_timers d"
  "dash_loading (set_text a v d) = dash_loading d"
  "random_calls (set_text a v d) = random_calls d"
  "texts (set_text a v d) = (texts d)(a \<mapsto> v)"
  by (simp_all add: set_text_def)

lemma registered_set_text [simp]: "registered_upto k (set_text a v d) = registered_upto k d"
  by (simp add: registered_upto_def)

lemma set_text_unguarded_present:
  "elem \<in> dom e \<Longrightarrow> set_text_unguarded e elem v d = (None, set_text elem v d)"
  by (simp add: set_text_unguarded_def)

lemma chart_pageD:
  assumes "chart_page e"
  shows "''riskDistributionChart'' \<in> dom e" "''lowRiskPercent'' \<in> dom e"
    "''mediumRiskPercent'' \<in> dom e" "''highRiskPercent'' \<in> dom e"
    "''featureImportanceChart'' \<in> dom e" "''hourlyTrendChart'' \<in> dom e"
    "''performanceChart'' \<in> dom e" "''precisionValue'' \<in> dom e" "''recallValue'' \<in> dom e"
    "''f1Value'' \<in> dom e" "''ageDistributionChart'' \<in> dom e"
  using assms by (simp_all add: chart_page_def)

lemma progress_return:
  "registered_upto k' d \<Longrightarrow> k \<le> k' \<Longrightarrow> j \<le> k' \<Longrightarrow> charts_progress k j (None, d)"
  by (auto simp: charts_progress_def)

lemma progress_throw:
  "registered_upto k' d \<Longrightarrow> k \<le> k' \<Longrightarrow> charts_progress k j (Some ex, d)"
  by (auto simp: charts_progress_def)

lemma progress_and_then:
  assumes "charts_progress k j r"
    and "\<And>d k'. registered_upto k' d \<Longrightarrow> k \<le> k' \<Longrightarrow> j \<le> k' \<Longrightarrow> charts_progress k' j' (f d)"
  shows "charts_progress k j' (and_then r f)"
proof (cases r)
  case (Pair x d)
  from assms(1) Pair obtain k' where
    k': "registered_upto k' d" "k \<le> k'" "x = None \<longrightarrow> j \<le> k'"
    by (auto simp: charts_progress_def)
  show ?thesis
  proof (cases x)
    case None
    with k' have "charts_progress k' j' (f d)" by (intro assms(2)) simp_all
    then obtain k'' where "registered_upto k'' (snd (f d))" "k' \<le> k''"
      "fst (f d) = None \<longrightarrow> j' \<le> k''"
      by (auto simp: charts_progress_def)
    with k'(2) have "charts_progress k j' (f d)"
      by (auto simp: charts_progress_def intro: exI [of _ k''])
    with Pair None show ?thesis by (simp add: and_then_def)
  next
    case (Some ex)
    with Pair k' show ?thesis
      by (auto simp: and_then_def charts_progress_def)
  qed
qed

lemma canvases:
  "five_canvases ! 0 = ''riskDistributionChart''"
  "five_canvases ! Suc 0 = ''featureImportanceChart''"
  "five_canvases ! 2 = ''hourlyTrendChart''"
  "five_canvases ! 3 = ''performanceChart''"
  "five_canvases ! 4 = ''ageDistributionChart''"
  by (simp_all add: five_canvases_def)

lemma chart_step_progress:
  assumes "registered_upto k d" "j < 5" "j \<le> k" "chart_canvas c = five_canvases ! j"
    "name = fst (full_registry ! j)"
  shows "charts_progress k (Suc j) (None, update_or_create name w c d)"
proof -
  have "registered_upto (max k (Suc j)) (update_or_create name w c d)"
    using registered_step (1) [OF assms(1-4)] assms(5) by simp
  then show ?thesis by (rule progress_return) simp_all
qed

lemma risk_chart_progress:
  assumes "chart_page e" "registered_upto k d"
  shows "charts_progress k (Suc 0) (updateRiskDistributionChart e x d)"
proof (cases x)
  case None
  with chart_pageD [OF assms(1)] assms(2) show ?thesis
    by (auto simp: updateRiskDistributionChart_def intro: progress_throw)
next
  case (Some counts)
  with chart_pageD [OF assms(1)] have "updateRiskDistributionChart e x d
      = (None, update_or_create ''riskDistribution'' False
                 \<lparr>chart_canvas = ''riskDistributionChart'', chart_type = ''doughnut'',
                  chart_labels = [''Low Risk'', ''Medium Risk'', ''High Risk''],
                  chart_data = [or_default (low counts) (Fin 0),
                                or_default (medium counts) (Fin 0),
                                or_default (high counts) (Fin 0)],
                  chart_updates = 0\<rparr>
                 (set_text ''highRiskPercent'' (snd (snd (risk_percent_texts e counts)))
                    (set_text ''mediumRiskPercent'' (fst (snd (risk_percent_texts e counts)))
                       (set_text ''lowRiskPercent'' (fst (risk_percent_texts e counts)) d))))"
    by (simp add: updateRiskDistributionChart_def set_text_unguarded_present and_then_def)
  moreover have "charts_progress k (Suc 0) \<dots>"
    by (rule chart_step_progress [where j = 0]) (simp_all add: assms canvases registry_names)
  ultimately show ?thesis by simp
qed


lemma chart_step_progress_numeral:
  assumes "registered_upto k d"
  shows "Suc 0 \<le> k \<Longrightarrow> chart_canvas c = ''featureImportanceChart'' \<Longrightarrow>
           charts_progress k 2 (None, update_or_create ''featureImportance'' w c d)"
    and "2 \<le> k \<Longrightarrow> chart_canvas c = ''hourlyTrendChart'' \<Longrightarrow>
           charts_progress k 3 (None, update_or_create ''hourlyTrend'' w c d)"
    and "3 \<le> k \<Longrightarrow> chart_canvas c = ''performanceChart'' \<Longrightarrow>
           charts_progress k 4 (None, update_or_create ''performance'' w c d)"
    and "4 \<le> k \<Longrightarrow> chart_canvas c = ''ageDistributionChart'' \<Longrightarrow>
           charts_progress k 5 (None, update_or_create ''ageDistribution'' w c d)"
proof -
  have "charts_progress k (Suc (Suc 0))
          (None, update_or_create (fst (full_registry ! Suc 0)) w c d)"
    if "Suc 0 \<le> k" "chart_canvas c = ''featureImportanceChart''"
    using that by (intro chart_step_progress [OF assms]) (simp_all add: canvases)
  moreover have "Suc (Suc 0) = 2" by simp
  ultimately show "Suc 0 \<le> k \<Longrightarrow> chart_canvas c = ''featureImportanceChart'' \<Longrightarrow>
           charts_progress k 2 (None, update_or_create ''featureImportance'' w c d)"
    by (simp add: registry_names)
  have "charts_progress k (Suc 2) (None, update_or_create (fst (full_registry ! 2)) w c d)"
    if "2 \<le> k" "chart_canvas c = ''hourlyTrendChart''"
    using that by (intro chart_step_progress [OF assms]) (simp_all add: canvases)
  then show "2 \<le> k \<Longrightarrow> chart_canvas c = ''hourlyTrendChart'' \<Longrightarrow>
           charts_progress k 3 (None, update_or_create ''hourlyTrend'' w c d)"
    by (simp add: registry_names)
  have "charts_progress k (Suc 3) (None, update_or_create (fst (full_registry ! 3)) w c d)"
    if "3 \<le> k" "chart_canvas c = ''performanceChart''"
    using that by (intro chart_step_progress [OF assms]) (simp_all add: canvases)
  then show "3 \<le> k \<Longrightarrow> chart_canvas c = ''performanceChart'' \<Longrightarrow>
           charts_progress k 4 (None, update_or_create ''performance'' w c d)"
    by (simp add: registry_names)
  have "charts_progress k (Suc 4) (None, update_or_create (fst (full_registry ! 4)) w c d)"
    if "4 \<le> k" "chart_canvas c = ''ageDistributionChart''"
    using that by (intro chart_step_progress [OF assms]) (simp_all add: canvases)
  then show "4 \<le> k \<Longrightarrow> chart_canvas c = ''ageDistributionChart'' \<Longrightarrow>
           charts_progress k 5 (None, update_or_create ''ageDistribution'' w c d)"
    by (simp add: registry_names)
qed

lemma feature_chart_progress:
  assumes "chart_page e" "registered_upto k d" "Suc 0 \<le> k"
  shows "charts_progress k 2 (updateFeatureImportanceChart e d)"
  using chart_pageD [OF assms(1)] assms(3)
  by (simp add: updateFeatureImportanceChart_def chart_step_progress_numeral (1) [OF assms(2)])

lemma registered_random_calls [simp]:
  "registered_upto k (d\<lparr>random_calls := n\<rparr>) = registered_upto k d"
  by (simp add: registered_upto_def)

lemma hourly_chart_progress:
  assumes "chart_page e" "registered_upto k d" "2 \<le> k"
  shows "charts_progress k 3 (updateHourlyTrendChart e x d)"
proof (cases x)
  case None
  with chart_pageD [OF assms(1)] assms(2) show ?thesis
    by (auto simp: updateHourlyTrendChart_def intro: progress_throw)
next
  case (Some trend)
  with chart_pageD [OF assms(1)] assms(2,3) show ?thesis
    by (auto simp: updateHourlyTrendChart_def Let_def split: option.splits
        intro!: chart_step_progress_numeral (2))
qed

lemma set_metric_text_cases:
  assumes "elem \<in> dom e"
  shows "set_metric_text e elem x d
    = (case x of None \<Rightarrow> (Some TypeError, d)
       | Some v \<Rightarrow> (None, set_text elem (toFixed1 e v @ ''%'') d))"
  using assms by (simp add: set_metric_text_def set_text_unguarded_present split: option.splits)

lemma performance_chart_progress:
  assumes "chart_page e" "registered_upto k d" "3 \<le> k"
  shows "charts_progress k 4 (updatePerformanceChart e x d)"
proof (cases x)
  case None
  with chart_pageD [OF assms(1)] assms(2) show ?thesis
    by (auto simp: updatePerformanceChart_def intro: progress_throw)
next
  case (Some ms)
  have thr: "charts_progress k 4 (Some TypeError, d')" if "registered_upto k d'" for d'
    using that by (rule progress_throw) simp
  from Some chart_pageD [OF assms(1)] assms(2,3) show ?thesis
    by (auto simp: updatePerformanceChart_def set_metric_text_cases and_then_def
        split: option.splits intro!: thr chart_step_progress_numeral (3))
qed

lemma age_chart_progress:
  assumes "chart_page e" "registered_upto k d" "4 \<le> k"
  shows "charts_progress k 5 (updateAgeDistributionChart e x d)"
proof (cases x)
  case None
  with chart_pageD [OF assms(1)] assms(2) show ?thesis
    by (auto simp: updateAgeDistributionChart_def intro: progress_throw)
next
  case (Some groups)
  with chart_pageD [OF assms(1)] assms(2,3) show ?thesis
    by (auto simp: updateAgeDistributionChart_def Let_def split: option.splits
        intro!: chart_step_progress_numeral (4))
qed

lemma updateCharts_progress:
  assumes "chart_page e" "registered_upto k d"
  shows "charts_progress k 5 (updateCharts e snap d)"
  unfolding updateCharts_def
  apply (rule progress_and_then [OF risk_chart_progress [OF assms]])
  apply (rule progress_and_then [OF feature_chart_progress [OF assms(1)]], assumption, simp)
  apply (rule progress_and_then [OF hourly_chart_progress [OF assms(1)]], assumption, simp)
  apply (rule progress_and_then [OF performance_chart_progress [OF assms(1)]], assumption, simp)
  apply (rule age_chart_progress [OF assms(1)], assumption, simp)
  done

lemma registry_frames [simp]:
  "charts (dash_animateCounter a t d) = charts d"
  "chart_instances (dash_animateCounter a t d) = chart_instances d"
  "charts (dash_showNotification msg type d) = charts d"
  "chart_instances (dash_showNotification msg type d) = chart_instances d"
  "charts (dash_showLoading e busy d) = charts d"
  "chart_instances (dash_showLoading e busy d) = chart_instances d"
  "charts (updatePredictionFeed e now recent ps d) = charts d"
  "chart_instances (updatePredictionFeed e now recent ps d) = chart_instances d"
  "charts (updateLastUpdateTime e now d) = charts d"
  "chart_instances (updateLastUpdateTime e now d) = chart_instances d"
  by (simp_all add: dash_animateCounter_def dash_showNotification_def dash_showLoading_def
      updatePredictionFeed_def updateLastUpdateTime_def Let_def split: option.splits)

lemma registered_frames [simp]:
  "registered_upto k (dash_animateCounter a t d) = registered_upto k d"
  "registered_upto k (dash_showNotification msg type d) = registered_upto k d"
  "registered_upto k (dash_showLoading e busy d) = registered_upto k d"
  "registered_upto k (updatePredictionFeed e now recent ps d) = registered_upto k d"
  "registered_upto k (updateLastUpdateTime e now d) = registered_upto k d"
  "registered_upto k (d\<lparr>dashboardData := s\<rparr>) = registered_upto k d"
  "registered_upto k (d\<lparr>dash_console := c\<rparr>) = registered_upto k d"
  by (simp_all add: registered_upto_def)

lemma updateStats_registered:
  "registered_upto k (snd (updateStats e ov d)) = registered_upto k d"
  by (simp add: updateStats_def and_then_def split: option.splits)

lemma updateStats_progress:
  assumes "registered_upto k d"
  shows "charts_progress k k (updateStats e ov d)"
proof -
  have "registered_upto k (snd (updateStats e ov d))"
    using assms by (simp add: updateStats_registered)
  then show ?thesis by (auto simp: charts_progress_def)
qed

lemma updateDashboard_progress:
  assumes "chart_page e" "registered_upto k d"
  shows "charts_progress k 5 (updateDashboard e now recent snap d)"
proof -
  have feed: "charts_progress k' 5 (None, updatePredictionFeed e now recent ps d')"
    if "registered_upto k' d'" "5 \<le> k'" for k' d' ps
    using that by (intro progress_return [where k' = k']) simp_all
  show ?thesis
    unfolding updateDashboard_def
    apply (rule progress_and_then [OF updateStats_progress [OF assms(2)]])
    apply (rule progress_and_then [OF updateCharts_progress [OF assms(1)]], assumption)
    apply (rule feed, assumption, assumption)
    done
qed

lemma registered_step_labels:
  assumes r: "registered_upto k d" and j: "j < 5" "j \<le> k"
  shows "chart_labels (chart_instances (update_or_create (fst (full_registry ! j)) True c d) ! j)
           = chart_labels c"
proof (cases "j < k")
  case True
  with registered_lookup [OF r j(1)] registered_length [OF r] show ?thesis
    by (simp add: update_or_create_def)
next
  case False
  with j have "j = k" by simp
  with registered_lookup [OF r j(1)] registered_length [OF r] show ?thesis
    by (simp add: update_or_create_def nth_append)
qed

lemma registered_step_all:
  assumes r: "registered_upto k d" and j: "j < 5" "j \<le> k"
    and c: "chart_canvas c = five_canvases ! j" and n: "name = fst (full_registry ! j)"
  shows "registered_upto (max k (Suc j)) (update_or_create name w c d)
     \<and> chart_data (chart_instances (update_or_create name w c d) ! j) = chart_data c
     \<and> (w \<longrightarrow> chart_labels (chart_instances (update_or_create name w c d) ! j) = chart_labels c)
     \<and> (\<forall>i. i \<noteq> j \<and> i < k
            \<longrightarrow> chart_instances (update_or_create name w c d) ! i = chart_instances d ! i)"
  using registered_step [OF r j c, where w = w] registered_step_labels [OF r j, where c = c] n
  by simp

subsection \<open>The texts of the placeholder snapshot\<close>

lemma nearest_nat:
  fixes r n :: nat and q :: rat
  assumes "\<bar>of_nat r - q\<bar> \<le> 1 / 2" "of_nat n - 1 / 2 < q" "q < of_nat n + 1 / 2"
  shows "r = n"
proof -
  from assms have "(of_nat r :: rat) < of_nat (n + 1)" "(of_nat n :: rat) < of_nat (r + 1)"
    unfolding abs_le_iff by simp_all
  then have "r < n + 1" "n < r + 1" by (simp_all only: of_nat_less_iff)
  then show ?thesis by simp
qed

lemma digits_examples:
  "digits 45 = ''45''" "digits 35 = ''35''" "digits 20 = ''20''"
  "digits 92 = ''92''" "digits 89 = ''89''" "digits 90 = ''90''" "digits 94 = ''94''"
  "digits 0 = ''0''" "digits 2 = ''2''"
  by (simp_all add: digits.simps)

lemma sample_percent_texts:
  "risk_percent_texts e \<lparr>low = Some (Fin 560), medium = Some (Fin 437), high = Some (Fin 250)\<rparr>
     = (''45%'', ''35%'', ''20%'')"
proof -
  have T: "0 < (1247::nat)" "(1247::nat) \<le> 2 ^ 44" by simp_all
  from percent_text_nat [OF T, of 560 e] obtain rl :: nat where
    rl: "percent_text e (Fin 560) (Fin 1247) = digits rl @ ''%''"
      "\<bar>of_nat rl - 100 * 560 / (1247 :: rat)\<bar> \<le> 1 / 2"
    by auto
  from percent_text_nat [OF T, of 437 e] obtain rm :: nat where
    rm: "percent_text e (Fin 437) (Fin 1247) = digits rm @ ''%''"
      "\<bar>of_nat rm - 100 * 437 / (1247 :: rat)\<bar> \<le> 1 / 2"
    by auto
  from percent_text_nat [OF T, of 250 e] obtain rh :: nat where
    rh: "percent_text e (Fin 250) (Fin 1247) = digits rh @ ''%''"
      "\<bar>of_nat rh - 100 * 250 / (1247 :: rat)\<bar> \<le> 1 / 2"
    by auto
  have "rl = 45" by (rule nearest_nat [OF rl(2)]) simp_all
  moreover have "rm = 35" by (rule nearest_nat [OF rm(2)]) simp_all
  moreover have "rh = 20" by (rule nearest_nat [OF rh(2)]) simp_all
  ultimately show ?thesis
    using risk_percent_texts_nat [of 560 437 250 e] rl(1) rm(1) rh(1)
    by (simp add: digits_examples)
qed

lemma sample_toFixed1:
  "toFixed1 e (Fin 92) = ''92.0''" "toFixed1 e (Fin 89) = ''89.0''"
  "toFixed1 e (Fin 90) = ''90.0''"
proof -
  have "\<lfloor>920 + 1 / 2 :: rat\<rfloor> = 920" "\<lfloor>890 + 1 / 2 :: rat\<rfloor> = 890"
    "\<lfloor>900 + 1 / 2 :: rat\<rfloor> = 900"
    by (simp_all add: floor_eq_iff)
  then show "toFixed1 e (Fin 92) = ''92.0''" "toFixed1 e (Fin 89) = ''89.0''"
    "toFixed1 e (Fin 90) = ''90.0''"
    by (simp_all add: toFixed1_def Let_def digits_examples)
qed

lemma fl_pos_sample: "fl_pos (471 / 5) = 6628735701535949 / 70368744177664"
  by code_simp

lemma sample_accuracy: "toFixed1 e (number_value (471 / 5)) = ''94.2''"
proof -
  have nv: "number_value (471 / 5) = Fin (6628735701535949 / 70368744177664)"
    by (subst number_value_pos_small) (simp_all add: fl_pos_sample)
  have "\<lfloor>6628735701535949 / 70368744177664 * 10 + 1 / 2 :: rat\<rfloor> = 942"
    by (simp add: floor_eq_iff)
  then show ?thesis
    by (simp add: nv toFixed1_def Let_def digits_examples)
qed

subsection \<open>What each step of a refresh leaves alone\<close>

lemma dash_showLoading_fields [simp]:
  "texts (dash_showLoading e busy d) = texts d"
  "dashboardData (dash_showLoading e busy d) = dashboardData d"
  "feed (dash_showLoading e busy d) = feed d"
  "dash_notification (dash_showLoading e busy d) = dash_notification d"
  "random_calls (dash_showLoading e busy d) = random_calls d"
  "dash_loading (dash_showLoading e busy d)
     = (if ''refreshFeed'' \<in> dom e then busy else dash_loading d)"
  by (simp_all add: dash_showLoading_def)

lemma dash_showNotification_fields [simp]:
  "texts (dash_showNotification msg type d) = texts d"
  "dashboardData (dash_showNotification msg type d) = dashboardData d"
  "feed (dash_showNotification msg type d) = feed d"
  "random_calls (dash_showNotification msg type d) = random_calls d"
  "dash_loading (dash_showNotification msg type d) = dash_loading d"
  by (simp_all add: dash_showNotification_def Let_def split: option.splits)

lemma dash_animateCounter_fields [simp]:
  "texts (dash_animateCounter a t d) = texts d"
  "dashboardData (dash_animateCounter a t d) = dashboardData d"
  "feed (dash_animateCounter a t d) = feed d"
  "dash_notification (dash_animateCounter a t d) = dash_notification d"
  "random_calls (dash_animateCounter a t d) = random_calls d"
  "dash_loading (dash_animateCounter a t d) = dash_loading d"
  by (simp_all add: dash_animateCounter_def)

lemma updateLastUpdateTime_fields [simp]:
  "dashboardData (updateLastUpdateTime e now d) = dashboardData d"
  "feed (updateLastUpdateTime e now d) = feed d"
  "dash_notification (updateLastUpdateTime e now d) = dash_notification d"
  "random_calls (updateLastUpdateTime e now d) = random_calls d"
  "dash_loading (updateLastUpdateTime e now d) = dash_loading d"
  "texts (updateLastUpdateTime e now d)
     = (if ''lastUpdate'' \<in> dom e
        then (texts d)(''lastUpdate''
               \<mapsto> toLocaleTimeString e [''hour'', ''minute'', ''second''] now)
        else texts d)"
  by (simp_all add: updateLastUpdateTime_def)

lemma updatePredictionFeed_fields [simp]:
  "texts (updatePredictionFeed e now recent ps d) = texts d"
  "dashboardData (updatePredictionFeed e now recent ps d) = dashboardData d"
  "dash_notification (updatePredictionFeed e now recent ps d) = dash_notification d"
  "random_calls (updatePredictionFeed e now recent ps d) = random_calls d"
  "dash_loading (updatePredictionFeed e now recent ps d) = dash_loading d"
  by (simp_all add: updatePredictionFeed_def Let_def)

lemma updatePredictionFeed_timeline:
  assumes "''predictionFeed'' \<in> dom e" "ps \<noteq> []"
  shows "feed (updatePredictionFeed e now recent (Some ps) d)
     = Feed_items (map (\<lambda>(index, ev). feed_item_of e now (length ps) index ev) (enumerate 0 ps))"
  using assms by (simp add: updatePredictionFeed_def)

lemma updateStats_fields:
  "charts (snd (updateStats e ov d)) = charts d"
  "chart_instances (snd (updateStats e ov d)) = chart_instances d"
  "dashboardData (snd (updateStats e ov d)) = dashboardData d"
  "feed (snd (updateStats e ov d)) = feed d"
  "dash_notification (snd (updateStats e ov d)) = dash_notification d"
  "random_calls (snd (updateStats e ov d)) = random_calls d"
  "dash_loading (snd (updateStats e ov d)) = dash_loading d"
  by (simp_all add: updateStats_def and_then_def split: option.splits)

lemma updateStats_other_texts:
  assumes "x \<notin> {''totalPredictions'', ''accuracyRate'', ''avgResponse'', ''highRiskCount''}"
  shows "texts (snd (updateStats e ov d)) x = texts d x"
  using assms by (simp add: updateStats_def and_then_def split: option.splits)

lemma sampleData_fields:
  "snapshot_error (sampleData e now k0) = None"
  "overview (sampleData e now k0)
     = Some \<lparr>total_predictions = Some (Fin 1247), recent_predictions = Some (Fin 42),
             model_accuracy = Some (number_value (471 / 5)),
             avg_response_time = Some (number_value (3 / 10))\<rparr>"
  "risk_distribution (sampleData e now k0)
     = Some \<lparr>low = Some (Fin 560), medium = Some (Fin 437), high = Some (Fin 250)\<rparr>"
  "hourly_trend (sampleData e now k0)
     = Some \<lparr>trend_labels =
                Some [''00:00'', ''01:00'', ''02:00'', ''03:00'', ''04:00'', ''05:00'', ''06:00'',
                      ''07:00'', ''08:00'', ''09:00'', ''10:00'', ''11:00'', ''12:00'', ''13:00'',
                      ''14:00'', ''15:00'', ''16:00'', ''17:00'', ''18:00'', ''19:00'', ''20:00'',
                      ''21:00'', ''22:00'', ''23:00''],
              trend_data =
                Some [Fin 2, Fin 1, Fin 0, Fin 0, Fin 1, Fin 2, Fin 5, Fin 8, Fin 12, Fin 15,
                      Fin 18, Fin 20, Fin 22, Fin 21, Fin 19, Fin 17, Fin 15, Fin 13, Fin 10,
                      Fin 8, Fin 6, Fin 4, Fin 3, Fin 2]\<rparr>"
  "performance_metrics (sampleData e now k0)
     = Some \<lparr>precision = Some (Fin 92), recall = Some (Fin 89),
             f1_score = Some (Fin 90), auc_score = Some (Fin 94)\<rparr>"
  "feature_distribution (sampleData e now k0)
     = Some \<lparr>age_groups = Some [(''<30'', Fin 25), (''30-50'', Fin 45), (''>50'', Fin 30)]\<rparr>"
  "predictions_timeline (sampleData e now k0) = Some (map (sample_event e now k0) [0..<5])"
  by (simp_all add: sampleData_def)

lemma updateStats_sample:
  assumes "dashboardData d = Some (sampleData e now k0)"
  shows "fst (updateStats e (overview (sampleData e now k0)) d) = None"
    and "''totalPredictions'' \<in> dom e \<Longrightarrow>
           texts (snd (updateStats e (overview (sampleData e now k0)) d)) ''totalPredictions''
             = Some (toLocaleString e (Fin 1247))"
    and "''accuracyRate'' \<in> dom e \<Longrightarrow>
           texts (snd (updateStats e (overview (sampleData e now k0)) d)) ''accuracyRate''
             = Some ''94.2%''"
    and "''avgResponse'' \<in> dom e \<Longrightarrow>
           texts (snd (updateStats e (overview (sampleData e now k0)) d)) ''avgResponse''
             = Some (Number_toString e (number_value (3 / 10)) @ ''s'')"
    and "''highRiskCount'' \<in> dom e \<Longrightarrow>
           texts (snd (updateStats e (overview (sampleData e now k0)) d)) ''highRiskCount''
             = Some (toLocaleString e (Fin 250))"
  using assms
  by (simp_all add: updateStats_def and_then_def sampleData_fields sample_accuracy
      or_default_def)

subsection \<open>The charts of the placeholder snapshot\<close>

lemma updateCharts_sample_eq:
  assumes "chart_page e"
  shows "updateCharts e (sampleData e now k0) d
    = (None,
       update_or_create ''ageDistribution'' True
         \<lparr>chart_canvas = ''ageDistributionChart'', chart_type = ''bar'',
          chart_labels = [''<30'', ''30-50'', ''>50''],
          chart_data = [Fin 25, Fin 45, Fin 30], chart_updates = 0\<rparr>
       (update_or_create ''performance'' False
         \<lparr>chart_canvas = ''performanceChart'', chart_type = ''radar'',
          chart_labels = [''Precision'', ''Recall'', ''F1-Score'', ''AUC Score''],
          chart_data = [Fin 92, Fin 89, Fin 90, Fin 94], chart_updates = 0\<rparr>
       (set_text ''f1Value'' ''90.0%''
       (set_text ''recallValue'' ''89.0%''
       (set_text ''precisionValue'' ''92.0%''
       (update_or_create ''hourlyTrend'' True
         \<lparr>chart_canvas = ''hourlyTrendChart'', chart_type = ''line'',
          chart_labels =
            [''00:00'', ''01:00'', ''02:00'', ''03:00'', ''04:00'', ''05:00'', ''06:00'',
             ''07:00'', ''08:00'', ''09:00'', ''10:00'', ''11:00'', ''12:00'', ''13:00'',
             ''14:00'', ''15:00'', ''16:00'', ''17:00'', ''18:00'', ''19:00'', ''20:00'',
             ''21:00'', ''22:00'', ''23:00''],
          chart_data =
            [Fin 2, Fin 1, Fin 0, Fin 0, Fin 1, Fin 2, Fin 5, Fin 8, Fin 12, Fin 15,
             Fin 18, Fin 20, Fin 22, Fin 21, Fin 19, Fin 17, Fin 15, Fin 13, Fin 10,
             Fin 8, Fin 6, Fin 4, Fin 3, Fin 2],
          chart_updates = 0\<rparr>
       (update_or_create ''featureImportance'' False
         \<lparr>chart_canvas = ''featureImportanceChart'', chart_type = ''bar'',
          chart_labels = [''Glucose'', ''BMI'', ''Age'', ''Diabetes Pedigree'',
                          ''Blood Pressure'', ''Pregnancies'', ''Insulin'', ''Skin Thickness''],
          chart_data = [Fin 95, Fin 87, Fin 78, Fin 65, Fin 58, Fin 45, Fin 32, Fin 25],
          chart_updates = 0\<rparr>
       (update_or_create ''riskDistribution'' False
         \<lparr>chart_canvas = ''riskDistributionChart'', chart_type = ''doughnut'',
          chart_labels = [''Low Risk'', ''Medium Risk'', ''High Risk''],
          chart_data = [Fin 560, Fin 437, Fin 250], chart_updates = 0\<rparr>
       (set_text ''highRiskPercent'' ''20%''
       (set_text ''mediumRiskPercent'' ''35%''
       (set_text ''lowRiskPercent'' ''45%'' d)))))))))))"
proof -
  note page = chart_pageD [OF assms]
  have risk: "updateRiskDistributionChart e (risk_distribution (sampleData e now k0)) d
    = (None, update_or_create ''riskDistribution'' False
         \<lparr>chart_canvas = ''riskDistributionChart'', chart_type = ''doughnut'',
          chart_labels = [''Low Risk'', ''Medium Risk'', ''High Risk''],
          chart_data = [Fin 560, Fin 437, Fin 250], chart_updates = 0\<rparr>
       (set_text ''highRiskPercent'' ''20%''
       (set_text ''mediumRiskPercent'' ''35%''
       (set_text ''lowRiskPercent'' ''45%'' d))))" for d
    using page
    by (simp add: updateRiskDistributionChart_def sampleData_fields sample_percent_texts
        set_text_unguarded_present and_then_def or_default_def)
  have feature: "updateFeatureImportanceChart e d
    = (None, update_or_create ''featureImportance'' False
         \<lparr>chart_canvas = ''featureImportanceChart'', chart_type = ''bar'',
          chart_labels = [''Glucose'', ''BMI'', ''Age'', ''Diabetes Pedigree'',
                          ''Blood Pressure'', ''Pregnancies'', ''Insulin'', ''Skin Thickness''],
          chart_data = [Fin 95, Fin 87, Fin 78, Fin 65, Fin 58, Fin 45, Fin 32, Fin 25],
          chart_updates = 0\<rparr> d)" for d
    using page by (simp add: updateFeatureImportanceChart_def)
  have hourly: "updateHourlyTrendChart e (hourly_trend (sampleData e now k0)) d
    = (None, update_or_create ''hourlyTrend'' True
         \<lparr>chart_canvas = ''hourlyTrendChart'', chart_type = ''line'',
          chart_labels =
            [''00:00'', ''01:00'', ''02:00'', ''03:00'', ''04:00'', ''05:00'', ''06:00'',
             ''07:00'', ''08:00'', ''09:00'', ''10:00'', ''11:00'', ''12:00'', ''13:00'',
             ''14:00'', ''15:00'', ''16:00'', ''17:00'', ''18:00'', ''19:00'', ''20:00'',
             ''21:00'', ''22:00'', ''23:00''],
          chart_data =
            [Fin 2, Fin 1, Fin 0, Fin 0, Fin 1, Fin 2, Fin 5, Fin 8, Fin 12, Fin 15,
             Fin 18, Fin 20, Fin 22, Fin 21, Fin 19, Fin 17, Fin 15, Fin 13, Fin 10,
             Fin 8, Fin 6, Fin 4, Fin 3, Fin 2],
          chart_updates = 0\<rparr> d)" for d
    using page by (simp add: updateHourlyTrendChart_def sampleData_fields)
  have perf: "updatePerformanceChart e (performance_metrics (sampleData e now k0)) d
    = (None, update_or_create ''performance'' False
         \<lparr>chart_canvas = ''performanceChart'', chart_type = ''radar'',
          chart_labels = [''Precision'', ''Recall'', ''F1-Score'', ''AUC Score''],
          chart_data = [Fin 92, Fin 89, Fin 90, Fin 94], chart_updates = 0\<rparr>
       (set_text ''f1Value'' ''90.0%''
       (set_text ''recallValue'' ''89.0%''
       (set_text ''precisionValue'' ''92.0%'' d))))" for d
    using page
    by (simp add: updatePerformanceChart_def sampleData_fields set_metric_text_cases
        sample_toFixed1 and_then_def or_default_def)
  have age: "updateAgeDistributionChart e (feature_distribution (sampleData e now k0)) d
    = (None, update_or_create ''ageDistribution'' True
         \<lparr>chart_canvas = ''ageDistributionChart'', chart_type = ''bar'',
          chart_labels = [''<30'', ''30-50'', ''>50''],
          chart_data = [Fin 25, Fin 45, Fin 30], chart_updates = 0\<rparr> d)" for d
    using page by (simp add: updateAgeDistributionChart_def sampleData_fields)
  show ?thesis
    by (simp only: updateCharts_def risk feature hourly perf age and_then_def
        prod.case option.case)
qed

lemma five_chart_steps:
  fixes w0 w1 w3 :: bool and a1 a2 a3 v1 v2 v3 :: string
  assumes r: "registered_upto k d"
    and c: "chart_canvas c0 = ''riskDistributionChart''"
      "chart_canvas c1 = ''featureImportanceChart''" "chart_canvas c2 = ''hourlyTrendChart''"
      "chart_canvas c3 = ''performanceChart''" "chart_canvas c4 = ''ageDistributionChart''"
  defines "d1 \<equiv> update_or_create ''riskDistribution'' w0 c0 d"
  defines "d2 \<equiv> update_or_create ''featureImportance'' w1 c1 d1"
  defines "d3 \<equiv> update_or_create ''hourlyTrend'' True c2 d2"
  defines "d4 \<equiv> update_or_create ''performance'' w3 c3
                   (set_text a3 v3 (set_text a2 v2 (set_text a1 v1 d3)))"
  defines "d5 \<equiv> update_or_create ''ageDistribution'' True c4 d4"
  shows "registered_upto 5 d5"
    and "map chart_data (chart_instances d5)
           = [chart_data c0, chart_data c1, chart_data c2, chart_data c3, chart_data c4]"
    and "chart_labels (chart_instances d5 ! 2) = chart_labels c2"
    and "chart_labels (chart_instances d5 ! 4) = chart_labels c4"
proof -
  from r have k5: "k \<le> 5" by (simp add: registered_upto_def)
  define k1 where "k1 = max k (Suc 0)"
  define k2 where "k2 = max k1 (Suc (Suc 0))"
  define k3 where "k3 = max k2 (Suc 2)"
  define k4 where "k4 = max k3 (Suc 3)"
  have ks: "Suc 0 \<le> k1" "Suc 0 \<le> k2" "2 \<le> k2" "3 \<le> k3" "4 \<le> k4" "max k4 (Suc 4) = 5"
    using k5 by (simp_all add: k1_def k2_def k3_def k4_def)
  have s1: "registered_upto k1 d1 \<and> chart_data (chart_instances d1 ! 0) = chart_data c0"
    using registered_step_all [OF r, of 0 c0 "''riskDistribution''" w0] c(1)
    by (simp add: canvases registry_names d1_def k1_def)
  then have r1: "registered_upto k1 d1" by simp
  have s2: "registered_upto k2 d2 \<and> chart_data (chart_instances d2 ! Suc 0) = chart_data c1
      \<and> chart_instances d2 ! 0 = chart_instances d1 ! 0"
    using registered_step_all [OF r1, of "Suc 0" c1 "''featureImportance''" w1] c(2) ks(1)
    by (simp add: canvases registry_names d2_def k2_def)
  then have r2: "registered_upto k2 d2" by simp
  have s3: "registered_upto k3 d3 \<and> chart_data (chart_instances d3 ! 2) = chart_data c2
      \<and> chart_labels (chart_instances d3 ! 2) = chart_labels c2
      \<and> chart_instances d3 ! 0 = chart_instances d2 ! 0
      \<and> chart_instances d3 ! Suc 0 = chart_instances d2 ! Suc 0"
    using registered_step_all [OF r2, of 2 c2 "''hourlyTrend''" True] c(3) ks(2,3)
    by (simp add: canvases registry_names d3_def k3_def)
  then have r3: "registered_upto k3 (set_text a3 v3 (set_text a2 v2 (set_text a1 v1 d3)))"
    by simp
  have s4: "registered_upto k4 d4 \<and> chart_data (chart_instances d4 ! 3) = chart_data c3
      \<and> chart_instances d4 ! 0 = chart_instances d3 ! 0
      \<and> chart_instances d4 ! Suc 0 = chart_instances d3 ! Suc 0
      \<and> chart_instances d4 ! 2 = chart_instances d3 ! 2"
    using registered_step_all [OF r3, of 3 c3 "''performance''" w3] c(4) ks(4)
    by (simp add: canvases registry_names d4_def k4_def)
  then have r4: "registered_upto k4 d4" by simp
  have s5: "registered_upto 5 d5 \<and> chart_data (chart_instances d5 ! 4) = chart_data c4
      \<and> chart_labels (chart_instances d5 ! 4) = chart_labels c4
      \<and> chart_instances d5 ! 0 = chart_instances d4 ! 0
      \<and> chart_instances d5 ! Suc 0 = chart_instances d4 ! Suc 0
      \<and> chart_instances d5 ! 2 = chart_instances d4 ! 2
      \<and> chart_instances d5 ! 3 = chart_instances d4 ! 3"
    using registered_step_all [OF r4, of 4 c4 "''ageDistribution''" True] c(5) ks(5,6)
    by (simp add: canvases registry_names d5_def)
  then show r5: "registered_upto 5 d5" by simp
  have len: "length (chart_instances d5) = 5" by (rule registered_length [OF r5])
  have each: "chart_data (chart_instances d5 ! 0) = chart_data c0"
    "chart_data (chart_instances d5 ! Suc 0) = chart_data c1"
    "chart_data (chart_instances d5 ! 2) = chart_data c2"
    "chart_data (chart_instances d5 ! 3) = chart_data c3"
    "chart_data (chart_instances d5 ! 4) = chart_data c4"
    using s1 s2 s3 s4 s5 by simp_all
  have "map chart_data (chart_instances d5)
      = map (\<lambda>i. chart_data (chart_instances d5 ! i)) [0..<5]"
    using len by (intro nth_equalityI) simp_all
  also have "[0..<5] = [0, Suc 0, 2, 3, 4]" by (simp add: upt_rec)
  finally show "map chart_data (chart_instances d5)
           = [chart_data c0, chart_data c1, chart_data c2, chart_data c3, chart_data c4]"
    by (simp add: each)
  show "chart_labels (chart_instances d5 ! 2) = chart_labels c2"
    using s3 s4 s5 by simp
  show "chart_labels (chart_instances d5 ! 4) = chart_labels c4"
    using s5 by simp
qed

lemma updateCharts_sample:
  assumes "chart_page e" "registered_upto k d"
  shows "fst (updateCharts e (sampleData e now k0) d) = None"
    and "registered_upto 5 (snd (updateCharts e (sampleData e now k0) d))"
    and "map chart_data (chart_instances (snd (updateCharts e (sampleData e now k0) d)))
       = [[Fin 560, Fin 437, Fin 250],
          [Fin 95, Fin 87, Fin 78, Fin 65, Fin 58, Fin 45, Fin 32, Fin 25],
          [Fin 2, Fin 1, Fin 0, Fin 0, Fin 1, Fin 2, Fin 5, Fin 8, Fin 12, Fin 15,
           Fin 18, Fin 20, Fin 22, Fin 21, Fin 19, Fin 17, Fin 15, Fin 13, Fin 10,
           Fin 8, Fin 6, Fin 4, Fin 3, Fin 2],
          [Fin 92, Fin 89, Fin 90, Fin 94],
          [Fin 25, Fin 45, Fin 30]]"
    and "chart_labels (chart_instances (snd (updateCharts e (sampleData e now k0) d)) ! 2)
       = [''00:00'', ''01:00'', ''02:00'', ''03:00'', ''04:00'', ''05:00'', ''06:00'',
          ''07:00'', ''08:00'', ''09:00'', ''10:00'', ''11:00'', ''12:00'', ''13:00'',
          ''14:00'', ''15:00'', ''16:00'', ''17:00'', ''18:00'', ''19:00'', ''20:00'',
          ''21:00'', ''22:00'', ''23:00'']"
    and "chart_labels (chart_instances (snd (updateCharts e (sampleData e now k0) d)) ! 4)
       = [''<30'', ''30-50'', ''>50'']"
    and "texts (snd (updateCharts e (sampleData e now k0) d))
       = (texts d)(''lowRiskPercent'' \<mapsto> ''45%'', ''mediumRiskPercent'' \<mapsto> ''35%'',
                   ''highRiskPercent'' \<mapsto> ''20%'', ''precisionValue'' \<mapsto> ''92.0%'',
                   ''recallValue'' \<mapsto> ''89.0%'', ''f1Value'' \<mapsto> ''90.0%'')"
    and "dashboardData (snd (updateCharts e (sampleData e now k0) d)) = dashboardData d"
    and "feed (snd (updateCharts e (sampleData e now k0) d)) = feed d"
    and "dash_notification (snd (updateCharts e (sampleData e now k0) d)) = dash_notification d"
    and "random_calls (snd (updateCharts e (sampleData e now k0) d)) = random_calls d"
    and "dash_loading (snd (updateCharts e (sampleData e now k0) d)) = dash_loading d"
proof -
  note eq = updateCharts_sample_eq [OF assms(1), of now k0 d]
  have r: "registered_upto k
      (set_text ''highRiskPercent'' ''20%''
        (set_text ''mediumRiskPercent'' ''35%'' (set_text ''lowRiskPercent'' ''45%'' d)))"
    using assms(2) by simp
  note steps = five_chart_steps [OF r, where
      ?c0.0 = "\<lparr>chart_canvas = ''riskDistributionChart'', chart_type = ''doughnut'',
          chart_labels = [''Low Risk'', ''Medium Risk'', ''High Risk''],
          chart_data = [Fin 560, Fin 437, Fin 250], chart_updates = 0\<rparr>"
      and ?c1.0 = "\<lparr>chart_canvas = ''featureImportanceChart'', chart_type = ''bar'',
          chart_labels = [''Glucose'', ''BMI'', ''Age'', ''Diabetes Pedigree'',
                          ''Blood Pressure'', ''Pregnancies'', ''Insulin'', ''Skin Thickness''],
          chart_data = [Fin 95, Fin 87, Fin 78, Fin 65, Fin 58, Fin 45, Fin 32, Fin 25],
          chart_updates = 0\<rparr>"
      and ?c2.0 = "\<lparr>chart_canvas = ''hourlyTrendChart'', chart_type = ''line'',
          chart_labels =
            [''00:00'', ''01:00'', ''02:00'', ''03:00'', ''04:00'', ''05:00'', ''06:00'',
             ''07:00'', ''08:00'', ''09:00'', ''10:00'', ''11:00'', ''12:00'', ''13:00'',
             ''14:00'', ''15:00'', ''16:00'', ''17:00'', ''18:00'', ''19:00'', ''20:00'',
             ''21:00'', ''22:00'', ''23:00''],
          chart_data =
            [Fin 2, Fin 1, Fin 0, Fin 0, Fin 1, Fin 2, Fin 5, Fin 8, Fin 12, Fin 15,
             Fin 18, Fin 20, Fin 22, Fin 21, Fin 19, Fin 17, Fin 15, Fin 13, Fin 10,
             Fin 8, Fin 6, Fin 4, Fin 3, Fin 2],
          chart_updates = 0\<rparr>"
      and ?c3.0 = "\<lparr>chart_canvas = ''performanceChart'', chart_type = ''radar'',
          chart_labels = [''Precision'', ''Recall'', ''F1-Score'', ''AUC Score''],
          chart_data = [Fin 92, Fin 89, Fin 90, Fin 94], chart_updates = 0\<rparr>"
      and ?c4.0 = "\<lparr>chart_canvas = ''ageDistributionChart'', chart_type = ''bar'',
          chart_labels = [''<30'', ''30-50'', ''>50''],
          chart_data = [Fin 25, Fin 45, Fin 30], chart_updates = 0\<rparr>"
      and ?w0.0 = False and ?w1.0 = False and ?w3.0 = False
      and ?a1.0 = "''precisionValue''" and ?v1.0 = "''92.0%''"
      and ?a2.0 = "''recallValue''" and ?v2.0 = "''89.0%''"
      and ?a3.0 = "''f1Value''" and ?v3.0 = "''90.0%''", simplified chart.simps]
  show "fst (updateCharts e (sampleData e now k0) d) = None" by (simp only: eq fst_conv)
  show "registered_upto 5 (snd (updateCharts e (sampleData e now k0) d))"
    using steps(1) by (simp add: eq)
  show "map chart_data (chart_instances (snd (updateCharts e (sampleData e now k0) d)))
       = [[Fin 560, Fin 437, Fin 250],
          [Fin 95, Fin 87, Fin 78, Fin 65, Fin 58, Fin 45, Fin 32, Fin 25],
          [Fin 2, Fin 1, Fin 0, Fin 0, Fin 1, Fin 2, Fin 5, Fin 8, Fin 12, Fin 15,
           Fin 18, Fin 20, Fin 22, Fin 21, Fin 19, Fin 17, Fin 15, Fin 13, Fin 10,
           Fin 8, Fin 6, Fin 4, Fin 3, Fin 2],
          [Fin 92, Fin 89, Fin 90, Fin 94],
          [Fin 25, Fin 45, Fin 30]]"
    using steps(2) by (simp add: eq)
  show "chart_labels (chart_instances (snd (updateCharts e (sampleData e now k0) d)) ! 2)
       = [''00:00'', ''01:00'', ''02:00'', ''03:00'', ''04:00'', ''05:00'', ''06:00'',
          ''07:00'', ''08:00'', ''09:00'', ''10:00'', ''11:00'', ''12:00'', ''13:00'',
          ''14:00'', ''15:00'', ''16:00'', ''17:00'', ''18:00'', ''19:00'', ''20:00'',
          ''21:00'', ''22:00'', ''23:00'']"
    using steps(3) by (simp add: eq)
  show "chart_labels (chart_instances (snd (updateCharts e (sampleData e now k0) d)) ! 4)
       = [''<30'', ''30-50'', ''>50'']"
    using steps(4) by (simp add: eq)
  show "texts (snd (updateCharts e (sampleData e now k0) d))
       = (texts d)(''lowRiskPercent'' \<mapsto> ''45%'', ''mediumRiskPercent'' \<mapsto> ''35%'',
                   ''highRiskPercent'' \<mapsto> ''20%'', ''precisionValue'' \<mapsto> ''92.0%'',
                   ''recallValue'' \<mapsto> ''89.0%'', ''f1Value'' \<mapsto> ''90.0%'')"
    by (simp only: eq snd_conv update_or_create_other_fields set_text_fields)
  show "dashboardData (snd (updateCharts e (sampleData e now k0) d)) = dashboardData d"
    by (simp only: eq snd_conv update_or_create_other_fields set_text_fields)
  show "feed (snd (updateCharts e (sampleData e now k0) d)) = feed d"
    by (simp only: eq snd_conv update_or_create_other_fields set_text_fields)
  show "dash_notification (snd (updateCharts e (sampleData e now k0) d)) = dash_notification d"
    by (simp only: eq snd_conv update_or_create_other_fields set_text_fields)
  show "random_calls (snd (updateCharts e (sampleData e now k0) d)) = random_calls d"
    by (simp only: eq snd_conv update_or_create_other_fields set_text_fields)
  show "dash_loading (snd (updateCharts e (sampleData e now k0) d)) = dash_loading d"
    by (simp only: eq snd_conv update_or_create_other_fields set_text_fields)
qed

subsection \<open>The placeholder snapshot on the page\<close>

lemma loadSampleData_eq:
  fixes now :: int
  assumes "chart_page e" "registered_upto k d"
  defines "snap \<equiv> sampleData e now (random_calls d)"
  defines "d0 \<equiv> d\<lparr>dash_console := dash_console d @ [''Loading sample data for development''],
                   random_calls := random_calls d + 15, dashboardData := Some snap\<rparr>"
  shows "loadSampleData e now recent d
    = (None,
       updateLastUpdateTime e now
         (updatePredictionFeed e now recent (Some (map (sample_event e now (random_calls d)) [0..<5]))
            (snd (updateCharts e snap (snd (updateStats e (overview snap) d0))))))"
proof -
  have dd: "dashboardData d0 = Some (sampleData e now (random_calls d))"
    by (simp add: d0_def snap_def)
  have r0: "registered_upto k d0"
    using assms(2) by (simp add: d0_def registered_upto_def)
  have rS: "registered_upto k (snd (updateStats e (overview snap) d0))"
    using r0 by (simp add: updateStats_registered)
  have stats: "fst (updateStats e (overview snap) d0) = None"
    unfolding snap_def by (rule updateStats_sample (1) [OF dd])
  have charts: "fst (updateCharts e snap (snd (updateStats e (overview snap) d0))) = None"
    unfolding snap_def by (rule updateCharts_sample (1) [OF assms(1) rS [unfolded snap_def]])
  have "updateDashboard e now recent snap d0
      = (None, updatePredictionFeed e now recent (predictions_timeline snap)
                 (snd (updateCharts e snap (snd (updateStats e (overview snap) d0)))))"
    by (simp add: updateDashboard_def and_then_None stats charts)
  moreover have "loadSampleData e now recent d
      = and_then (updateDashboard e now recent snap d0)
          (\<lambda>d. (None, updateLastUpdateTime e now d))"
    by (simp add: loadSampleData_def Let_def d0_def snap_def)
  moreover have "predictions_timeline snap = Some (map (sample_event e now (random_calls d)) [0..<5])"
    by (simp add: snap_def sampleData_fields)
  ultimately show ?thesis by (simp add: and_then_def)
qed

lemma loadSampleData_page:
  fixes now :: int and recent :: "prediction_event list option fetch_outcome"
  assumes page: "chart_page e" and r: "registered_upto k d"
  defines "D \<equiv> snd (loadSampleData e now recent d)"
  shows "fst (loadSampleData e now recent d) = None"
    and "registered_upto 5 D"
    and "dashboardData D = Some (sampleData e now (random_calls d))"
    and "map chart_data (chart_instances D)
       = [[Fin 560, Fin 437, Fin 250],
          [Fin 95, Fin 87, Fin 78, Fin 65, Fin 58, Fin 45, Fin 32, Fin 25],
          [Fin 2, Fin 1, Fin 0, Fin 0, Fin 1, Fin 2, Fin 5, Fin 8, Fin 12, Fin 15,
           Fin 18, Fin 20, Fin 22, Fin 21, Fin 19, Fin 17, Fin 15, Fin 13, Fin 10,
           Fin 8, Fin 6, Fin 4, Fin 3, Fin 2],
          [Fin 92, Fin 89, Fin 90, Fin 94],
          [Fin 25, Fin 45, Fin 30]]"
    and "chart_labels (chart_instances D ! 2)
       = [''00:00'', ''01:00'', ''02:00'', ''03:00'', ''04:00'', ''05:00'', ''06:00'',
          ''07:00'', ''08:00'', ''09:00'', ''10:00'', ''11:00'', ''12:00'', ''13:00'',
          ''14:00'', ''15:00'', ''16:00'', ''17:00'', ''18:00'', ''19:00'', ''20:00'',
          ''21:00'', ''22:00'', ''23:00'']"
    and "chart_labels (chart_instances D ! 4) = [''<30'', ''30-50'', ''>50'']"
    and "texts D ''lowRiskPercent'' = Some ''45%''"
    and "texts D ''mediumRiskPercent'' = Some ''35%''"
    and "texts D ''highRiskPercent'' = Some ''20%''"
    and "texts D ''precisionValue'' = Some ''92.0%''"
    and "texts D ''recallValue'' = Some ''89.0%''"
    and "texts D ''f1Value'' = Some ''90.0%''"
    and "''totalPredictions'' \<in> dom e \<Longrightarrow>
           texts D ''totalPredictions'' = Some (toLocaleString e (Fin 1247))"
    and "''accuracyRate'' \<in> dom e \<Longrightarrow> texts D ''accuracyRate'' = Some ''94.2%''"
    and "''avgResponse'' \<in> dom e \<Longrightarrow>
           texts D ''avgResponse'' = Some (Number_toString e (number_value (3 / 10)) @ ''s'')"
    and "''highRiskCount'' \<in> dom e \<Longrightarrow>
           texts D ''highRiskCount'' = Some (toLocaleString e (Fin 250))"
    and "''lastUpdate'' \<in> dom e \<Longrightarrow>
           texts D ''lastUpdate''
             = Some (toLocaleTimeString e [''hour'', ''minute'', ''second''] now)"
    and "''predictionFeed'' \<in> dom e \<Longrightarrow>
           feed D = Feed_items (map (\<lambda>i. feed_item_of e now 5 i
                                          (sample_event e now (random_calls d) i)) [0..<5])"
    and "dash_notification D = dash_notification d"
    and "dash_loading D = dash_loading d"
proof -
  define snap where "snap = sampleData e now (random_calls d)"
  define d0 where "d0 = d\<lparr>dash_console := dash_console d @ [''Loading sample data for development''],
                   random_calls := random_calls d + 15, dashboardData := Some snap\<rparr>"
  define dS where "dS = snd (updateStats e (overview snap) d0)"
  define dC where "dC = snd (updateCharts e snap dS)"
  define events where "events = map (sample_event e now (random_calls d)) [0..<5]"
  note eq = loadSampleData_eq [OF page r, of now recent, folded snap_def, folded d0_def,
      folded dS_def, folded dC_def, folded events_def]
  have D: "D = updateLastUpdateTime e now (updatePredictionFeed e now recent (Some events) dC)"
    by (simp add: D_def eq)
  have dd: "dashboardData d0 = Some (sampleData e now (random_calls d))"
    by (simp add: d0_def snap_def)
  have r0: "registered_upto k d0"
    using r by (simp add: d0_def registered_upto_def)
  have rS: "registered_upto k dS"
    using r0 by (simp add: dS_def updateStats_registered)
  note st = updateStats_sample [OF dd, folded snap_def, folded dS_def]
  note sf = updateStats_fields [of e "overview snap" d0, folded dS_def]
  note so = updateStats_other_texts [of _ e "overview snap" d0, folded dS_def]
  note ch = updateCharts_sample [OF page rS, of now "random_calls d", folded snap_def,
      folded dC_def]
  show "fst (loadSampleData e now recent d) = None" by (simp add: eq)
  show "registered_upto 5 D" using ch(2) by (simp add: D)
  show "dashboardData D = Some (sampleData e now (random_calls d))"
    by (simp add: D ch(7) sf(3) dd)
  show "map chart_data (chart_instances D)
       = [[Fin 560, Fin 437, Fin 250],
          [Fin 95, Fin 87, Fin 78, Fin 65, Fin 58, Fin 45, Fin 32, Fin 25],
          [Fin 2, Fin 1, Fin 0, Fin 0, Fin 1, Fin 2, Fin 5, Fin 8, Fin 12, Fin 15,
           Fin 18, Fin 20, Fin 22, Fin 21, Fin 19, Fin 17, Fin 15, Fin 13, Fin 10,
           Fin 8, Fin 6, Fin 4, Fin 3, Fin 2],
          [Fin 92, Fin 89, Fin 90, Fin 94],
          [Fin 25, Fin 45, Fin 30]]"
    using ch(3) by (simp add: D)
  show "chart_labels (chart_instances D ! 2)
       = [''00:00'', ''01:00'', ''02:00'', ''03:00'', ''04:00'', ''05:00'', ''06:00'',
          ''07:00'', ''08:00'', ''09:00'', ''10:00'', ''11:00'', ''12:00'', ''13:00'',
          ''14:00'', ''15:00'', ''16:00'', ''17:00'', ''18:00'', ''19:00'', ''20:00'',
          ''21:00'', ''22:00'', ''23:00'']"
    using ch(4) by (simp add: D)
  show "chart_labels (chart_instances D ! 4) = [''<30'', ''30-50'', ''>50'']"
    using ch(5) by (simp add: D)
  show "texts D ''lowRiskPercent'' = Some ''45%''" by (simp add: D ch(6))
  show "texts D ''mediumRiskPercent'' = Some ''35%''" by (simp add: D ch(6))
  show "texts D ''highRiskPercent'' = Some ''20%''" by (simp add: D ch(6))
  show "texts D ''precisionValue'' = Some ''92.0%''" by (simp add: D ch(6))
  show "texts D ''recallValue'' = Some ''89.0%''" by (simp add: D ch(6))
  show "texts D ''f1Value'' = Some ''90.0%''" by (simp add: D ch(6))
  show "texts D ''totalPredictions'' = Some (toLocaleString e (Fin 1247))"
    if "''totalPredictions'' \<in> dom e"
    using st(2) [OF that] by (simp add: D ch(6))
  show "texts D ''accuracyRate'' = Some ''94.2%''" if "''accuracyRate'' \<in> dom e"
    using st(3) [OF that] by (simp add: D ch(6))
  show "texts D ''avgResponse'' = Some (Number_toString e (number_value (3 / 10)) @ ''s'')"
    if "''avgResponse'' \<in> dom e"
    using st(4) [OF that] by (simp add: D ch(6))
  show "texts D ''highRiskCount'' = Some (toLocaleString e (Fin 250))"
    if "''highRiskCount'' \<in> dom e"
    using st(5) [OF that] by (simp add: D ch(6))
  show "texts D ''lastUpdate''
      = Some (toLocaleTimeString e [''hour'', ''minute'', ''second''] now)"
    if "''lastUpdate'' \<in> dom e"
    using that by (simp add: D)
  show "feed D = Feed_items (map (\<lambda>i. feed_item_of e now 5 i
                                      (sample_event e now (random_calls d) i)) [0..<5])"
    if "''predictionFeed'' \<in> dom e"
  proof -
    have "events \<noteq> []" "length events = 5" by (simp_all add: events_def)
    moreover have "enumerate 0 events
        = map (\<lambda>i. (i, sample_event e now (random_calls d) i)) [0..<5]"
      by (simp add: events_def enumerate_eq_zip upt_rec)
    ultimately show ?thesis
      using that by (simp add: D updatePredictionFeed_timeline comp_def)
  qed
  show "dash_notification D = dash_notification d"
    by (simp add: D ch(9) sf(5) d0_def)
  show "dash_loading D = dash_loading d"
    by (simp add: D ch(11) sf(7) d0_def)
qed

subsection \<open>One refresh and a sequence of refreshes\<close>

lemma load_body_progress:
  assumes "chart_page e" "registered_upto k d"
  shows "charts_progress k 5 (load_body e now response recent d)"
proof -
  have r1: "registered_upto k (dash_showLoading e True d)" using assms(2) by simp
  have thr: "charts_progress k 5 (Some ex, dash_showLoading e True d)" for ex
    using r1 by (rule progress_throw) simp
  show ?thesis
  proof (cases response)
    case (Json_body snap)
    show ?thesis
    proof (cases "truthy (snapshot_error snap)")
      case True
      with Json_body thr show ?thesis by (simp add: load_body_def)
    next
      case False
      have r2: "registered_upto k (dash_showLoading e True d\<lparr>dashboardData := Some snap\<rparr>)"
        using r1 by simp
      have fin: "charts_progress k' 5
          (None, dash_showNotification ''Dashboard updated successfully'' ''success''
                   (updateLastUpdateTime e now d'))"
        if "registered_upto k' d'" "5 \<le> k'" for k' d'
        using that by (intro progress_return [where k' = k']) simp_all
      have "charts_progress k 5
          (and_then (updateDashboard e now recent snap
                       (dash_showLoading e True d\<lparr>dashboardData := Some snap\<rparr>))
             (\<lambda>d. (None, dash_showNotification ''Dashboard updated successfully'' ''success''
                            (updateLastUpdateTime e now d))))"
        apply (rule progress_and_then [OF updateDashboard_progress [OF assms(1) r2]])
        apply (rule fin, assumption, assumption)
        done
      with Json_body False show ?thesis by (simp add: load_body_def)
    qed
  qed (use thr in \<open>simp_all add: load_body_def\<close>)
qed

lemma loadDashboardData_registered:
  assumes "chart_page e" "registered_upto k d"
  shows "registered_upto 5 (snd (loadDashboardData e now response recent d))"
proof (cases "load_body e now response recent d")
  case (Pair x s)
  from load_body_progress [OF assms, of now response recent] Pair obtain k' where
    k': "registered_upto k' s" "x = None \<longrightarrow> 5 \<le> k'"
    by (auto simp: charts_progress_def)
  show ?thesis
  proof (cases x)
    case None
    from k'(1) have "k' \<le> 5" by (simp add: registered_upto_def)
    with k' None have "registered_upto 5 s" by simp
    with Pair None show ?thesis
      by (simp add: loadDashboardData_def try_catch_finally_rethrow_def)
  next
    case (Some ex)
    have "registered_upto k'
        (dash_showNotification ''Failed to load dashboard data'' ''error''
           (s\<lparr>dash_console := dash_console s @ [''Error loading dashboard data:'']\<rparr>))"
      using k'(1) by simp
    from loadSampleData_page (2) [OF assms(1) this, of now recent]
    have "registered_upto 5 (snd (load_catch e now recent ex s))"
      by (simp add: load_catch_def)
    with Pair Some show ?thesis
      by (auto simp: loadDashboardData_def try_catch_finally_rethrow_def split: prod.splits)
  qed
qed

lemma refreshes_registered:
  assumes "chart_page e"
  shows "registered_upto k d \<Longrightarrow> cycles \<noteq> [] \<Longrightarrow> registered_upto 5 (refreshes e cycles d)"
proof (induction cycles arbitrary: k d)
  case Nil
  then show ?case by simp
next
  case (Cons c cycles)
  obtain now response recent where c: "c = (now, response, recent)" by (cases c)
  have step: "registered_upto 5 (snd (loadDashboardData e now response recent d))"
    using assms Cons.prems(1) by (rule loadDashboardData_registered)
  show ?case
  proof (cases "cycles = []")
    case True
    with step c show ?thesis by simp
  next
    case False
    from Cons.IH [OF step False] c show ?thesis by simp
  qed
qed

lemma initial_registered: "registered_upto 0 initial_dashboard"
  by (simp add: registered_upto_def initial_dashboard_def)

lemma refreshes_append:
  "refreshes e (cycles @ later) d = refreshes e later (refreshes e cycles d)"
  by (induction cycles arbitrary: d) auto

lemma registered_five:
  assumes "registered_upto 5 d"
  shows "charts d = full_registry" "map chart_canvas (chart_instances d) = five_canvases"
    "length (chart_instances d) = 5"
  using assms registered_length [OF assms]
  by (simp_all add: registered_upto_def full_registry_def five_canvases_def)

subsection \<open>At most one instance per chart name, on every page\<close>

lemma one_instance_cong:
  assumes "charts d' = charts d" "length (chart_instances d') = length (chart_instances d)"
  shows "one_instance_per_name d' = one_instance_per_name d"
  using assms by (simp add: one_instance_per_name_def)

lemma one_instance_update_or_create:
  assumes "one_instance_per_name d"
  shows "one_instance_per_name (update_or_create name w c d)"
proof (cases "map_of (charts d) name")
  case None
  then have "name \<notin> set (map fst (charts d))" by (simp add: map_of_eq_None_iff)
  with assms show ?thesis
    using update_or_create_new [OF None, of w c]
    by (simp add: one_instance_per_name_def)
next
  case (Some i)
  from update_or_create_existing (1,3) [OF Some, of w c] assms show ?thesis
    by (simp add: one_instance_per_name_def)
qed

lemma one_instance_frames [simp]:
  "one_instance_per_name (set_text a v d) = one_instance_per_name d"
  "one_instance_per_name (dash_animateCounter a t d) = one_instance_per_name d"
  "one_instance_per_name (dash_showNotification msg type d) = one_instance_per_name d"
  "one_instance_per_name (dash_showLoading e busy d) = one_instance_per_name d"
  "one_instance_per_name (updatePredictionFeed e now recent ps d) = one_instance_per_name d"
  "one_instance_per_name (updateLastUpdateTime e now d) = one_instance_per_name d"
  "one_instance_per_name (d\<lparr>dashboardData := s\<rparr>) = one_instance_per_name d"
  "one_instance_per_name (d\<lparr>dash_console := c\<rparr>) = one_instance_per_name d"
  "one_instance_per_name (d\<lparr>random_calls := n\<rparr>) = one_instance_per_name d"
  by (simp_all add: one_instance_per_name_def)

lemma one_instance_and_then:
  assumes "one_instance_per_name (snd r)"
    and "\<And>p. one_instance_per_name p \<Longrightarrow> one_instance_per_name (snd (f p))"
  shows "one_instance_per_name (snd (and_then r f))"
  using assms by (cases r) (auto simp: and_then_def split: option.splits)

lemma one_instance_set_text_unguarded [simp]:
  "one_instance_per_name (snd (set_text_unguarded e a v d)) = one_instance_per_name d"
  by (simp add: set_text_unguarded_def)

lemma one_instance_set_metric_text [simp]:
  "one_instance_per_name (snd (set_metric_text e a x d)) = one_instance_per_name d"
  by (simp add: set_metric_text_def split: option.splits)

lemma one_instance_risk_chart:
  assumes "one_instance_per_name d"
  shows "one_instance_per_name (snd (updateRiskDistributionChart e x d))"
proof (cases "''riskDistributionChart'' \<in> dom e \<and> x \<noteq> None")
  case True
  then obtain counts where "x = Some counts" by auto
  with True assms show ?thesis
    unfolding updateRiskDistributionChart_def
    by (auto intro!: one_instance_and_then one_instance_update_or_create)
next
  case False
  with assms show ?thesis by (auto simp: updateRiskDistributionChart_def)
qed

lemma one_instance_feature_chart:
  assumes "one_instance_per_name d"
  shows "one_instance_per_name (snd (updateFeatureImportanceChart e d))"
  using assms by (simp add: updateFeatureImportanceChart_def one_instance_update_or_create)

lemma one_instance_hourly_chart:
  assumes "one_instance_per_name d"
  shows "one_instance_per_name (snd (updateHourlyTrendChart e x d))"
  using assms
  by (auto simp: updateHourlyTrendChart_def Let_def split: option.splits
      intro!: one_instance_update_or_create)

lemma one_instance_performance_chart:
  assumes "one_instance_per_name d"
  shows "one_instance_per_name (snd (updatePerformanceChart e x d))"
proof (cases "''performanceChart'' \<in> dom e \<and> x \<noteq> None")
  case True
  then obtain ms where "x = Some ms" by auto
  with True assms show ?thesis
    unfolding updatePerformanceChart_def
    by (auto intro!: one_instance_and_then one_instance_update_or_create)
next
  case False
  with assms show ?thesis by (auto simp: updatePerformanceChart_def)
qed

lemma one_instance_age_chart:
  assumes "one_instance_per_name d"
  shows "one_instance_per_name (snd (updateAgeDistributionChart e x d))"
  using assms
  by (auto simp: updateAgeDistributionChart_def Let_def split: option.splits
      intro!: one_instance_update_or_create)

lemma one_instance_updateCharts:
  assumes "one_instance_per_name d"
  shows "one_instance_per_name (snd (updateCharts e snap d))"
  unfolding updateCharts_def
  by (intro one_instance_and_then one_instance_risk_chart one_instance_feature_chart
      one_instance_hourly_chart one_instance_performance_chart one_instance_age_chart assms)

lemma one_instance_updateStats [simp]:
  "one_instance_per_name (snd (updateStats e ov d)) = one_instance_per_name d"
  by (rule one_instance_cong) (simp_all add: updateStats_fields)

lemma one_instance_updateDashboard:
  assumes "one_instance_per_name d"
  shows "one_instance_per_name (snd (updateDashboard e now recent snap d))"
  unfolding updateDashboard_def
  by (intro one_instance_and_then one_instance_updateCharts) (simp_all add: assms)

lemma one_instance_loadSampleData:
  assumes "one_instance_per_name d"
  shows "one_instance_per_name (snd (loadSampleData e now recent d))"
  unfolding loadSampleData_def Let_def
  by (intro one_instance_and_then one_instance_updateDashboard) (simp_all add: assms)

lemma one_instance_load_body:
  assumes "one_instance_per_name d"
  shows "one_instance_per_name (snd (load_body e now response recent d))"
proof (cases response)
  case (Json_body snap)
  have "one_instance_per_name
      (snd (and_then (updateDashboard e now recent snap
                        (dash_showLoading e True d\<lparr>dashboardData := Some snap\<rparr>))
              (\<lambda>d. (None, dash_showNotification ''Dashboard updated successfully'' ''success''
                             (updateLastUpdateTime e now d)))))"
    by (intro one_instance_and_then one_instance_updateDashboard) (simp_all add: assms)
  with Json_body assms show ?thesis by (simp add: load_body_def Let_def)
qed (use assms in \<open>simp_all add: load_body_def\<close>)

lemma one_instance_loadDashboardData:
  assumes "one_instance_per_name d"
  shows "one_instance_per_name (snd (loadDashboardData e now response recent d))"
proof (cases "load_body e now response recent d")
  case (Pair x s)
  with one_instance_load_body [OF assms, of e now response recent]
  have s: "one_instance_per_name s" by simp
  show ?thesis
  proof (cases x)
    case None
    with Pair s show ?thesis
      by (simp add: loadDashboardData_def try_catch_finally_rethrow_def)
  next
    case (Some ex)
    have "one_instance_per_name (snd (load_catch e now recent ex s))"
      unfolding load_catch_def by (rule one_instance_loadSampleData) (simp add: s)
    with Pair Some show ?thesis
      by (auto simp: loadDashboardData_def try_catch_finally_rethrow_def split: prod.splits)
  qed
qed

lemma one_instance_refreshes:
  "one_instance_per_name d \<Longrightarrow> one_instance_per_name (refreshes e cycles d)"
proof (induction cycles arbitrary: d)
  case Nil
  then show ?case by simp
next
  case (Cons c cycles)
  obtain now response recent where c: "c = (now, response, recent)" by (cases c)
  from Cons.prems have "one_instance_per_name (snd (loadDashboardData e now response recent d))"
    by (rule one_instance_loadDashboardData)
  from Cons.IH [OF this] c show ?case by simp
qed

lemma one_instance_initial: "one_instance_per_name initial_dashboard"
  by (simp add: one_instance_per_name_def initial_dashboard_def)

subsection \<open>A failed refresh\<close>

lemma load_body_failed:
  assumes "fetch_failed response"
  shows "\<exists>ex. load_body e now response recent d = (Some ex, dash_showLoading e True d)"
  using assms by (cases response) (simp_all add: load_body_def fetch_failed_def)

lemma loadDashboardData_failed:
  assumes page: "chart_page e" and r: "registered_upto k d" and f: "fetch_failed response"
  shows "loadDashboardData e now response recent d
    = (None,
       dash_showLoading e False
         (snd (loadSampleData e now recent
                 (dash_showNotification ''Failed to load dashboard data'' ''error''
                    (dash_showLoading e True d
                       \<lparr>dash_console := dash_console (dash_showLoading e True d)
                                         @ [''Error loading dashboard data:'']\<rparr>)))))"
proof -
  let ?d1 = "dash_showLoading e True d"
  let ?d2 = "dash_showNotification ''Failed to load dashboard data'' ''error''
               (?d1\<lparr>dash_console := dash_console ?d1 @ [''Error loading dashboard data:'']\<rparr>)"
  from load_body_failed [OF f] obtain ex where
    body: "load_body e now response recent d = (Some ex, ?d1)"
    by blast
  have "registered_upto k ?d2" using r by simp
  then have "fst (loadSampleData e now recent ?d2) = None"
    by (rule loadSampleData_page (1) [OF page])
  then show ?thesis
    by (auto simp: loadDashboardData_def try_catch_finally_rethrow_def body load_catch_def
        split: prod.splits)
qed




subsection \<open>Charts changed in place\<close>

lemma charts_updated_cong:
  assumes "charts s' = charts s" "chart_instances s' = chart_instances s"
  shows "charts_updated k d s' = charts_updated k d s"
  using assms by (simp add: charts_updated_def registered_upto_def)

lemma charts_updated_frames [simp]:
  "charts_updated k d (set_text a v s) = charts_updated k d s"
  "charts_updated k d (dash_animateCounter a t s) = charts_updated k d s"
  "charts_updated k d (dash_showNotification msg type s) = charts_updated k d s"
  "charts_updated k d (dash_showLoading e busy s) = charts_updated k d s"
  "charts_updated k d (updatePredictionFeed e now recent ps s) = charts_updated k d s"
  "charts_updated k d (updateLastUpdateTime e now s) = charts_updated k d s"
  "charts_updated k d (s\<lparr>dashboardData := x\<rparr>) = charts_updated k d s"
  "charts_updated k d (s\<lparr>dash_console := c\<rparr>) = charts_updated k d s"
  "charts_updated k d (s\<lparr>random_calls := n\<rparr>) = charts_updated k d s"
  by (rule charts_updated_cong; simp)+

lemma charts_updated_start:
  "registered_upto 5 d \<Longrightarrow> charts_updated 0 d d"
  by (simp add: charts_updated_def)

lemma charts_updated_weaken:
  "charts_updated k d s \<Longrightarrow> j \<le> k \<Longrightarrow> charts_updated j d s"
  by (auto simp: charts_updated_def)

lemma charts_updated_registered:
  "charts_updated k d s \<Longrightarrow> registered_upto 5 s"
  by (simp add: charts_updated_def)

lemma update_registered_instance:
  assumes r: "registered_upto 5 s" and j: "j < 5"
  shows "chart_instances (update_or_create (fst (full_registry ! j)) w c s)
     = (chart_instances s)
         [j := (chart_instances s ! j)
            \<lparr>chart_labels := (if w then chart_labels c else chart_labels (chart_instances s ! j)),
             chart_data := chart_data c,
             chart_updates := chart_updates (chart_instances s ! j) + 1\<rparr>]"
  using registered_lookup [OF r j] j by (simp add: update_or_create_def)

lemma charts_updated_step:
  assumes u: "charts_updated k d s" and j: "j < 5" "j \<le> k"
    and c: "chart_canvas c = five_canvases ! j" and n: "name = fst (full_registry ! j)"
  shows "charts_updated (max k (Suc j)) d (update_or_create name w c s)"
proof -
  let ?s = "update_or_create name w c s"
  from u have r: "registered_upto 5 s"
    and keep: "\<And>i. i < 5 \<Longrightarrow>
        chart_type (chart_instances s ! i) = chart_type (chart_instances d ! i)
        \<and> chart_updates (chart_instances d ! i) \<le> chart_updates (chart_instances s ! i)"
    and more: "\<And>i. i < k \<Longrightarrow>
        chart_updates (chart_instances d ! i) < chart_updates (chart_instances s ! i)"
    by (simp_all add: charts_updated_def)
  have len: "length (chart_instances s) = 5" by (rule registered_length [OF r])
  have "registered_upto (max 5 (Suc j)) ?s"
    using registered_step (1) [OF r j(1) _ c, of w] j n by simp
  moreover have "max 5 (Suc j) = 5" using j by simp
  ultimately have r': "registered_upto 5 ?s" by simp
  note inst = update_registered_instance [OF r j(1), of w c, folded n]
  have at: "chart_type (chart_instances ?s ! j) = chart_type (chart_instances s ! j)"
    "chart_updates (chart_instances ?s ! j) = chart_updates (chart_instances s ! j) + 1"
    using j len by (simp_all add: inst)
  have other: "chart_instances ?s ! i = chart_instances s ! i" if "i \<noteq> j" for i
    using that by (simp add: inst)
  have all: "chart_type (chart_instances ?s ! i) = chart_type (chart_instances d ! i)
      \<and> chart_updates (chart_instances d ! i) \<le> chart_updates (chart_instances ?s ! i)"
    if "i < 5" for i
  proof (cases "i = j")
    case True
    with keep [OF that] at show ?thesis by simp
  next
    case False
    with keep [OF that] other show ?thesis by simp
  qed
  have first: "chart_updates (chart_instances d ! i) < chart_updates (chart_instances ?s ! i)"
    if "i < max k (Suc j)" for i
  proof (cases "i = j")
    case True
    with keep [OF j(1)] at show ?thesis by simp
  next
    case False
    with that j have "i < k" by simp
    with more other [OF False] show ?thesis by simp
  qed
  from r' all first show ?thesis by (simp add: charts_updated_def)
qed

lemma updates_return:
  "charts_updated k' d s \<Longrightarrow> k \<le> k' \<Longrightarrow> j \<le> k' \<Longrightarrow> updates_progress d k j (None, s)"
  by (auto simp: updates_progress_def)

lemma updates_throw:
  "charts_updated k' d s \<Longrightarrow> k \<le> k' \<Longrightarrow> updates_progress d k j (Some ex, s)"
  by (auto simp: updates_progress_def)

lemma updates_and_then:
  assumes "updates_progress d k j r"
    and "\<And>s k'. charts_updated k' d s \<Longrightarrow> k \<le> k' \<Longrightarrow> j \<le> k'
           \<Longrightarrow> updates_progress d k' j' (f s)"
  shows "updates_progress d k j' (and_then r f)"
proof (cases r)
  case (Pair x s)
  from assms(1) Pair obtain k' where
    k': "charts_updated k' d s" "k \<le> k'" "x = None \<longrightarrow> j \<le> k'"
    by (auto simp: updates_progress_def)
  show ?thesis
  proof (cases x)
    case None
    with k' have "updates_progress d k' j' (f s)" by (intro assms(2)) simp_all
    then obtain k'' where "charts_updated k'' d (snd (f s))" "k' \<le> k''"
      "fst (f s) = None \<longrightarrow> j' \<le> k''"
      by (auto simp: updates_progress_def)
    with k'(2) have "updates_progress d k j' (f s)"
      by (auto simp: updates_progress_def intro: exI [of _ k''])
    with Pair None show ?thesis by (simp add: and_then_def)
  next
    case (Some ex)
    with Pair k' show ?thesis
      by (auto simp: and_then_def updates_progress_def)
  qed
qed

lemma chart_step_updates:
  assumes "charts_updated k d s" "j < 5" "j \<le> k" "chart_canvas c = five_canvases ! j"
    "name = fst (full_registry ! j)"
  shows "updates_progress d k (Suc j) (None, update_or_create name w c s)"
proof -
  have "charts_updated (max k (Suc j)) d (update_or_create name w c s)"
    using assms by (rule charts_updated_step)
  then show ?thesis by (rule updates_return) simp_all
qed

lemma chart_step_updates_numeral:
  assumes "charts_updated k d s"
  shows "chart_canvas c = ''riskDistributionChart'' \<Longrightarrow>
           updates_progress d k (Suc 0) (None, update_or_create ''riskDistribution'' w c s)"
    and "Suc 0 \<le> k \<Longrightarrow> chart_canvas c = ''featureImportanceChart'' \<Longrightarrow>
           updates_progress d k 2 (None, update_or_create ''featureImportance'' w c s)"
    and "2 \<le> k \<Longrightarrow> chart_canvas c = ''hourlyTrendChart'' \<Longrightarrow>
           updates_progress d k 3 (None, update_or_create ''hourlyTrend'' w c s)"
    and "3 \<le> k \<Longrightarrow> chart_canvas c = ''performanceChart'' \<Longrightarrow>
           updates_progress d k 4 (None, update_or_create ''performance'' w c s)"
    and "4 \<le> k \<Longrightarrow> chart_canvas c = ''ageDistributionChart'' \<Longrightarrow>
           updates_progress d k 5 (None, update_or_create ''ageDistribution'' w c s)"
proof -
  show "chart_canvas c = ''riskDistributionChart'' \<Longrightarrow>
           updates_progress d k (Suc 0) (None, update_or_create ''riskDistribution'' w c s)"
    by (rule chart_step_updates [OF assms, where j = 0]) (simp_all add: canvases registry_names)
  have "updates_progress d k (Suc (Suc 0))
          (None, update_or_create (fst (full_registry ! Suc 0)) w c s)"
    if "Suc 0 \<le> k" "chart_canvas c = ''featureImportanceChart''"
    using that by (intro chart_step_updates [OF assms]) (simp_all add: canvases)
  moreover have "Suc (Suc 0) = 2" by simp
  ultimately show "Suc 0 \<le> k \<Longrightarrow> chart_canvas c = ''featureImportanceChart'' \<Longrightarrow>
           updates_progress d k 2 (None, update_or_create ''featureImportance'' w c s)"
    by (simp add: registry_names)
  have "updates_progress d k (Suc 2) (None, update_or_create (fst (full_registry ! 2)) w c s)"
    if "2 \<le> k" "chart_canvas c = ''hourlyTrendChart''"
    using that by (intro chart_step_updates [OF assms]) (simp_all add: canvases)
  then show "2 \<le> k \<Longrightarrow> chart_canvas c = ''hourlyTrendChart'' \<Longrightarrow>
           updates_progress d k 3 (None, update_or_create ''hourlyTrend'' w c s)"
    by (simp add: registry_names)
  have "updates_progress d k (Suc 3) (None, update_or_create (fst (full_registry ! 3)) w c s)"
    if "3 \<le> k" "chart_canvas c = ''performanceChart''"
    using that by (intro chart_step_updates [OF assms]) (simp_all add: canvases)
  then show "3 \<le> k \<Longrightarrow> chart_canvas c = ''performanceChart'' \<Longrightarrow>
           updates_progress d k 4 (None, update_or_create ''performance'' w c s)"
    by (simp add: registry_names)
  have "updates_progress d k (Suc 4) (None, update_or_create (fst (full_registry ! 4)) w c s)"
    if "4 \<le> k" "chart_canvas c = ''ageDistributionChart''"
    using that by (intro chart_step_updates [OF assms]) (simp_all add: canvases)
  then show "4 \<le> k \<Longrightarrow> chart_canvas c = ''ageDistributionChart'' \<Longrightarrow>
           updates_progress d k 5 (None, update_or_create ''ageDistribution'' w c s)"
    by (simp add: registry_names)
qed

lemma risk_chart_updates:
  assumes "chart_page e" "charts_updated k d s"
  shows "updates_progress d k (Suc 0) (updateRiskDistributionChart e x s)"
proof (cases x)
  case None
  with chart_pageD [OF assms(1)] assms(2) show ?thesis
    by (auto simp: updateRiskDistributionChart_def intro: updates_throw)
next
  case (Some counts)
  with chart_pageD [OF assms(1)] have "updateRiskDistributionChart e x s
      = (None, update_or_create ''riskDistribution'' False
                 \<lparr>chart_canvas = ''riskDistributionChart'', chart_type = ''doughnut'',
                  chart_labels = [''Low Risk'', ''Medium Risk'', ''High Risk''],
                  chart_data = [or_default (low counts) (Fin 0),
                                or_default (medium counts) (Fin 0),
                                or_default (high counts) (Fin 0)],
                  chart_updates = 0\<rparr>
                 (set_text ''highRiskPercent'' (snd (snd (risk_percent_texts e counts)))
                    (set_text ''mediumRiskPercent'' (fst (snd (risk_percent_texts e counts)))
                       (set_text ''lowRiskPercent'' (fst (risk_percent_texts e counts)) s))))"
    by (simp add: updateRiskDistributionChart_def set_text_unguarded_present and_then_def)
  moreover have "updates_progress d k (Suc 0) \<dots>"
    by (rule chart_step_updates_numeral (1)) (simp_all add: assms)
  ultimately show ?thesis by simp
qed

lemma feature_chart_updates:
  assumes "chart_page e" "charts_updated k d s" "Suc 0 \<le> k"
  shows "updates_progress d k 2 (updateFeatureImportanceChart e s)"
  using chart_pageD [OF assms(1)] assms(3)
  by (simp add: updateFeatureImportanceChart_def chart_step_updates_numeral (2) [OF assms(2)])

lemma hourly_chart_updates:
  assumes "chart_page e" "charts_updated k d s" "2 \<le> k"
  shows "updates_progress d k 3 (updateHourlyTrendChart e x s)"
proof (cases x)
  case None
  with chart_pageD [OF assms(1)] assms(2) show ?thesis
    by (auto simp: updateHourlyTrendChart_def intro: updates_throw)
next
  case (Some trend)
  with chart_pageD [OF assms(1)] assms(2,3) show ?thesis
    by (auto simp: updateHourlyTrendChart_def Let_def split: option.splits
        intro!: chart_step_updates_numeral (3))
qed

lemma performance_chart_updates:
  assumes "chart_page e" "charts_updated k d s" "3 \<le> k"
  shows "updates_progress d k 4 (updatePerformanceChart e x s)"
proof (cases x)
  case None
  with chart_pageD [OF assms(1)] assms(2) show ?thesis
    by (auto simp: updatePerformanceChart_def intro: updates_throw)
next
  case (Some ms)
  have thr: "updates_progress d k 4 (Some TypeError, s')" if "charts_updated k d s'" for s'
    using that by (rule updates_throw) simp
  from Some chart_pageD [OF assms(1)] assms(2,3) show ?thesis
    by (auto simp: updatePerformanceChart_def set_metric_text_cases and_then_def
        split: option.splits intro!: thr chart_step_updates_numeral (4))
qed

lemma age_chart_updates:
  assumes "chart_page e" "charts_updated k d s" "4 \<le> k"
  shows "updates_progress d k 5 (updateAgeDistributionChart e x s)"
proof (cases x)
  case None
  with chart_pageD [OF assms(1)] assms(2) show ?thesis
    by (auto simp: updateAgeDistributionChart_def intro: updates_throw)
next
  case (Some groups)
  with chart_pageD [OF assms(1)] assms(2,3) show ?thesis
    by (auto simp: updateAgeDistributionChart_def Let_def split: option.splits
        intro!: chart_step_updates_numeral (5))
qed

lemma updateCharts_updates:
  assumes "chart_page e" "charts_updated k d s"
  shows "updates_progress d k 5 (updateCharts e snap s)"
  unfolding updateCharts_def
  apply (rule updates_and_then [OF risk_chart_updates [OF assms]])
  apply (rule updates_and_then [OF feature_chart_updates [OF assms(1)]], assumption, simp)
  apply (rule updates_and_then [OF hourly_chart_updates [OF assms(1)]], assumption, simp)
  apply (rule updates_and_then [OF performance_chart_updates [OF assms(1)]], assumption, simp)
  apply (rule age_chart_updates [OF assms(1)], assumption, simp)
  done

lemma updateStats_updates:
  assumes "charts_updated k d s"
  shows "updates_progress d k k (updateStats e ov s)"
proof -
  have "charts_updated k d (snd (updateStats e ov s)) = charts_updated k d s"
    by (rule charts_updated_cong) (simp_all add: updateStats_fields)
  with assms show ?thesis by (auto simp: updates_progress_def)
qed

lemma updateDashboard_updates:
  assumes "chart_page e" "charts_updated k d s"
  shows "updates_progress d k 5 (updateDashboard e now recent snap s)"
proof -
  have feed: "updates_progress d k' 5 (None, updatePredictionFeed e now recent ps s')"
    if "charts_updated k' d s'" "5 \<le> k'" for k' s' ps
    using that by (intro updates_return [where k' = k']) simp_all
  show ?thesis
    unfolding updateDashboard_def
    apply (rule updates_and_then [OF updateStats_updates [OF assms(2)]])
    apply (rule updates_and_then [OF updateCharts_updates [OF assms(1)]], assumption)
    apply (rule feed, assumption, assumption)
    done
qed

lemma load_body_updates:
  assumes "chart_page e" "charts_updated k d s"
  shows "updates_progress d k 5 (load_body e now response recent s)"
proof -
  have r1: "charts_updated k d (dash_showLoading e True s)" using assms(2) by simp
  have thr: "updates_progress d k 5 (Some ex, dash_showLoading e True s)" for ex
    using r1 by (rule updates_throw) simp
  show ?thesis
  proof (cases response)
    case (Json_body snap)
    show ?thesis
    proof (cases "truthy (snapshot_error snap)")
      case True
      with Json_body thr show ?thesis by (simp add: load_body_def)
    next
      case False
      have r2: "charts_updated k d (dash_showLoading e True s\<lparr>dashboardData := Some snap\<rparr>)"
        using r1 by simp
      have fin: "updates_progress d k' 5
          (None, dash_showNotification ''Dashboard updated successfully'' ''success''
                   (updateLastUpdateTime e now s'))"
        if "charts_updated k' d s'" "5 \<le> k'" for k' s'
        using that by (intro updates_return [where k' = k']) simp_all
      have "updates_progress d k 5
          (and_then (updateDashboard e now recent snap
                       (dash_showLoading e True s\<lparr>dashboardData := Some snap\<rparr>))
             (\<lambda>d. (None, dash_showNotification ''Dashboard updated successfully'' ''success''
                            (updateLastUpdateTime e now d))))"
        apply (rule updates_and_then [OF updateDashboard_updates [OF assms(1) r2]])
        apply (rule fin, assumption, assumption)
        done
      with Json_body False show ?thesis by (simp add: load_body_def)
    qed
  qed (use thr in \<open>simp_all add: load_body_def\<close>)
qed

lemma loadSampleData_updates:
  assumes page: "chart_page e" and u: "charts_updated k d s"
  shows "charts_updated 5 d (snd (loadSampleData e now recent s))"
proof -
  let ?s0 = "s\<lparr>dash_console := dash_console s @ [''Loading sample data for development''],
                random_calls := random_calls s + 15,
                dashboardData := Some (sampleData e now (random_calls s))\<rparr>"
  have u0: "charts_updated k d ?s0"
    by (rule charts_updated_cong [THEN iffD2, OF _ _ u]) simp_all
  have fin: "updates_progress d k' 5 (None, updateLastUpdateTime e now s')"
    if "charts_updated k' d s'" "5 \<le> k'" for k' s'
    using that by (intro updates_return [where k' = k']) simp_all
  have "updates_progress d k 5
      (and_then (updateDashboard e now recent (sampleData e now (random_calls s)) ?s0)
         (\<lambda>d. (None, updateLastUpdateTime e now d)))"
    apply (rule updates_and_then [OF updateDashboard_updates [OF page u0]])
    apply (rule fin, assumption, assumption)
    done
  then have "updates_progress d k 5 (loadSampleData e now recent s)"
    by (simp add: loadSampleData_def Let_def)
  moreover have "fst (loadSampleData e now recent s) = None"
    by (rule loadSampleData_page (1) [OF page charts_updated_registered [OF u]])
  ultimately obtain k' where "charts_updated k' d (snd (loadSampleData e now recent s))"
    "5 \<le> k'"
    by (auto simp: updates_progress_def)
  then show ?thesis by (rule charts_updated_weaken)
qed

lemma loadDashboardData_updates:
  assumes page: "chart_page e" and r: "registered_upto 5 d"
  shows "charts_updated 5 d (snd (loadDashboardData e now response recent d))"
proof (cases "load_body e now response recent d")
  case (Pair x s)
  from load_body_updates [OF page charts_updated_start [OF r], of now response recent] Pair
  obtain k' where k': "charts_updated k' d s" "x = None \<longrightarrow> 5 \<le> k'"
    by (auto simp: updates_progress_def)
  show ?thesis
  proof (cases x)
    case None
    with k' have "charts_updated 5 d s" by (auto intro: charts_updated_weaken)
    with Pair None show ?thesis
      by (simp add: loadDashboardData_def try_catch_finally_rethrow_def)
  next
    case (Some ex)
    have "charts_updated k' d
        (dash_showNotification ''Failed to load dashboard data'' ''error''
           (s\<lparr>dash_console := dash_console s @ [''Error loading dashboard data:'']\<rparr>))"
      using k'(1) by simp
    from loadSampleData_updates [OF page this, of now recent]
    have "charts_updated 5 d (snd (load_catch e now recent ex s))"
      by (simp add: load_catch_def)
    with Pair Some show ?thesis
      by (auto simp: loadDashboardData_def try_catch_finally_rethrow_def split: prod.splits)
  qed
qed

lemma failed_refresh_charts:
  assumes page: "chart_page e" and r: "registered_upto k d" and f: "fetch_failed response"
  shows "map chart_data (chart_instances (snd (loadDashboardData e now response recent d)))
       = [[Fin 560, Fin 437, Fin 250],
          [Fin 95, Fin 87, Fin 78, Fin 65, Fin 58, Fin 45, Fin 32, Fin 25],
          [Fin 2, Fin 1, Fin 0, Fin 0, Fin 1, Fin 2, Fin 5, Fin 8, Fin 12, Fin 15,
           Fin 18, Fin 20, Fin 22, Fin 21, Fin 19, Fin 17, Fin 15, Fin 13, Fin 10,
           Fin 8, Fin 6, Fin 4, Fin 3, Fin 2],
          [Fin 92, Fin 89, Fin 90, Fin 94],
          [Fin 25, Fin 45, Fin 30]]"
proof -
  let ?d2 = "dash_showNotification ''Failed to load dashboard data'' ''error''
      (dash_showLoading e True d
         \<lparr>dash_console := dash_console (dash_showLoading e True d)
                           @ [''Error loading dashboard data:'']\<rparr>)"
  have r2: "registered_upto k ?d2" using r by simp
  show ?thesis
    using loadSampleData_page (4) [OF page r2, of now recent]
    by (simp add: loadDashboardData_failed [OF page r f])
qed

text \<open>
  Claim C7. After any sequence of refresh cycles, on any page, every chart name is
  registered at most once and every chart instance constructed is registered under one
  name: no refresh constructs a second instance for a registered name. On a page that
  has the five canvases and the labels written with them, after one or more cycles
  (whatever the service answered) the registry holds exactly the five chart names, the
  \<open>i\<close>-th name with the \<open>i\<close>-th instance, and there are exactly five instances, one on
  each canvas; any further cycles leave the registry and the instances' canvases as
  they are. One further cycle, whatever the service answers, changes the five instances
  in place: each keeps its type and has been updated at least once more; and when the
  request of that cycle fails, the data of the five instances are the data of the
  placeholder snapshot.
\<close>

theorem refreshes_one_instance_per_chart:
  "one_instance_per_name (refreshes e cycles initial_dashboard)
   \<and> (chart_page e \<and> cycles \<noteq> [] \<longrightarrow>
        (let D = refreshes e cycles initial_dashboard;
             D' = refreshes e (cycles @ [(now, response, recent)]) initial_dashboard
         in charts D = full_registry
          \<and> map chart_canvas (chart_instances D) = five_canvases
          \<and> length (chart_instances D) = 5
          \<and> charts (refreshes e (cycles @ later) initial_dashboard) = charts D
          \<and> map chart_canvas (chart_instances (refreshes e (cycles @ later) initial_dashboard))
              = map chart_canvas (chart_instances D)
          \<and> (\<forall>i<5. chart_type (chart_instances D' ! i) = chart_type (chart_instances D ! i)
                  \<and> chart_updates (chart_instances D ! i)
                      < chart_updates (chart_instances D' ! i))
          \<and> (fetch_failed response \<longrightarrow>
                map chart_data (chart_instances D')
                  = [[Fin 560, Fin 437, Fin 250],
                     [Fin 95, Fin 87, Fin 78, Fin 65, Fin 58, Fin 45, Fin 32, Fin 25],
                     [Fin 2, Fin 1, Fin 0, Fin 0, Fin 1, Fin 2, Fin 5, Fin 8, Fin 12, Fin 15,
                      Fin 18, Fin 20, Fin 22, Fin 21, Fin 19, Fin 17, Fin 15, Fin 13, Fin 10,
                      Fin 8, Fin 6, Fin 4, Fin 3, Fin 2],
                     [Fin 92, Fin 89, Fin 90, Fin 94],
                     [Fin 25, Fin 45, Fin 30]])))"
proof -
  define D where "D = refreshes e cycles initial_dashboard"
  define D' where "D' = refreshes e (cycles @ [(now, response, recent)]) initial_dashboard"
  have always: "one_instance_per_name D"
    unfolding D_def using one_instance_initial by (rule one_instance_refreshes)
  have next_cycle: "D' = snd (loadDashboardData e now response recent D)"
    by (simp add: D'_def D_def refreshes_append)
  have page: "charts D = full_registry
      \<and> map chart_canvas (chart_instances D) = five_canvases
      \<and> length (chart_instances D) = 5
      \<and> charts (refreshes e (cycles @ later) initial_dashboard) = charts D
      \<and> map chart_canvas (chart_instances (refreshes e (cycles @ later) initial_dashboard))
          = map chart_canvas (chart_instances D)
      \<and> (\<forall>i<5. chart_type (chart_instances D' ! i) = chart_type (chart_instances D ! i)
              \<and> chart_updates (chart_instances D ! i) < chart_updates (chart_instances D' ! i))
      \<and> (fetch_failed response \<longrightarrow>
            map chart_data (chart_instances D')
              = [[Fin 560, Fin 437, Fin 250],
                 [Fin 95, Fin 87, Fin 78, Fin 65, Fin 58, Fin 45, Fin 32, Fin 25],
                 [Fin 2, Fin 1, Fin 0, Fin 0, Fin 1, Fin 2, Fin 5, Fin 8, Fin 12, Fin 15,
                  Fin 18, Fin 20, Fin 22, Fin 21, Fin 19, Fin 17, Fin 15, Fin 13, Fin 10,
                  Fin 8, Fin 6, Fin 4, Fin 3, Fin 2],
                 [Fin 92, Fin 89, Fin 90, Fin 94],
                 [Fin 25, Fin 45, Fin 30]])"
    if e: "chart_page e" and cycles: "cycles \<noteq> []"
  proof -
    have first: "registered_upto 5 D"
      unfolding D_def using e initial_registered cycles by (rule refreshes_registered)
    have "cycles @ later \<noteq> []" using cycles by simp
    with e initial_registered
    have further: "registered_upto 5 (refreshes e (cycles @ later) initial_dashboard)"
      by (rule refreshes_registered)
    have "charts_updated 5 D D'"
      unfolding next_cycle using e first by (rule loadDashboardData_updates)
    then have in_place: "\<forall>i<5. chart_type (chart_instances D' ! i) = chart_type (chart_instances D ! i)
        \<and> chart_updates (chart_instances D ! i) < chart_updates (chart_instances D' ! i)"
      by (simp add: charts_updated_def)
    have failed: "map chart_data (chart_instances D')
        = [[Fin 560, Fin 437, Fin 250],
           [Fin 95, Fin 87, Fin 78, Fin 65, Fin 58, Fin 45, Fin 32, Fin 25],
           [Fin 2, Fin 1, Fin 0, Fin 0, Fin 1, Fin 2, Fin 5, Fin 8, Fin 12, Fin 15,
            Fin 18, Fin 20, Fin 22, Fin 21, Fin 19, Fin 17, Fin 15, Fin 13, Fin 10,
            Fin 8, Fin 6, Fin 4, Fin 3, Fin 2],
           [Fin 92, Fin 89, Fin 90, Fin 94],
           [Fin 25, Fin 45, Fin 30]]"
      if "fetch_failed response"
      unfolding next_cycle using e first that by (rule failed_refresh_charts)
    from registered_five [OF first] registered_five (1,2) [OF further] in_place failed
    show ?thesis by simp
  qed
  from always page show ?thesis
    unfolding Let_def D_def [symmetric] D'_def [symmetric] by blast
qed

theorem refreshes_one_instance_per_chart_witness:
  "chart_page dashboard_env
   \<and> charts (refreshes dashboard_env [(0, Fetch_rejected, Fetch_rejected)] initial_dashboard)
       = [(''riskDistribution'', 0), (''featureImportance'', 1), (''hourlyTrend'', 2),
          (''performance'', 3), (''ageDistribution'', 4)]
   \<and> map chart_canvas (chart_instances
        (refreshes dashboard_env [(0, Fetch_rejected, Fetch_rejected)] initial_dashboard))
       = [''riskDistributionChart'', ''featureImportanceChart'', ''hourlyTrendChart'',
          ''performanceChart'', ''ageDistributionChart'']
   \<and> charts (refreshes dashboard_env
        [(0, Fetch_rejected, Fetch_rejected), (30000, Json_null, Json_null)] initial_dashboard)
       = [(''riskDistribution'', 0), (''featureImportance'', 1), (''hourlyTrend'', 2),
          (''performance'', 3), (''ageDistribution'', 4)]
   \<and> length (chart_instances (refreshes dashboard_env
        [(0, Fetch_rejected, Fetch_rejected), (30000, Json_null, Json_null)] initial_dashboard))
       = 5
   \<and> chart_updates (chart_instances (refreshes dashboard_env
        [(0, Fetch_rejected, Fetch_rejected)] initial_dashboard) ! 0)
       < chart_updates (chart_instances (refreshes dashboard_env
        [(0, Fetch_rejected, Fetch_rejected), (30000, Json_null, Json_null)] initial_dashboard) ! 0)"
proof -
  have page: "chart_page dashboard_env"
    by (simp add: chart_page_def dashboard_env_def)
  have one: "[(0::int, Fetch_rejected :: snapshot fetch_outcome,
               Fetch_rejected :: prediction_event list option fetch_outcome)] \<noteq> []"
    by simp
  have two: "[(0::int, Fetch_rejected :: snapshot fetch_outcome,
               Fetch_rejected :: prediction_event list option fetch_outcome),
              (30000, Json_null, Json_null)] \<noteq> []"
    by simp
  have both: "[(0::int, Fetch_rejected :: snapshot fetch_outcome,
                Fetch_rejected :: prediction_event list option fetch_outcome)]
              @ [(30000, Json_null, Json_null)]
      = [(0, Fetch_rejected, Fetch_rejected), (30000, Json_null, Json_null)]"
    by simp
  note once = refreshes_one_instance_per_chart [of dashboard_env
      "[(0, Fetch_rejected, Fetch_rejected)]" 30000 Json_null Json_null "[]",
      unfolded Let_def both]
  note twice = refreshes_one_instance_per_chart [of dashboard_env
      "[(0, Fetch_rejected, Fetch_rejected), (30000, Json_null, Json_null)]"
      0 Fetch_rejected Fetch_rejected "[]", unfolded Let_def]
  from once page one
  have first: "charts (refreshes dashboard_env [(0, Fetch_rejected, Fetch_rejected)]
                  initial_dashboard) = full_registry"
    "map chart_canvas (chart_instances
        (refreshes dashboard_env [(0, Fetch_rejected, Fetch_rejected)] initial_dashboard))
       = five_canvases"
    "\<forall>i<5. chart_type (chart_instances (refreshes dashboard_env
          [(0, Fetch_rejected, Fetch_rejected), (30000, Json_null, Json_null)]
          initial_dashboard) ! i)
        = chart_type (chart_instances (refreshes dashboard_env
          [(0, Fetch_rejected, Fetch_rejected)] initial_dashboard) ! i)
      \<and> chart_updates (chart_instances (refreshes dashboard_env
          [(0, Fetch_rejected, Fetch_rejected)] initial_dashboard) ! i)
        < chart_updates (chart_instances (refreshes dashboard_env
          [(0, Fetch_rejected, Fetch_rejected), (30000, Json_null, Json_null)]
          initial_dashboard) ! i)"
    by blast+
  from twice page two
  have second: "charts (refreshes dashboard_env
        [(0, Fetch_rejected, Fetch_rejected), (30000, Json_null, Json_null)] initial_dashboard)
       = full_registry"
    "length (chart_instances (refreshes dashboard_env
        [(0, Fetch_rejected, Fetch_rejected), (30000, Json_null, Json_null)] initial_dashboard))
       = 5"
    by blast+
  from first(3) have updated: "chart_updates (chart_instances (refreshes dashboard_env
        [(0, Fetch_rejected, Fetch_rejected)] initial_dashboard) ! 0)
       < chart_updates (chart_instances (refreshes dashboard_env
        [(0, Fetch_rejected, Fetch_rejected), (30000, Json_null, Json_null)] initial_dashboard) ! 0)"
    by simp
  show ?thesis
    unfolding first(1,2) second using updated
    by (simp add: page full_registry_def five_canvases_def)
qed

end
